theory Spec2Isabelle
  imports Main "HOL-Library.Signed_Division"
begin

section \<open>Go integers and decimal formatting\<close>

text \<open>
  Go's \<^verbatim>\<open>int\<close>, \<^verbatim>\<open>int32\<close> and \<^verbatim>\<open>uint32\<close> values are modelled by the mathematical
  integer they denote. The only places where a width matters are the conversions
  \<^verbatim>\<open>nvml.Pstates(stateN)\<close> and \<^verbatim>\<open>nvml.EnableState(stateN)\<close> of the generic label
  functions (both target types are \<^verbatim>\<open>int32\<close>): a conversion between integer types
  keeps the low 32 bits and reads them as two's complement.
\<close>

definition to_int32 :: "int \<Rightarrow> int" where
  "to_int32 x = (x + 2 ^ 31) mod 2 ^ 32 - 2 ^ 31"

text \<open>Go's \<^verbatim>\<open>/\<close> and \<^verbatim>\<open>%\<close> on integers truncate towards zero.\<close>

definition go_quo :: "int \<Rightarrow> int \<Rightarrow> int" where
  "go_quo x y = (if (x < 0) = (y < 0) then \<bar>x\<bar> div \<bar>y\<bar> else - (\<bar>x\<bar> div \<bar>y\<bar>))"

definition go_rem :: "int \<Rightarrow> int \<Rightarrow> int" where
  "go_rem x y = x - y * go_quo x y"

text \<open>\<^verbatim>\<open>strconv.Itoa\<close> and the verb \<^verbatim>\<open>%d\<close>: the decimal numeral of an integer.\<close>

definition digit :: "nat \<Rightarrow> char" where
  "digit n = ''0123456789'' ! n"

function decimal :: "nat \<Rightarrow> string" where
  "decimal n = (if n < 10 then [digit n] else decimal (n div 10) @ [digit (n mod 10)])"
  by pat_completeness auto
termination
  by (relation "measure (\<lambda>n. n)") auto

declare decimal.simps [simp del]

definition Itoa :: "int \<Rightarrow> string" where
  "Itoa i = (if i < 0 then CHR ''-'' # decimal (nat (- i)) else decimal (nat i))"

section \<open>Constants of the NVML binding\<close>

text \<open>
  The collector imports these from \<^verbatim>\<open>github.com/NVIDIA/go-nvml/pkg/nvml\<close>; the values
  are those of the NVML header the binding is generated from.
\<close>

type_synonym Return = int

definition SUCCESS :: Return where "SUCCESS = 0"
definition ERROR_NOT_SUPPORTED :: Return where "ERROR_NOT_SUPPORTED = 3"

definition BUS_TYPE_UNKNOWN :: int where "BUS_TYPE_UNKNOWN = 0"
definition BUS_TYPE_PCI :: int where "BUS_TYPE_PCI = 1"
definition BUS_TYPE_PCIE :: int where "BUS_TYPE_PCIE = 2"
definition BUS_TYPE_FPCI :: int where "BUS_TYPE_FPCI = 3"
definition BUS_TYPE_AGP :: int where "BUS_TYPE_AGP = 4"

definition CLOCK_GRAPHICS :: int where "CLOCK_GRAPHICS = 0"
definition CLOCK_SM :: int where "CLOCK_SM = 1"
definition CLOCK_MEM :: int where "CLOCK_MEM = 2"
definition CLOCK_VIDEO :: int where "CLOCK_VIDEO = 3"
definition CLOCK_COUNT :: int where "CLOCK_COUNT = 4"

definition CLOCK_ID_CURRENT :: int where "CLOCK_ID_CURRENT = 0"
definition CLOCK_ID_APP_CLOCK_TARGET :: int where "CLOCK_ID_APP_CLOCK_TARGET = 1"
definition CLOCK_ID_APP_CLOCK_DEFAULT :: int where "CLOCK_ID_APP_CLOCK_DEFAULT = 2"
definition CLOCK_ID_CUSTOMER_BOOST_MAX :: int where "CLOCK_ID_CUSTOMER_BOOST_MAX = 3"
definition CLOCK_ID_COUNT :: int where "CLOCK_ID_COUNT = 4"

definition COMPUTEMODE_DEFAULT :: int where "COMPUTEMODE_DEFAULT = 0"
definition COMPUTEMODE_EXCLUSIVE_THREAD :: int where "COMPUTEMODE_EXCLUSIVE_THREAD = 1"
definition COMPUTEMODE_PROHIBITED :: int where "COMPUTEMODE_PROHIBITED = 2"
definition COMPUTEMODE_EXCLUSIVE_PROCESS :: int where "COMPUTEMODE_EXCLUSIVE_PROCESS = 3"

definition PSTATE_UNKNOWN :: int where "PSTATE_UNKNOWN = 32"

definition FEATURE_DISABLED :: int where "FEATURE_DISABLED = 0"
definition FEATURE_ENABLED :: int where "FEATURE_ENABLED = 1"

definition TEMPERATURE_GPU :: int where "TEMPERATURE_GPU = 0"
definition TEMPERATURE_COUNT :: int where "TEMPERATURE_COUNT = 1"

text \<open>
  The codes each enumeration of the binding names. For the performance state these
  are \<^verbatim>\<open>PSTATE_0\<close> .. \<^verbatim>\<open>PSTATE_15\<close> (0 .. 15) and \<^verbatim>\<open>PSTATE_UNKNOWN\<close>.
\<close>

definition known_BusType :: "int set" where
  "known_BusType = {BUS_TYPE_UNKNOWN, BUS_TYPE_PCI, BUS_TYPE_PCIE, BUS_TYPE_FPCI, BUS_TYPE_AGP}"

definition known_ClockType :: "int set" where
  "known_ClockType = {CLOCK_GRAPHICS, CLOCK_SM, CLOCK_MEM, CLOCK_VIDEO}"

definition known_ClockId :: "int set" where
  "known_ClockId = {CLOCK_ID_CURRENT, CLOCK_ID_APP_CLOCK_TARGET, CLOCK_ID_APP_CLOCK_DEFAULT,
     CLOCK_ID_CUSTOMER_BOOST_MAX}"

definition known_ComputeMode :: "int set" where
  "known_ComputeMode = {COMPUTEMODE_DEFAULT, COMPUTEMODE_EXCLUSIVE_THREAD,
     COMPUTEMODE_PROHIBITED, COMPUTEMODE_EXCLUSIVE_PROCESS}"

definition known_Pstates :: "int set" where
  "known_Pstates = {0..15} \<union> {PSTATE_UNKNOWN}"

definition known_EnableState :: "int set" where
  "known_EnableState = {FEATURE_DISABLED, FEATURE_ENABLED}"

definition known_TemperatureSensors :: "int set" where
  "known_TemperatureSensors = {TEMPERATURE_GPU}"

section \<open>The label functions\<close>

text \<open>
  Each \<^verbatim>\<open>switch\<close> is an \<^verbatim>\<open>if\<close> chain in the order of its cases. The generic functions
  compare in their type parameter \<^verbatim>\<open>T\<close>, so the argument is compared as it is; only
  \<^verbatim>\<open>getPstatesString\<close> and \<^verbatim>\<open>getPersisModeString\<close> convert it first.
\<close>

definition getBusTypeString :: "int \<Rightarrow> string" where
  "getBusTypeString busT =
     (if busT = BUS_TYPE_AGP then ''AGP''
      else if busT = BUS_TYPE_FPCI then ''FPCI''
      else if busT = BUS_TYPE_PCI then ''PCI''
      else if busT = BUS_TYPE_PCIE then ''PCIE''
      else if busT = BUS_TYPE_UNKNOWN then ''UNKNOWN''
      else ''UNKNOWN'')"

definition getClockTypeString :: "int \<Rightarrow> string" where
  "getClockTypeString typeN =
     (if typeN = CLOCK_GRAPHICS then ''GRAPHICS''
      else if typeN = CLOCK_SM then ''SM''
      else if typeN = CLOCK_MEM then ''MEM''
      else if typeN = CLOCK_VIDEO then ''VIDEO''
      else ''UNKNOWN'')"

definition getClockIDString :: "int \<Rightarrow> string" where
  "getClockIDString typeN =
     (if typeN = CLOCK_ID_CURRENT then ''CURRENT''
      else if typeN = CLOCK_ID_APP_CLOCK_TARGET then ''APP CLOCK TARGET''
      else if typeN = CLOCK_ID_APP_CLOCK_DEFAULT then ''APP CLOCK DEFAULT''
      else if typeN = CLOCK_ID_CUSTOMER_BOOST_MAX then ''CUSTOMER BOOST MAX''
      else ''UNKNOWN'')"

definition getComputeModeString :: "int \<Rightarrow> string" where
  "getComputeModeString modeN =
     (if modeN = COMPUTEMODE_DEFAULT then ''DEFAULT''
      else if modeN = COMPUTEMODE_EXCLUSIVE_THREAD then ''EXCLUSIVE THREAD''
      else if modeN = COMPUTEMODE_PROHIBITED then ''PROHIBITED''
      else if modeN = COMPUTEMODE_EXCLUSIVE_PROCESS then ''EXCLUSIVE PROCESS''
      else ''UNKNOWN'')"

definition getPstatesString :: "int \<Rightarrow> string" where
  "getPstatesString stateN =
     (if PSTATE_UNKNOWN \<noteq> to_int32 stateN then ''P'' @ Itoa stateN else ''UNKNOWN'')"

definition getPersisModeString :: "int \<Rightarrow> string" where
  "getPersisModeString stateN =
     (if to_int32 stateN = FEATURE_DISABLED then ''OFF'' else ''ON'')"

definition getTemperatureSensorString :: "int \<Rightarrow> string" where
  "getTemperatureSensorString tempN =
     (if tempN = TEMPERATURE_GPU then ''GPU'' else ''UNKNOWN'')"

section \<open>The device-access layer and what a poll does to the outside\<close>

text \<open>
  The NVML library is a collaborator the collector calls into. It is modelled by the
  answers it gives: one field per library function the collector uses, named as in the
  binding; methods of \<^verbatim>\<open>nvml.Device\<close> take the device handle as their first argument.
  Unsigned results (\<^verbatim>\<open>uint32\<close>, \<^verbatim>\<open>uint64\<close>) are the integers they denote.
  Within one poll the answer to a call depends on the function and its arguments only,
  not on the calls made before it.
\<close>

datatype Device = Handle nat

record Utilization =
  Gpu :: int
  Memory :: int

record MemoryInfo =
  Total :: int
  Free :: int
  Used :: int

record nvml =
  Init :: Return
  Shutdown :: Return
  DeviceGetCount :: "int \<times> Return"
  DeviceGetHandleByIndex :: "int \<Rightarrow> Device \<times> Return"
  SystemGetDriverVersion :: "string \<times> Return"
  SystemGetCudaDriverVersion_v2 :: "int \<times> Return"
  SystemGetNVMLVersion :: "string \<times> Return"
  GetUUID :: "Device \<Rightarrow> string \<times> Return"
  GetName :: "Device \<Rightarrow> string \<times> Return"
  GetBusType :: "Device \<Rightarrow> int \<times> Return"
  GetNumFans :: "Device \<Rightarrow> int \<times> Return"
  GetMinMaxFanSpeed :: "Device \<Rightarrow> int \<times> int \<times> Return"
  GetFanSpeed_v2 :: "Device \<Rightarrow> int \<Rightarrow> int \<times> Return"
  GetApplicationsClock :: "Device \<Rightarrow> int \<Rightarrow> int \<times> Return"
  GetClock :: "Device \<Rightarrow> int \<Rightarrow> int \<Rightarrow> int \<times> Return"
  GetComputeMode :: "Device \<Rightarrow> int \<times> Return"
  GetPerformanceState :: "Device \<Rightarrow> int \<times> Return"
  GetPersistenceMode :: "Device \<Rightarrow> int \<times> Return"
  GetUtilizationRates :: "Device \<Rightarrow> Utilization \<times> Return"
  GetTemperature :: "Device \<Rightarrow> int \<Rightarrow> int \<times> Return"
  GetPowerUsage :: "Device \<Rightarrow> int \<times> Return"
  GetEnforcedPowerLimit :: "Device \<Rightarrow> int \<times> Return"
  GetMemoryInfo :: "Device \<Rightarrow> MemoryInfo \<times> Return"

text \<open>A call of the library, as a fake of the library would record it.\<close>

datatype call =
    Call_Init
  | Call_Shutdown
  | Call_DeviceGetCount
  | Call_DeviceGetHandleByIndex int
  | Call_SystemGetDriverVersion
  | Call_SystemGetCudaDriverVersion_v2
  | Call_SystemGetNVMLVersion
  | Call_GetUUID Device
  | Call_GetName Device
  | Call_GetBusType Device
  | Call_GetNumFans Device
  | Call_GetMinMaxFanSpeed Device
  | Call_GetFanSpeed_v2 Device int
  | Call_GetApplicationsClock Device int
  | Call_GetClock Device int int
  | Call_GetComputeMode Device
  | Call_GetPerformanceState Device
  | Call_GetPersistenceMode Device
  | Call_GetUtilizationRates Device
  | Call_GetTemperature Device int
  | Call_GetPowerUsage Device
  | Call_GetEnforcedPowerLimit Device
  | Call_GetMemoryInfo Device

text \<open>The status code the library returns for a call.\<close>

fun status :: "nvml \<Rightarrow> call \<Rightarrow> Return" where
  "status drv Call_Init = Init drv"
| "status drv Call_Shutdown = Shutdown drv"
| "status drv Call_DeviceGetCount = snd (DeviceGetCount drv)"
| "status drv (Call_DeviceGetHandleByIndex i) = snd (DeviceGetHandleByIndex drv i)"
| "status drv Call_SystemGetDriverVersion = snd (SystemGetDriverVersion drv)"
| "status drv Call_SystemGetCudaDriverVersion_v2 = snd (SystemGetCudaDriverVersion_v2 drv)"
| "status drv Call_SystemGetNVMLVersion = snd (SystemGetNVMLVersion drv)"
| "status drv (Call_GetUUID d) = snd (GetUUID drv d)"
| "status drv (Call_GetName d) = snd (GetName drv d)"
| "status drv (Call_GetBusType d) = snd (GetBusType drv d)"
| "status drv (Call_GetNumFans d) = snd (GetNumFans drv d)"
| "status drv (Call_GetMinMaxFanSpeed d) = snd (snd (GetMinMaxFanSpeed drv d))"
| "status drv (Call_GetFanSpeed_v2 d f) = snd (GetFanSpeed_v2 drv d f)"
| "status drv (Call_GetApplicationsClock d t) = snd (GetApplicationsClock drv d t)"
| "status drv (Call_GetClock d t tt) = snd (GetClock drv d t tt)"
| "status drv (Call_GetComputeMode d) = snd (GetComputeMode drv d)"
| "status drv (Call_GetPerformanceState d) = snd (GetPerformanceState drv d)"
| "status drv (Call_GetPersistenceMode d) = snd (GetPersistenceMode drv d)"
| "status drv (Call_GetUtilizationRates d) = snd (GetUtilizationRates drv d)"
| "status drv (Call_GetTemperature d t) = snd (GetTemperature drv d t)"
| "status drv (Call_GetPowerUsage d) = snd (GetPowerUsage drv d)"
| "status drv (Call_GetEnforcedPowerLimit d) = snd (GetEnforcedPowerLimit drv d)"
| "status drv (Call_GetMemoryInfo d) = snd (GetMemoryInfo drv d)"

text \<open>
  The descriptors are the fields of \<^verbatim>\<open>nvgpuCollector\<close>; \<^verbatim>\<open>variableLabels\<close> gives the
  label names \<^verbatim>\<open>NewNVGPUCollector\<close> declares for each.
\<close>

datatype Desc =
    gpuSysInfo | gpuInfo | gpuMinFanSpeed | gpuMaxFanSpeed | gpuFanSpeed | gpuTemp
  | gpuPowerUsage | gpuPowerEnforceLimit | gpuMemTotal | gpuMemUsed | gpuMemFree
  | gpuAppClk | gpuClk | gpuComputeMode | gpuPerf | gpuPersisMode | gpuUtil

fun variableLabels :: "Desc \<Rightarrow> string list" where
  "variableLabels gpuSysInfo = [''driver_v'', ''cuda_v'', ''nvml_v'']"
| "variableLabels gpuInfo = [''index'', ''uuid'', ''name'', ''bus_type'']"
| "variableLabels gpuAppClk = [''index'', ''type'']"
| "variableLabels gpuClk = [''index'', ''type'', ''id'']"
| "variableLabels gpuComputeMode = [''index'', ''mode'']"
| "variableLabels gpuPerf = [''index'', ''state'']"
| "variableLabels gpuPersisMode = [''index'', ''mode'']"
| "variableLabels gpuUtil = [''index'', ''type'']"
| "variableLabels gpuMinFanSpeed = [''index'']"
| "variableLabels gpuMaxFanSpeed = [''index'']"
| "variableLabels gpuFanSpeed = [''index'', ''fan'']"
| "variableLabels gpuTemp = [''index'', ''type'']"
| "variableLabels gpuPowerUsage = [''index'']"
| "variableLabels gpuPowerEnforceLimit = [''index'']"
| "variableLabels gpuMemTotal = [''index'']"
| "variableLabels gpuMemUsed = [''index'']"
| "variableLabels gpuMemFree = [''index'']"

datatype ValueType = CounterValue | GaugeValue | UntypedValue

text \<open>
  An observation sent on the channel: the arguments of \<^verbatim>\<open>prometheus.MustNewConstMetric\<close>.
  The value is the integer handed to \<^verbatim>\<open>float64\<close> (or the literal 1).
  \<^verbatim>\<open>MustNewConstMetric\<close> panics when the number of label values differs from the
  number of \<open>variableLabels\<close> of the descriptor, which no observation of a poll does
  (\<open>poll_event\<close> below), or when a label value is not valid UTF-8; the strings the
  library returns are taken to be valid.
\<close>

record Metric =
  desc :: Desc
  valueType :: ValueType
  val :: int
  labelValues :: "string list"

definition MustNewConstMetric :: "Desc \<Rightarrow> ValueType \<Rightarrow> int \<Rightarrow> string list \<Rightarrow> Metric" where
  "MustNewConstMetric d vt v ls = \<lparr>desc = d, valueType = vt, val = v, labelValues = ls\<rparr>"

text \<open>
  What a poll does, in order: library calls, observations sent on the channel, and log
  lines. An error log line and an error value carry the text before the final \<^verbatim>\<open>%v\<close>
  and the status code that \<^verbatim>\<open>nvml.ErrorString\<close> renders there.
\<close>

datatype event =
    Query call
  | Emit Metric
  | LogDebug string
  | LogError string Return

datatype error = Errorf string Return

type_synonym outcome = "event list \<times> error option"

record flags =
  enableNVGPUSysInfo :: bool
  enableNVGPUInfo :: bool
  enableNVGPUFan :: bool

section \<open>The statement forms of \<^verbatim>\<open>Update\<close>\<close>

text \<open>Straight-line composition: the second part runs only if the first returned no error.\<close>

definition seq :: "outcome \<Rightarrow> outcome \<Rightarrow> outcome" where
  "seq p k = (case snd p of Some e \<Rightarrow> (fst p, Some e) | None \<Rightarrow> (fst p @ fst k, snd k))"

fun run_all :: "outcome list \<Rightarrow> outcome" where
  "run_all [] = ([], None)"
| "run_all (p # ps) = seq p (run_all ps)"

text \<open>\<^verbatim>\<open>ch <- prometheus.MustNewConstMetric(...)\<close>\<close>

definition emit :: "Metric \<Rightarrow> outcome" where
  "emit m = ([Emit m], None)"

text \<open>\<^verbatim>\<open>level.Debug(c.logger).Log("msg", ...)\<close>\<close>

definition debug :: "string \<Rightarrow> outcome" where
  "debug msg = ([LogDebug msg], None)"

text \<open>
  \<^verbatim>\<open>x, ret := call(); if ret != nvml.SUCCESS { return fmt.Errorf(msg, nvml.ErrorString(ret)) }\<close>
\<close>

definition query_or_fail :: "nvml \<Rightarrow> call \<Rightarrow> string \<Rightarrow> outcome" where
  "query_or_fail drv c msg =
     ([Query c], if status drv c \<noteq> SUCCESS then Some (Errorf msg (status drv c)) else None)"

text \<open>
  \<^verbatim>\<open>x, ret := call(); switch ret { case nvml.ERROR_NOT_SUPPORTED: log; case nvml.SUCCESS: send;
  default: return fmt.Errorf(...) }\<close>
\<close>

definition query_switch :: "nvml \<Rightarrow> call \<Rightarrow> string \<Rightarrow> Metric \<Rightarrow> string \<Rightarrow> outcome" where
  "query_switch drv c skipmsg m msg =
     (if status drv c = ERROR_NOT_SUPPORTED then ([Query c, LogDebug skipmsg], None)
      else if status drv c = SUCCESS then ([Query c, Emit m], None)
      else ([Query c], Some (Errorf msg (status drv c))))"

text \<open>\<^verbatim>\<open>for i := lo; i < hi; i++ { body }\<close>, where the body may return from \<^verbatim>\<open>Update\<close>.\<close>

function for_loop :: "int \<Rightarrow> int \<Rightarrow> (int \<Rightarrow> outcome) \<Rightarrow> outcome" where
  "for_loop i hi body =
     (if i < hi then seq (body i) (for_loop (i + 1) hi body) else ([], None))"
  by pat_completeness auto
termination
  by (relation "measure (\<lambda>(i, hi, body). nat (hi - i))") auto

declare for_loop.simps [simp del]

section \<open>The poll: \<^verbatim>\<open>Update\<close>\<close>

text \<open>
  Device enumeration (the count query and the loop appending handles). The result is
  the device slice, or the error returned from inside the loop.
\<close>

function handle_loop :: "nvml \<Rightarrow> int \<Rightarrow> int \<Rightarrow> Device list \<Rightarrow> event list \<times> (error + Device list)" where
  "handle_loop drv count i devices =
     (if i < count then
        (case DeviceGetHandleByIndex drv i of (d, ret) \<Rightarrow>
           if ret \<noteq> SUCCESS
           then ([Query (Call_DeviceGetHandleByIndex i)],
                 Inl (Errorf (''unable to get device at index '' @ Itoa i @ '': '') ret))
           else (case handle_loop drv count (i + 1) (devices @ [d]) of
                   (t, r) \<Rightarrow> (Query (Call_DeviceGetHandleByIndex i) # t, r)))
      else ([], Inr devices))"
  by pat_completeness auto
termination
  by (relation "measure (\<lambda>(drv, count, i, devices). nat (count - i))") auto

declare handle_loop.simps [simp del]

definition enumerate_devices :: "nvml \<Rightarrow> event list \<times> (error + Device list)" where
  "enumerate_devices drv =
     (case DeviceGetCount drv of (count, ret) \<Rightarrow>
        if ret \<noteq> SUCCESS
        then ([Query Call_DeviceGetCount], Inl (Errorf ''unable to get device count: '' ret))
        else (case handle_loop drv count 0 [] of
                (t, r) \<Rightarrow> (Query Call_DeviceGetCount # t, r)))"

text \<open>The system-wide family, with the CUDA version string built from the packed integer.\<close>

definition cudaV :: "int \<Rightarrow> string" where
  "cudaV cudaVI = Itoa (go_quo cudaVI 1000) @ ''.'' @ Itoa (go_quo (go_rem cudaVI 1000) 10)"

definition Get_Sys_Info :: "nvml \<Rightarrow> flags \<Rightarrow> outcome" where
  "Get_Sys_Info drv fl =
     (if enableNVGPUSysInfo fl then
        run_all
          [query_or_fail drv Call_SystemGetDriverVersion
             ''unable to Get NVIDIA System Driver Version: '',
           query_or_fail drv Call_SystemGetCudaDriverVersion_v2
             ''unable to Get NVIDIA CUDA Driver Version: '',
           query_or_fail drv Call_SystemGetNVMLVersion
             ''unable to Get NVIDIA NVML Version: '',
           emit (MustNewConstMetric gpuSysInfo GaugeValue 1
             [fst (SystemGetDriverVersion drv),
              cudaV (fst (SystemGetCudaDriverVersion_v2 drv)),
              fst (SystemGetNVMLVersion drv)])]
      else ([], None))"

text \<open>The body of the loop over the devices, section by section.\<close>

definition Get_GPU_Info :: "nvml \<Rightarrow> flags \<Rightarrow> string \<Rightarrow> Device \<Rightarrow> outcome" where
  "Get_GPU_Info drv fl index d =
     (if enableNVGPUInfo fl then
        run_all
          [query_or_fail drv (Call_GetUUID d) (''unable to get GPU '' @ index @ '' UUID: ''),
           query_or_fail drv (Call_GetName d) (''unable to get GPU '' @ index @ '' NAME: ''),
           query_or_fail drv (Call_GetBusType d)
             (''unable to get GPU '' @ index @ '' BUS Type: ''),
           emit (MustNewConstMetric gpuInfo GaugeValue 1
             [index, fst (GetUUID drv d), fst (GetName drv d),
              getBusTypeString (fst (GetBusType drv d))])]
      else ([], None))"

definition fan_body :: "nvml \<Rightarrow> string \<Rightarrow> Device \<Rightarrow> int \<Rightarrow> outcome" where
  "fan_body drv index d f =
     run_all
       [query_or_fail drv (Call_GetFanSpeed_v2 d f)
          (''unable to get GPU '' @ index @ '' Fan '' @ Itoa f @ '' Speed: ''),
        emit (MustNewConstMetric gpuMinFanSpeed GaugeValue
          (fst (GetMinMaxFanSpeed drv d)) [index]),
        emit (MustNewConstMetric gpuMaxFanSpeed GaugeValue
          (fst (snd (GetMinMaxFanSpeed drv d))) [index]),
        emit (MustNewConstMetric gpuFanSpeed GaugeValue
          (fst (GetFanSpeed_v2 drv d f)) [index, Itoa f])]"

definition Get_Fan_Info :: "nvml \<Rightarrow> flags \<Rightarrow> string \<Rightarrow> Device \<Rightarrow> outcome" where
  "Get_Fan_Info drv fl index d =
     (if enableNVGPUFan fl then
        seq (query_or_fail drv (Call_GetNumFans d)
               (''unable to get GPU '' @ index @ '' Fan info: ''))
          (if fst (GetNumFans drv d) > 0 then
             seq (query_or_fail drv (Call_GetMinMaxFanSpeed d)
                    (''unable to get GPU '' @ index @ '' Fan Min/Max Speed: ''))
               (for_loop 0 (fst (GetNumFans drv d)) (fan_body drv index d))
           else debug (''GPU '' @ index @ '' has not Fan''))
      else ([], None))"

definition clock_id_body :: "nvml \<Rightarrow> string \<Rightarrow> Device \<Rightarrow> int \<Rightarrow> int \<Rightarrow> outcome" where
  "clock_id_body drv index d t tt =
     query_switch drv (Call_GetClock d (to_int32 t) (to_int32 tt))
       (''GPU '' @ index @ '' not support Clock Type '' @ getClockTypeString t
          @ '' with Clock ID '' @ getClockIDString tt)
       (MustNewConstMetric gpuClk GaugeValue
          (fst (GetClock drv d (to_int32 t) (to_int32 tt)))
          [index, getClockTypeString t, getClockIDString tt])
       (''unable to get GPU '' @ index @ '' Clock Type '' @ getClockTypeString t
          @ '' ID '' @ getClockIDString tt @ '' Info: '')"

definition clock_body :: "nvml \<Rightarrow> string \<Rightarrow> Device \<Rightarrow> int \<Rightarrow> outcome" where
  "clock_body drv index d t =
     seq (query_switch drv (Call_GetApplicationsClock d (to_int32 t))
            (''GPU '' @ index @ '' not support App Clock Type '' @ getClockTypeString t)
            (MustNewConstMetric gpuAppClk GaugeValue
               (fst (GetApplicationsClock drv d (to_int32 t)))
               [index, getClockTypeString t])
            (''unable to get GPU '' @ index @ '' Applications Clock Type ''
               @ getClockTypeString t @ '' Info: ''))
       (for_loop 0 CLOCK_ID_COUNT (clock_id_body drv index d t))"

definition Get_Clock_Info :: "nvml \<Rightarrow> string \<Rightarrow> Device \<Rightarrow> outcome" where
  "Get_Clock_Info drv index d = for_loop 0 CLOCK_COUNT (clock_body drv index d)"

definition Get_Compute_Mode :: "nvml \<Rightarrow> string \<Rightarrow> Device \<Rightarrow> outcome" where
  "Get_Compute_Mode drv index d =
     run_all
       [query_or_fail drv (Call_GetComputeMode d)
          (''unable to get GPU '' @ index @ '' Compute Mode Info: ''),
        emit (MustNewConstMetric gpuComputeMode GaugeValue 1
          [index, getComputeModeString (fst (GetComputeMode drv d))])]"

definition Get_Performance_State :: "nvml \<Rightarrow> string \<Rightarrow> Device \<Rightarrow> outcome" where
  "Get_Performance_State drv index d =
     run_all
       [query_or_fail drv (Call_GetPerformanceState d)
          (''unable to get GPU '' @ index @ '' Performance State Info: ''),
        emit (MustNewConstMetric gpuPerf GaugeValue 1
          [index, getPstatesString (fst (GetPerformanceState drv d))])]"

definition Get_Persistence_Mode :: "nvml \<Rightarrow> string \<Rightarrow> Device \<Rightarrow> outcome" where
  "Get_Persistence_Mode drv index d =
     run_all
       [query_or_fail drv (Call_GetPersistenceMode d)
          (''unable to get GPU '' @ index @ '' Persistence Mode Info: ''),
        emit (MustNewConstMetric gpuPersisMode GaugeValue 1
          [index, getPersisModeString (fst (GetPersistenceMode drv d))])]"

definition Get_GPU_Utilization :: "nvml \<Rightarrow> string \<Rightarrow> Device \<Rightarrow> outcome" where
  "Get_GPU_Utilization drv index d =
     run_all
       [query_or_fail drv (Call_GetUtilizationRates d)
          (''unable to get GPU '' @ index @ '' Utilization Info: ''),
        emit (MustNewConstMetric gpuUtil GaugeValue
          (Gpu (fst (GetUtilizationRates drv d))) [index, ''GPU'']),
        emit (MustNewConstMetric gpuUtil GaugeValue
          (Memory (fst (GetUtilizationRates drv d))) [index, ''MEMORY''])]"

definition temperature_body :: "nvml \<Rightarrow> string \<Rightarrow> Device \<Rightarrow> int \<Rightarrow> outcome" where
  "temperature_body drv index d t =
     run_all
       [query_or_fail drv (Call_GetTemperature d (to_int32 t))
          (''unable to get GPU '' @ index @ '' Temperature Sensor ''
             @ getTemperatureSensorString t @ '' Value: ''),
        emit (MustNewConstMetric gpuTemp GaugeValue
          (fst (GetTemperature drv d (to_int32 t)))
          [index, getTemperatureSensorString t])]"

definition Get_Temperature_Info :: "nvml \<Rightarrow> string \<Rightarrow> Device \<Rightarrow> outcome" where
  "Get_Temperature_Info drv index d = for_loop 0 TEMPERATURE_COUNT (temperature_body drv index d)"

definition Get_Power_Info :: "nvml \<Rightarrow> string \<Rightarrow> Device \<Rightarrow> outcome" where
  "Get_Power_Info drv index d =
     run_all
       [query_or_fail drv (Call_GetPowerUsage d)
          (''unable to get GPU '' @ index @ '' Power Usage Value: ''),
        emit (MustNewConstMetric gpuPowerUsage GaugeValue
          (fst (GetPowerUsage drv d)) [index]),
        query_switch drv (Call_GetEnforcedPowerLimit d)
          (''GPU '' @ index @ '' not support Enforced Power Limitation'')
          (MustNewConstMetric gpuPowerEnforceLimit GaugeValue
             (fst (GetEnforcedPowerLimit drv d)) [index])
          (''unable to get GPU '' @ index @ '' Power Enforced Limitation Value: '')]"

definition Get_Memory_Info :: "nvml \<Rightarrow> string \<Rightarrow> Device \<Rightarrow> outcome" where
  "Get_Memory_Info drv index d =
     run_all
       [query_or_fail drv (Call_GetMemoryInfo d)
          (''unable to get GPU '' @ index @ '' Memory Info: ''),
        emit (MustNewConstMetric gpuMemTotal GaugeValue
          (Total (fst (GetMemoryInfo drv d))) [index]),
        emit (MustNewConstMetric gpuMemFree GaugeValue
          (Free (fst (GetMemoryInfo drv d))) [index]),
        emit (MustNewConstMetric gpuMemUsed GaugeValue
          (Used (fst (GetMemoryInfo drv d))) [index])]"

definition device_body :: "nvml \<Rightarrow> flags \<Rightarrow> string \<Rightarrow> Device \<Rightarrow> outcome" where
  "device_body drv fl index d =
     run_all
       [Get_GPU_Info drv fl index d,
        Get_Fan_Info drv fl index d,
        Get_Clock_Info drv index d,
        Get_Compute_Mode drv index d,
        Get_Performance_State drv index d,
        Get_Persistence_Mode drv index d,
        Get_GPU_Utilization drv index d,
        Get_Temperature_Info drv index d,
        Get_Power_Info drv index d,
        Get_Memory_Info drv index d]"

text \<open>
  The other source file, \<^verbatim>\<open>collector/nvidia_gpu_linux.go\<close>, holds an \<^verbatim>\<open>Update\<close> with the
  same frame and a shorter loop body: device info, fans, temperature (the error text
  prints the sensor number), power usage and memory.
\<close>

definition temperature_body_linux :: "nvml \<Rightarrow> string \<Rightarrow> Device \<Rightarrow> int \<Rightarrow> outcome" where
  "temperature_body_linux drv index d t =
     run_all
       [query_or_fail drv (Call_GetTemperature d (to_int32 t))
          (''unable to get GPU '' @ index @ '' Temperature Sensor '' @ Itoa t
             @ '' Value: ''),
        emit (MustNewConstMetric gpuTemp GaugeValue
          (fst (GetTemperature drv d (to_int32 t)))
          [index, getTemperatureSensorString t])]"

definition Get_Temperature_Info_linux :: "nvml \<Rightarrow> string \<Rightarrow> Device \<Rightarrow> outcome" where
  "Get_Temperature_Info_linux drv index d =
     for_loop 0 TEMPERATURE_COUNT (temperature_body_linux drv index d)"

definition Get_Power_Usage_linux :: "nvml \<Rightarrow> string \<Rightarrow> Device \<Rightarrow> outcome" where
  "Get_Power_Usage_linux drv index d =
     run_all
       [query_or_fail drv (Call_GetPowerUsage d)
          (''unable to get GPU '' @ index @ '' Power Usage Value: ''),
        emit (MustNewConstMetric gpuPowerUsage GaugeValue
          (fst (GetPowerUsage drv d)) [index])]"

definition device_body_linux :: "nvml \<Rightarrow> flags \<Rightarrow> string \<Rightarrow> Device \<Rightarrow> outcome" where
  "device_body_linux drv fl index d =
     run_all
       [Get_GPU_Info drv fl index d,
        Get_Fan_Info drv fl index d,
        Get_Temperature_Info_linux drv index d,
        Get_Power_Usage_linux drv index d,
        Get_Memory_Info drv index d]"

text \<open>
  The frame both files share, with the loop body as a parameter.
  \<^verbatim>\<open>for indexI, d := range devices\<close>, with \<^verbatim>\<open>index := strconv.Itoa(indexI)\<close>:
\<close>

type_synonym body = "nvml \<Rightarrow> flags \<Rightarrow> string \<Rightarrow> Device \<Rightarrow> outcome"

fun range_devices :: "body \<Rightarrow> nvml \<Rightarrow> flags \<Rightarrow> int \<Rightarrow> Device list \<Rightarrow> outcome" where
  "range_devices body drv fl indexI [] = ([], None)"
| "range_devices body drv fl indexI (d # devices) =
     seq (body drv fl (Itoa indexI) d) (range_devices body drv fl (indexI + 1) devices)"

text \<open>Everything between the successful \<^verbatim>\<open>nvml.Init\<close> and the deferred function.\<close>

definition poll :: "body \<Rightarrow> nvml \<Rightarrow> flags \<Rightarrow> outcome" where
  "poll body drv fl =
     (case enumerate_devices drv of
        (t, Inl e) \<Rightarrow> (t, Some e)
      | (t, Inr devices) \<Rightarrow>
          seq (t, None) (seq (Get_Sys_Info drv fl) (range_devices body drv fl 0 devices)))"

text \<open>The deferred function: \<^verbatim>\<open>nvml.Shutdown\<close>, and a log line if it fails.\<close>

definition deferred :: "nvml \<Rightarrow> event list" where
  "deferred drv =
     Query Call_Shutdown #
       (if Shutdown drv \<noteq> SUCCESS
        then [LogError ''unable to shutdown NVML: '' (Shutdown drv)] else [])"

definition Update_with :: "body \<Rightarrow> nvml \<Rightarrow> flags \<Rightarrow> outcome" where
  "Update_with body drv fl =
     (if Init drv \<noteq> SUCCESS
      then ([Query Call_Init], Some (Errorf ''unable to initialize NVML: '' (Init drv)))
      else (case poll body drv fl of (t, r) \<Rightarrow> (Query Call_Init # t @ deferred drv, r)))"

text \<open>\<^verbatim>\<open>Update\<close> of the unnamed source file (all families).\<close>

definition Update :: "nvml \<Rightarrow> flags \<Rightarrow> outcome" where
  "Update = Update_with device_body"

text \<open>\<^verbatim>\<open>Update\<close> of \<^verbatim>\<open>collector/nvidia_gpu_linux.go\<close>.\<close>

definition Update_linux :: "nvml \<Rightarrow> flags \<Rightarrow> outcome" where
  "Update_linux = Update_with device_body_linux"

text \<open>The observations of a run, in the order they were sent.\<close>

fun observations :: "event list \<Rightarrow> Metric list" where
  "observations [] = []"
| "observations (Emit m # es) = m # observations es"
| "observations (e # es) = observations es"

fun calls :: "event list \<Rightarrow> call list" where
  "calls [] = []"
| "calls (Query c # es) = c # calls es"
| "calls (e # es) = calls es"

section \<open>Vocabulary of the properties\<close>

text \<open>
  The calls whose status \<^verbatim>\<open>Update\<close> examines with a \<^verbatim>\<open>switch\<close> that has an
  \<^verbatim>\<open>ERROR_NOT_SUPPORTED\<close> arm, and the statuses after which a poll goes on.
\<close>

fun soft :: "call \<Rightarrow> bool" where
  "soft (Call_GetApplicationsClock d t) = True"
| "soft (Call_GetClock d t tt) = True"
| "soft (Call_GetEnforcedPowerLimit d) = True"
| "soft c = False"

definition accepted :: "nvml \<Rightarrow> call \<Rightarrow> bool" where
  "accepted drv c = (status drv c = SUCCESS \<or> (soft c \<and> status drv c = ERROR_NOT_SUPPORTED))"

text \<open>
  The observation that follows a successful call of the four loops and switches that
  send one at once (all labels but the index), and how a poll reacts to the status of
  a call: what comes after the call in the trace, and the result of the poll.
\<close>

fun follow_up :: "nvml \<Rightarrow> call \<Rightarrow> Metric \<Rightarrow> bool" where
  "follow_up drv (Call_GetApplicationsClock d t) m =
     (desc m = gpuAppClk \<and> valueType m = GaugeValue \<and>
      val m = fst (GetApplicationsClock drv d t) \<and>
      tl (labelValues m) = [getClockTypeString t])"
| "follow_up drv (Call_GetClock d t tt) m =
     (desc m = gpuClk \<and> valueType m = GaugeValue \<and>
      val m = fst (GetClock drv d t tt) \<and>
      tl (labelValues m) = [getClockTypeString t, getClockIDString tt])"
| "follow_up drv (Call_GetEnforcedPowerLimit d) m =
     (desc m = gpuPowerEnforceLimit \<and> valueType m = GaugeValue \<and>
      val m = fst (GetEnforcedPowerLimit drv d) \<and> tl (labelValues m) = [])"
| "follow_up drv (Call_GetTemperature d t) m =
     (desc m = gpuTemp \<and> valueType m = GaugeValue \<and>
      val m = fst (GetTemperature drv d t) \<and>
      tl (labelValues m) = [getTemperatureSensorString t])"
| "follow_up drv c m = False"

fun emitting :: "call \<Rightarrow> bool" where
  "emitting (Call_GetApplicationsClock d t) = True"
| "emitting (Call_GetClock d t tt) = True"
| "emitting (Call_GetEnforcedPowerLimit d) = True"
| "emitting (Call_GetTemperature d t) = True"
| "emitting c = False"

definition reaction :: "nvml \<Rightarrow> bool \<Rightarrow> call \<Rightarrow> event list \<Rightarrow> error option \<Rightarrow> bool" where
  "reaction drv opn c post r =
     (if status drv c = SUCCESS then
        (emitting c \<longrightarrow> (\<exists>m rest. post = Emit m # rest \<and> follow_up drv c m))
      else if soft c \<and> status drv c = ERROR_NOT_SUPPORTED then
        (\<exists>msg rest. post = LogDebug msg # rest \<and>
           ((opn \<and> rest = [] \<and> r = None) \<or>
            (\<exists>c' rest'. rest = Query c' # rest' \<and> c' \<noteq> Call_Shutdown)))
      else post = [] \<and> (\<exists>msg. r = Some (Errorf msg (status drv c))))"

fun handled :: "nvml \<Rightarrow> bool \<Rightarrow> event list \<Rightarrow> error option \<Rightarrow> bool" where
  "handled drv opn [] r = True"
| "handled drv opn (Query c # es) r = (reaction drv opn c es r \<and> handled drv opn es r)"
| "handled drv opn (e # es) r = handled drv opn es r"

definition starts_query :: "outcome \<Rightarrow> bool" where
  "starts_query k = (\<exists>c rest. fst k = Query c # rest \<and> c \<noteq> Call_Shutdown)"

definition failure :: "error + 'a \<Rightarrow> error option" where
  "failure r = (case r of Inl e \<Rightarrow> Some e | Inr v \<Rightarrow> None)"

text \<open>The three families behind a flag, with their calls and descriptors.\<close>

datatype family = SysInfo | GpuInfo | Fan

fun enabled :: "flags \<Rightarrow> family \<Rightarrow> bool" where
  "enabled fl SysInfo = enableNVGPUSysInfo fl"
| "enabled fl GpuInfo = enableNVGPUInfo fl"
| "enabled fl Fan = enableNVGPUFan fl"

fun call_family :: "call \<Rightarrow> family option" where
  "call_family Call_SystemGetDriverVersion = Some SysInfo"
| "call_family Call_SystemGetCudaDriverVersion_v2 = Some SysInfo"
| "call_family Call_SystemGetNVMLVersion = Some SysInfo"
| "call_family (Call_GetUUID d) = Some GpuInfo"
| "call_family (Call_GetName d) = Some GpuInfo"
| "call_family (Call_GetBusType d) = Some GpuInfo"
| "call_family (Call_GetNumFans d) = Some Fan"
| "call_family (Call_GetMinMaxFanSpeed d) = Some Fan"
| "call_family (Call_GetFanSpeed_v2 d f) = Some Fan"
| "call_family c = None"

fun desc_family :: "Desc \<Rightarrow> family option" where
  "desc_family gpuSysInfo = Some SysInfo"
| "desc_family gpuInfo = Some GpuInfo"
| "desc_family gpuMinFanSpeed = Some Fan"
| "desc_family gpuMaxFanSpeed = Some Fan"
| "desc_family gpuFanSpeed = Some Fan"
| "desc_family dsc = None"

fun switched_on :: "flags \<Rightarrow> family option \<Rightarrow> bool" where
  "switched_on fl None = True"
| "switched_on fl (Some F) = enabled fl F"

fun poll_event :: "flags \<Rightarrow> event \<Rightarrow> bool" where
  "poll_event fl (Query c) =
     (c \<noteq> Call_Init \<and> c \<noteq> Call_Shutdown \<and> switched_on fl (call_family c))"
| "poll_event fl (Emit m) =
     (valueType m = GaugeValue \<and>
      length (labelValues m) = length (variableLabels (desc m)) \<and>
      switched_on fl (desc_family (desc m)) \<and>
      (desc m = gpuPersisMode \<longrightarrow>
         labelValues m ! 1 = ''ON'' \<or> labelValues m ! 1 = ''OFF''))"
| "poll_event fl (LogDebug msg) = True"
| "poll_event fl (LogError msg r) = False"

fun device_event :: "string \<Rightarrow> event \<Rightarrow> bool" where
  "device_event index (Emit m) =
     (desc m \<noteq> gpuSysInfo \<and> labelValues m \<noteq> [] \<and> hd (labelValues m) = index)"
| "device_event index e = True"

text \<open>Two libraries answer a call alike.\<close>

fun same_answer :: "nvml \<Rightarrow> nvml \<Rightarrow> call \<Rightarrow> bool" where
  "same_answer a b Call_Init = (Init a = Init b)"
| "same_answer a b Call_Shutdown = (Shutdown a = Shutdown b)"
| "same_answer a b Call_DeviceGetCount = (DeviceGetCount a = DeviceGetCount b)"
| "same_answer a b (Call_DeviceGetHandleByIndex i) =
     (DeviceGetHandleByIndex a i = DeviceGetHandleByIndex b i)"
| "same_answer a b Call_SystemGetDriverVersion =
     (SystemGetDriverVersion a = SystemGetDriverVersion b)"
| "same_answer a b Call_SystemGetCudaDriverVersion_v2 =
     (SystemGetCudaDriverVersion_v2 a = SystemGetCudaDriverVersion_v2 b)"
| "same_answer a b Call_SystemGetNVMLVersion = (SystemGetNVMLVersion a = SystemGetNVMLVersion b)"
| "same_answer a b (Call_GetUUID d) = (GetUUID a d = GetUUID b d)"
| "same_answer a b (Call_GetName d) = (GetName a d = GetName b d)"
| "same_answer a b (Call_GetBusType d) = (GetBusType a d = GetBusType b d)"
| "same_answer a b (Call_GetNumFans d) = (GetNumFans a d = GetNumFans b d)"
| "same_answer a b (Call_GetMinMaxFanSpeed d) = (GetMinMaxFanSpeed a d = GetMinMaxFanSpeed b d)"
| "same_answer a b (Call_GetFanSpeed_v2 d f) = (GetFanSpeed_v2 a d f = GetFanSpeed_v2 b d f)"
| "same_answer a b (Call_GetApplicationsClock d t) =
     (GetApplicationsClock a d t = GetApplicationsClock b d t)"
| "same_answer a b (Call_GetClock d t tt) = (GetClock a d t tt = GetClock b d t tt)"
| "same_answer a b (Call_GetComputeMode d) = (GetComputeMode a d = GetComputeMode b d)"
| "same_answer a b (Call_GetPerformanceState d) =
     (GetPerformanceState a d = GetPerformanceState b d)"
| "same_answer a b (Call_GetPersistenceMode d) =
     (GetPersistenceMode a d = GetPersistenceMode b d)"
| "same_answer a b (Call_GetUtilizationRates d) =
     (GetUtilizationRates a d = GetUtilizationRates b d)"
| "same_answer a b (Call_GetTemperature d t) = (GetTemperature a d t = GetTemperature b d t)"
| "same_answer a b (Call_GetPowerUsage d) = (GetPowerUsage a d = GetPowerUsage b d)"
| "same_answer a b (Call_GetEnforcedPowerLimit d) =
     (GetEnforcedPowerLimit a d = GetEnforcedPowerLimit b d)"
| "same_answer a b (Call_GetMemoryInfo d) = (GetMemoryInfo a d = GetMemoryInfo b d)"

fun agree_event :: "nvml \<Rightarrow> nvml \<Rightarrow> event \<Rightarrow> bool" where
  "agree_event a b (Query c) = same_answer a b c"
| "agree_event a b e = True"

text \<open>
  The successful temperature calls of a trace, and what every part of a poll keeps: as
  many temperature observations as successful temperature calls, and an error only
  as the error of its last call, which was not accepted.
\<close>

fun good_temperature_call :: "nvml \<Rightarrow> call \<Rightarrow> bool" where
  "good_temperature_call drv (Call_GetTemperature d t) =
     (status drv (Call_GetTemperature d t) = SUCCESS)"
| "good_temperature_call drv c = False"

definition tidy :: "nvml \<Rightarrow> outcome \<Rightarrow> bool" where
  "tidy drv p =
     (length (filter (\<lambda>m. desc m = gpuTemp) (observations (fst p))) =
        length (filter (good_temperature_call drv) (calls (fst p))) \<and>
      (snd p \<noteq> None \<longrightarrow> fst p \<noteq> [] \<and>
         (\<exists>c msg. last (fst p) = Query c \<and> snd p = Some (Errorf msg (status drv c)) \<and>
            \<not> accepted drv c)))"

text \<open>
  A library for concrete runs: one device with two fans, every call succeeding. The
  flag settings with every family off and on.
\<close>

definition fake :: nvml where
  "fake =
     \<lparr>Init = SUCCESS, Shutdown = SUCCESS, DeviceGetCount = (1, SUCCESS),
      DeviceGetHandleByIndex = (\<lambda>i. (Handle (nat i), SUCCESS)),
      SystemGetDriverVersion = (''535.54.03'', SUCCESS),
      SystemGetCudaDriverVersion_v2 = (12020, SUCCESS),
      SystemGetNVMLVersion = (''12.535.54.03'', SUCCESS),
      GetUUID = (\<lambda>d. (''GPU-0'', SUCCESS)),
      GetName = (\<lambda>d. (''A100'', SUCCESS)),
      GetBusType = (\<lambda>d. (BUS_TYPE_PCIE, SUCCESS)),
      GetNumFans = (\<lambda>d. (2, SUCCESS)),
      GetMinMaxFanSpeed = (\<lambda>d. (30, 100, SUCCESS)),
      GetFanSpeed_v2 = (\<lambda>d f. (40 + f, SUCCESS)),
      GetApplicationsClock = (\<lambda>d t. (1410, SUCCESS)),
      GetClock = (\<lambda>d t tt. (1200, SUCCESS)),
      GetComputeMode = (\<lambda>d. (COMPUTEMODE_DEFAULT, SUCCESS)),
      GetPerformanceState = (\<lambda>d. (8, SUCCESS)),
      GetPersistenceMode = (\<lambda>d. (FEATURE_ENABLED, SUCCESS)),
      GetUtilizationRates = (\<lambda>d. (\<lparr>Gpu = 42, Memory = 17\<rparr>, SUCCESS)),
      GetTemperature = (\<lambda>d t. (55, SUCCESS)),
      GetPowerUsage = (\<lambda>d. (70000, SUCCESS)),
      GetEnforcedPowerLimit = (\<lambda>d. (250000, SUCCESS)),
      GetMemoryInfo = (\<lambda>d. (\<lparr>Total = 1000, Free = 400, Used = 600\<rparr>, SUCCESS))\<rparr>"

definition all_off :: flags where
  "all_off = \<lparr>enableNVGPUSysInfo = False, enableNVGPUInfo = False, enableNVGPUFan = False\<rparr>"

definition all_on :: flags where
  "all_on = \<lparr>enableNVGPUSysInfo = True, enableNVGPUInfo = True, enableNVGPUFan = True\<rparr>"

text \<open>The codes asked for are codes the binding names.\<close>

fun defined_code :: "event \<Rightarrow> bool" where
  "defined_code (Query (Call_GetApplicationsClock d t)) = (t \<in> known_ClockType)"
| "defined_code (Query (Call_GetClock d t tt)) = (t \<in> known_ClockType \<and> tt \<in> known_ClockId)"
| "defined_code (Query (Call_GetTemperature d t)) = (t \<in> known_TemperatureSensors)"
| "defined_code e = True"

section \<open>Properties\<close>

lemmas nvml_consts =
  SUCCESS_def ERROR_NOT_SUPPORTED_def
  BUS_TYPE_UNKNOWN_def BUS_TYPE_PCI_def BUS_TYPE_PCIE_def BUS_TYPE_FPCI_def BUS_TYPE_AGP_def
  CLOCK_GRAPHICS_def CLOCK_SM_def CLOCK_MEM_def CLOCK_VIDEO_def CLOCK_COUNT_def
  CLOCK_ID_CURRENT_def CLOCK_ID_APP_CLOCK_TARGET_def CLOCK_ID_APP_CLOCK_DEFAULT_def
  CLOCK_ID_CUSTOMER_BOOST_MAX_def CLOCK_ID_COUNT_def
  COMPUTEMODE_DEFAULT_def COMPUTEMODE_EXCLUSIVE_THREAD_def COMPUTEMODE_PROHIBITED_def
  COMPUTEMODE_EXCLUSIVE_PROCESS_def PSTATE_UNKNOWN_def FEATURE_DISABLED_def
  FEATURE_ENABLED_def TEMPERATURE_GPU_def TEMPERATURE_COUNT_def


subsection \<open>Integer helpers\<close>

lemma to_int32_id: "- (2 ^ 31) \<le> x \<Longrightarrow> x < 2 ^ 31 \<Longrightarrow> to_int32 x = x"
  by (simp add: to_int32_def)

lemma go_quo_sdiv: "go_quo x y = x sdiv y"
  by (auto simp: go_quo_def signed_divide_int_def sgn_if)

lemma go_rem_smod: "go_rem x y = x smod y"
  unfolding go_quo_sdiv go_rem_def
  by (metis minus_mult_sdiv_eq_smod)

lemma go_quo_nonneg: "0 \<le> x \<Longrightarrow> 0 < y \<Longrightarrow> go_quo x y = x div y"
  by (simp add: go_quo_def)

lemma go_rem_nonneg: "0 \<le> x \<Longrightarrow> 0 < y \<Longrightarrow> go_rem x y = x mod y"
  by (simp add: go_rem_def go_quo_nonneg minus_mult_div_eq_mod)

subsection \<open>The label functions on unlisted codes\<close>

text \<open>
  Claim C1 says that every label function returns \<open>''UNKNOWN''\<close> on every code outside
  its enumeration. Two of the seven functions do not: code 16 is no performance state
  of the binding and is labelled \<open>''P16''\<close>, and code 2 is no enable state and is
  labelled \<open>''ON''\<close>.
\<close>

theorem label_functions_unknown_counterexample:
  "16 \<notin> known_Pstates \<and> getPstatesString 16 \<noteq> ''UNKNOWN'' \<and>
   2 \<notin> known_EnableState \<and> getPersisModeString 2 \<noteq> ''UNKNOWN''"
  by (simp add: known_Pstates_def known_EnableState_def getPstatesString_def
      getPersisModeString_def to_int32_def nvml_consts)

text \<open>
  Claim C1 as amended. The bus type, clock type, clock id, compute mode and temperature
  sensor functions return \<open>''UNKNOWN''\<close> on every code outside their enumeration. The
  performance-state function returns \<open>''UNKNOWN''\<close> exactly when the code, converted to
  \<^verbatim>\<open>nvml.Pstates\<close>, is \<^verbatim>\<open>PSTATE_UNKNOWN\<close>, and the letter P followed by the decimal
  code otherwise; the persistence-mode function never returns \<open>''UNKNOWN''\<close>. All seven
  are total functions.
\<close>

theorem label_functions_unknown:
  "(busT \<notin> known_BusType \<longrightarrow> getBusTypeString busT = ''UNKNOWN'') \<and>
   (typeN \<notin> known_ClockType \<longrightarrow> getClockTypeString typeN = ''UNKNOWN'') \<and>
   (idN \<notin> known_ClockId \<longrightarrow> getClockIDString idN = ''UNKNOWN'') \<and>
   (modeN \<notin> known_ComputeMode \<longrightarrow> getComputeModeString modeN = ''UNKNOWN'') \<and>
   (tempN \<notin> known_TemperatureSensors \<longrightarrow> getTemperatureSensorString tempN = ''UNKNOWN'') \<and>
   (getPstatesString stateN = ''UNKNOWN'' \<longleftrightarrow> to_int32 stateN = PSTATE_UNKNOWN) \<and>
   (to_int32 stateN \<noteq> PSTATE_UNKNOWN \<longrightarrow> getPstatesString stateN = ''P'' @ Itoa stateN) \<and>
   getPersisModeString enableN \<noteq> ''UNKNOWN''"
  by (auto simp: known_BusType_def known_ClockType_def known_ClockId_def known_ComputeMode_def
      known_TemperatureSensors_def getBusTypeString_def getClockTypeString_def
      getClockIDString_def getComputeModeString_def getTemperatureSensorString_def
      getPstatesString_def getPersisModeString_def)

theorem label_functions_unknown_witness:
  "7 \<notin> known_BusType \<and> getBusTypeString 7 = ''UNKNOWN'' \<and>
   4 \<notin> known_ClockType \<and> getClockTypeString 4 = ''UNKNOWN'' \<and>
   (- 1) \<notin> known_ClockId \<and> getClockIDString (- 1) = ''UNKNOWN'' \<and>
   9 \<notin> known_ComputeMode \<and> getComputeModeString 9 = ''UNKNOWN'' \<and>
   1 \<notin> known_TemperatureSensors \<and> getTemperatureSensorString 1 = ''UNKNOWN'' \<and>
   to_int32 16 \<noteq> PSTATE_UNKNOWN \<and> getPstatesString 16 = ''P16''"
  using label_functions_unknown [of 7 4 "- 1" 9 1 16]
  by (simp add: known_BusType_def known_ClockType_def known_ClockId_def known_ComputeMode_def
      known_TemperatureSensors_def to_int32_def nvml_consts Itoa_def decimal.simps digit_def)

subsection \<open>Sequencing and loops\<close>

lemma seq_None: "snd p = None \<Longrightarrow> seq p k = (fst p @ fst k, snd k)"
  by (simp add: seq_def)

lemma seq_Some: "snd p = Some e \<Longrightarrow> seq p k = p"
  by (cases p) (simp add: seq_def)

lemma seq_skip [simp]: "seq ([], None) k = k" "seq p ([], None) = p"
  by (cases p; cases "snd p"; simp add: seq_def)+

lemma snd_seq_None: "snd (seq p k) = None \<longleftrightarrow> snd p = None \<and> snd k = None"
  by (auto simp: seq_def split: option.splits)

lemma set_fst_seq: "set (fst (seq p k)) \<subseteq> set (fst p) \<union> set (fst k)"
  by (auto simp: seq_def split: option.splits)

lemma reaction_closed_open: "reaction drv False c post r \<Longrightarrow> reaction drv opn c post r"
  by (auto simp: reaction_def split: if_splits)

lemma handled_closed_open: "handled drv False t r \<Longrightarrow> handled drv opn t r"
  by (induction drv opn t r rule: handled.induct) (auto intro: reaction_closed_open)

lemma reaction_failed: "reaction drv True c post (Some e) \<Longrightarrow> reaction drv opn c post (Some e)"
  by (auto simp: reaction_def split: if_splits)

lemma handled_failed: "handled drv True t (Some e) \<Longrightarrow> handled drv opn t (Some e)"
  by (induction drv True t "Some e" rule: handled.induct) (auto intro: reaction_failed)

lemma reaction_extend:
  assumes "reaction drv True c post None"
    and "starts_query k \<or> (opn \<and> k = ([], None))"
  shows "reaction drv opn c (post @ fst k) (snd k)"
  using assms by (auto simp: reaction_def starts_query_def split: if_splits)

lemma handled_append:
  assumes "handled drv True t None" and "handled drv opn (fst k) (snd k)"
    and "starts_query k \<or> (opn \<and> k = ([], None))"
  shows "handled drv opn (t @ fst k) (snd k)"
  using assms
proof (induction drv True t "None :: error option" rule: handled.induct)
  case (2 drv c es)
  then show ?case using reaction_extend [of drv c es k opn] by simp
qed simp_all

lemma handled_seq:
  assumes "handled drv True (fst p) (snd p)" and "handled drv opn (fst k) (snd k)"
    and "starts_query k \<or> (opn \<and> k = ([], None))"
  shows "handled drv opn (fst (seq p k)) (snd (seq p k))"
proof (cases "snd p")
  case None
  then show ?thesis using assms by (simp add: seq_None handled_append)
next
  case (Some e)
  then show ?thesis using assms by (simp add: seq_Some handled_failed)
qed

lemma reaction_extend_closed:
  assumes "reaction drv False c post None"
  shows "reaction drv opn c (post @ t) r"
  using assms by (auto simp: reaction_def split: if_splits)

lemma handled_append_closed:
  assumes "handled drv False t None" and "handled drv opn t' r"
  shows "handled drv opn (t @ t') r"
  using assms
proof (induction drv False t "None :: error option" rule: handled.induct)
  case (2 drv c es)
  then show ?case using reaction_extend_closed [of drv c es opn t' r] by simp
qed simp_all

lemma handled_seq_closed:
  assumes "handled drv False (fst p) (snd p)" and "handled drv opn (fst k) (snd k)"
  shows "handled drv opn (fst (seq p k)) (snd (seq p k))"
proof (cases "snd p")
  case None
  then show ?thesis using assms by (simp add: seq_None handled_append_closed)
next
  case (Some e)
  then show ?thesis using assms by (simp add: seq_Some handled_closed_open)
qed

lemma handled_occurrence:
  "handled drv opn t r \<Longrightarrow> t = pre @ Query c # post \<Longrightarrow> reaction drv opn c post r"
proof (induction pre arbitrary: t)
  case Nil
  then show ?case by simp
next
  case (Cons e pre)
  then show ?case by (cases e) auto
qed

lemmas stmt_defs = seq_def query_or_fail_def query_switch_def emit_def debug_def
  MustNewConstMetric_def

lemma codes_distinct [simp]: "ERROR_NOT_SUPPORTED \<noteq> SUCCESS" "SUCCESS \<noteq> ERROR_NOT_SUPPORTED"
  by (simp_all add: nvml_consts)

lemma to_int32_small: "0 \<le> t \<Longrightarrow> t < 4 \<Longrightarrow> to_int32 t = t"
  by (simp add: to_int32_def)

lemma for_loop_done: "\<not> i < hi \<Longrightarrow> for_loop i hi body = ([], None)"
  by (simp add: for_loop.simps)

lemma for_loop_step: "i < hi \<Longrightarrow> for_loop i hi body = seq (body i) (for_loop (i + 1) hi body)"
  by (subst for_loop.simps) simp

lemma starts_query_seq: "starts_query p \<Longrightarrow> starts_query (seq p k)"
  by (auto simp: starts_query_def seq_def split: option.splits)

lemma for_loop_starts:
  assumes "\<And>i. lo \<le> i \<Longrightarrow> i < hi \<Longrightarrow> starts_query (body i)"
  shows "starts_query (for_loop lo hi body) \<or> for_loop lo hi body = ([], None)"
proof (cases "lo < hi")
  case True
  then show ?thesis using assms [of lo] by (simp add: for_loop_step starts_query_seq)
next
  case False
  then show ?thesis by (simp add: for_loop_done)
qed

lemma handled_for_loop_closed:
  assumes "\<And>i. lo \<le> i \<Longrightarrow> i < hi \<Longrightarrow> handled drv False (fst (body i)) (snd (body i))"
  shows "handled drv False (fst (for_loop lo hi body)) (snd (for_loop lo hi body))"
  using assms
proof (induction lo hi body rule: for_loop.induct)
  case (1 i hi body)
  show ?case
  proof (cases "i < hi")
    case True
    have "handled drv False (fst (for_loop (i + 1) hi body)) (snd (for_loop (i + 1) hi body))"
      using True 1 by simp
    with True 1(2) [of i] show ?thesis
      by (simp add: for_loop_step handled_seq_closed)
  next
    case False
    then show ?thesis by (simp add: for_loop_done)
  qed
qed

lemma handled_for_loop_open:
  assumes "\<And>i. lo \<le> i \<Longrightarrow> i < hi \<Longrightarrow> handled drv True (fst (body i)) (snd (body i))"
    and "\<And>i. lo \<le> i \<Longrightarrow> i < hi \<Longrightarrow> starts_query (body i)"
  shows "handled drv True (fst (for_loop lo hi body)) (snd (for_loop lo hi body))"
  using assms
proof (induction lo hi body rule: for_loop.induct)
  case (1 i hi body)
  show ?case
  proof (cases "i < hi")
    case True
    have ih: "handled drv True (fst (for_loop (i + 1) hi body)) (snd (for_loop (i + 1) hi body))"
      using True 1 by simp
    have "starts_query (for_loop (i + 1) hi body) \<or> for_loop (i + 1) hi body = ([], None)"
      using 1(3) by (intro for_loop_starts) simp
    with True 1(2) [of i] ih show ?thesis
      by (simp add: for_loop_step handled_seq)
  next
    case False
    then show ?thesis by (simp add: for_loop_done)
  qed
qed

lemma handled_Get_Sys_Info:
  "handled drv False (fst (Get_Sys_Info drv fl)) (snd (Get_Sys_Info drv fl))"
  by (simp add: Get_Sys_Info_def stmt_defs reaction_def)

lemma handled_Get_GPU_Info:
  "handled drv False (fst (Get_GPU_Info drv fl index d)) (snd (Get_GPU_Info drv fl index d))"
  by (simp add: Get_GPU_Info_def stmt_defs reaction_def)

lemma handled_Get_Fan_Info:
  "handled drv False (fst (Get_Fan_Info drv fl index d)) (snd (Get_Fan_Info drv fl index d))"
proof -
  have loop: "handled drv False (fst (for_loop 0 n (fan_body drv index d)))
      (snd (for_loop 0 n (fan_body drv index d)))" for n
    by (rule handled_for_loop_closed) (simp add: fan_body_def stmt_defs reaction_def)
  have q: "handled drv False (fst (query_or_fail drv (Call_GetNumFans d) m))
      (snd (query_or_fail drv (Call_GetNumFans d) m))"
    "handled drv False (fst (query_or_fail drv (Call_GetMinMaxFanSpeed d) m))
      (snd (query_or_fail drv (Call_GetMinMaxFanSpeed d) m))" for m
    by (simp_all add: stmt_defs reaction_def)
  show ?thesis
    unfolding Get_Fan_Info_def
    by (auto intro!: handled_seq_closed q loop simp: debug_def)
qed

lemma handled_clock_id_body:
  assumes "0 \<le> t" "t < 4" "0 \<le> tt" "tt < 4"
  shows "handled drv True (fst (clock_id_body drv index d t tt)) (snd (clock_id_body drv index d t tt))"
    and "starts_query (clock_id_body drv index d t tt)"
  using assms
  by (simp_all add: clock_id_body_def stmt_defs reaction_def to_int32_small starts_query_def)

lemma handled_clock_body:
  assumes "0 \<le> t" "t < 4"
  shows "handled drv True (fst (clock_body drv index d t)) (snd (clock_body drv index d t))"
    and "starts_query (clock_body drv index d t)"
proof -
  let ?q = "query_switch drv (Call_GetApplicationsClock d (to_int32 t))
            (''GPU '' @ index @ '' not support App Clock Type '' @ getClockTypeString t)
            (MustNewConstMetric gpuAppClk GaugeValue
               (fst (GetApplicationsClock drv d (to_int32 t)))
               [index, getClockTypeString t])
            (''unable to get GPU '' @ index @ '' Applications Clock Type ''
               @ getClockTypeString t @ '' Info: '')"
  let ?l = "for_loop 0 CLOCK_ID_COUNT (clock_id_body drv index d t)"
  have q: "handled drv True (fst ?q) (snd ?q)" "starts_query ?q"
    using assms by (simp_all add: stmt_defs reaction_def to_int32_small starts_query_def)
  have l: "handled drv True (fst ?l) (snd ?l)"
    using assms by (intro handled_for_loop_open handled_clock_id_body) (simp_all add: CLOCK_ID_COUNT_def)
  have s: "starts_query ?l"
    using handled_clock_id_body(2) [OF assms, of 0 drv index d]
    by (simp add: for_loop_step CLOCK_ID_COUNT_def starts_query_seq)
  show "handled drv True (fst (clock_body drv index d t)) (snd (clock_body drv index d t))"
    unfolding clock_body_def using q l s by (intro handled_seq) simp_all
  show "starts_query (clock_body drv index d t)"
    unfolding clock_body_def using q by (intro starts_query_seq)
qed

lemma handled_Get_Clock_Info:
  "handled drv True (fst (Get_Clock_Info drv index d)) (snd (Get_Clock_Info drv index d))"
  unfolding Get_Clock_Info_def
  by (intro handled_for_loop_open handled_clock_body) (simp_all add: CLOCK_COUNT_def)

lemma handled_Get_Temperature_Info:
  "handled drv False (fst (Get_Temperature_Info drv index d)) (snd (Get_Temperature_Info drv index d))"
  unfolding Get_Temperature_Info_def
  by (rule handled_for_loop_closed)
    (simp add: temperature_body_def stmt_defs reaction_def TEMPERATURE_COUNT_def to_int32_small)

lemma handled_Get_Temperature_Info_linux:
  "handled drv False (fst (Get_Temperature_Info_linux drv index d))
     (snd (Get_Temperature_Info_linux drv index d))"
  unfolding Get_Temperature_Info_linux_def
  by (rule handled_for_loop_closed)
    (simp add: temperature_body_linux_def stmt_defs reaction_def TEMPERATURE_COUNT_def to_int32_small)

lemma handled_simple_sections:
  "handled drv False (fst (Get_Compute_Mode drv index d)) (snd (Get_Compute_Mode drv index d))"
  "handled drv False (fst (Get_Performance_State drv index d)) (snd (Get_Performance_State drv index d))"
  "handled drv False (fst (Get_Persistence_Mode drv index d)) (snd (Get_Persistence_Mode drv index d))"
  "handled drv False (fst (Get_GPU_Utilization drv index d)) (snd (Get_GPU_Utilization drv index d))"
  "handled drv False (fst (Get_Memory_Info drv index d)) (snd (Get_Memory_Info drv index d))"
  "handled drv False (fst (Get_Power_Usage_linux drv index d)) (snd (Get_Power_Usage_linux drv index d))"
  "handled drv True (fst (Get_Power_Info drv index d)) (snd (Get_Power_Info drv index d))"
  by (simp_all add: Get_Compute_Mode_def Get_Performance_State_def Get_Persistence_Mode_def
      Get_GPU_Utilization_def Get_Memory_Info_def Get_Power_Usage_linux_def Get_Power_Info_def
      stmt_defs reaction_def)

lemma starts_simple_sections:
  "starts_query (Get_Compute_Mode drv index d)"
  "starts_query (Get_Memory_Info drv index d)"
  by (simp_all add: Get_Compute_Mode_def Get_Memory_Info_def stmt_defs starts_query_def)

lemma handled_run_all_Nil: "handled drv opn (fst (run_all [])) (snd (run_all []))"
  by simp

lemma handled_run_all_closed:
  assumes "handled drv False (fst p) (snd p)"
    and "handled drv opn (fst (run_all ps)) (snd (run_all ps))"
  shows "handled drv opn (fst (run_all (p # ps))) (snd (run_all (p # ps)))"
  using assms by (simp add: handled_seq_closed)

lemma handled_run_all_open:
  assumes "handled drv True (fst p) (snd p)"
    and "handled drv opn (fst (run_all ps)) (snd (run_all ps))"
    and "starts_query (run_all ps)"
  shows "handled drv opn (fst (run_all (p # ps))) (snd (run_all (p # ps)))"
  using assms by (simp add: handled_seq)

lemma starts_query_run_all: "starts_query p \<Longrightarrow> starts_query (run_all (p # ps))"
  by (simp add: starts_query_seq)

lemma handled_device_body:
  "handled drv False (fst (device_body drv fl index d)) (snd (device_body drv fl index d))"
  unfolding device_body_def
  by (intro handled_run_all_closed handled_Get_GPU_Info handled_Get_Fan_Info
      handled_run_all_open [OF handled_Get_Clock_Info]
      handled_run_all_open [OF handled_simple_sections(7)]
      handled_simple_sections(1-6) handled_Get_Temperature_Info
      handled_run_all_Nil starts_query_run_all starts_simple_sections)

lemma handled_device_body_linux:
  "handled drv False (fst (device_body_linux drv fl index d))
     (snd (device_body_linux drv fl index d))"
  unfolding device_body_linux_def
  by (intro handled_run_all_closed handled_Get_GPU_Info handled_Get_Fan_Info
      handled_simple_sections(1-6) handled_Get_Temperature_Info_linux
      handled_run_all_Nil)

lemma handled_range_devices:
  assumes "\<And>index d. handled drv False (fst (body drv fl index d)) (snd (body drv fl index d))"
  shows "handled drv False (fst (range_devices body drv fl i ds))
     (snd (range_devices body drv fl i ds))"
  by (induction ds arbitrary: i) (simp_all add: handled_seq_closed assms)

lemma fst_seq_cases:
  "fst (seq p k) = (if snd p = None then fst p @ fst k else fst p)"
  and snd_seq_cases: "snd (seq p k) = (if snd p = None then snd k else snd p)"
  by (auto simp: seq_def split: option.splits)

lemma events_seq:
  "list_all P (fst p) \<Longrightarrow> list_all P (fst k) \<Longrightarrow> list_all P (fst (seq p k))"
  by (simp add: fst_seq_cases)

lemma events_run_all_Cons:
  "list_all P (fst p) \<Longrightarrow> list_all P (fst (run_all ps)) \<Longrightarrow> list_all P (fst (run_all (p # ps)))"
  by (simp add: events_seq)

lemma events_run_all_Nil: "list_all P (fst (run_all []))"
  by simp

lemma events_for_loop:
  assumes "\<And>i. lo \<le> i \<Longrightarrow> i < hi \<Longrightarrow> list_all P (fst (body i))"
  shows "list_all P (fst (for_loop lo hi body))"
  using assms
proof (induction lo hi body rule: for_loop.induct)
  case (1 i hi body)
  show ?case
  proof (cases "i < hi")
    case True
    have "list_all P (fst (for_loop (i + 1) hi body))"
      by (rule "1.IH" [OF True]) (rule "1.prems", simp_all)
    moreover have "list_all P (fst (body i))"
      using True by (intro "1.prems") simp_all
    ultimately show ?thesis
      unfolding for_loop_step [OF True] by (intro events_seq)
  next
    case False
    then show ?thesis by (simp add: for_loop_done)
  qed
qed

lemma events_range_devices:
  assumes "\<And>i d. list_all P (fst (body drv fl (Itoa i) d))"
  shows "list_all P (fst (range_devices body drv fl i ds))"
  by (induction ds arbitrary: i) (simp_all add: events_seq assms)

subsection \<open>Device enumeration\<close>

lemma handle_loop_done: "\<not> i < count \<Longrightarrow> handle_loop drv count i devices = ([], Inr devices)"
  by (simp add: handle_loop.simps)

lemma handle_loop_fail:
  assumes "i < count" "snd (DeviceGetHandleByIndex drv i) \<noteq> SUCCESS"
  shows "handle_loop drv count i devices =
     ([Query (Call_DeviceGetHandleByIndex i)],
      Inl (Errorf (''unable to get device at index '' @ Itoa i @ '': '')
        (snd (DeviceGetHandleByIndex drv i))))"
proof (cases "DeviceGetHandleByIndex drv i")
  case (Pair d ret)
  then show ?thesis using assms by (subst handle_loop.simps) simp
qed

lemma handle_loop_step:
  assumes "i < count" "snd (DeviceGetHandleByIndex drv i) = SUCCESS"
  shows "handle_loop drv count i devices =
     (Query (Call_DeviceGetHandleByIndex i) #
        fst (handle_loop drv count (i + 1) (devices @ [fst (DeviceGetHandleByIndex drv i)])),
      snd (handle_loop drv count (i + 1) (devices @ [fst (DeviceGetHandleByIndex drv i)])))"
proof (cases "DeviceGetHandleByIndex drv i")
  case (Pair d ret)
  then show ?thesis using assms by (subst handle_loop.simps) (simp split: prod.splits)
qed

lemma handle_loop_cases:
  obtains (stop) "\<not> i < count"
  | (fail) "i < count" "snd (DeviceGetHandleByIndex drv i) \<noteq> SUCCESS"
  | (step) "i < count" "snd (DeviceGetHandleByIndex drv i) = SUCCESS"
  by blast

lemma handled_handle_loop:
  "handled drv False (fst (handle_loop drv count i devices))
     (failure (snd (handle_loop drv count i devices)))"
proof (induction drv count i devices rule: handle_loop.induct)
  case (1 drv count i devices)
  show ?case
  proof (cases rule: handle_loop_cases [where i=i and count=count and drv=drv])
    case stop
    then show ?thesis by (simp add: handle_loop_done)
  next
    case fail
    then show ?thesis by (simp add: handle_loop_fail failure_def reaction_def)
  next
    case step
    have "handled drv False
        (fst (handle_loop drv count (i + 1) (devices @ [fst (DeviceGetHandleByIndex drv i)])))
        (failure (snd (handle_loop drv count (i + 1)
           (devices @ [fst (DeviceGetHandleByIndex drv i)]))))"
      using step "1.IH" by (cases "DeviceGetHandleByIndex drv i") simp
    then show ?thesis using step
      by (simp add: handle_loop_step reaction_def)
  qed
qed

lemma events_handle_loop:
  assumes "\<And>j. P (Query (Call_DeviceGetHandleByIndex j))"
  shows "list_all P (fst (handle_loop drv count i devices))"
proof (induction drv count i devices rule: handle_loop.induct)
  case (1 drv count i devices)
  show ?case
  proof (cases rule: handle_loop_cases [where i=i and count=count and drv=drv])
    case stop
    then show ?thesis by (simp add: handle_loop_done)
  next
    case fail
    then show ?thesis by (simp add: handle_loop_fail assms)
  next
    case step
    have "list_all P
        (fst (handle_loop drv count (i + 1) (devices @ [fst (DeviceGetHandleByIndex drv i)])))"
      using step "1.IH" by (cases "DeviceGetHandleByIndex drv i") simp
    then show ?thesis using step
      by (simp add: handle_loop_step assms)
  qed
qed

text \<open>On success the loop returns the handles of the indices \<open>i\<close> up to \<open>count - 1\<close>, in order.\<close>

lemma handle_loop_success:
  assumes "\<And>j. i \<le> j \<Longrightarrow> j < count \<Longrightarrow> snd (DeviceGetHandleByIndex drv j) = SUCCESS"
  shows "handle_loop drv count i devices =
     (map (\<lambda>j. Query (Call_DeviceGetHandleByIndex j)) [i..count - 1],
      Inr (devices @ map (\<lambda>j. fst (DeviceGetHandleByIndex drv j)) [i..count - 1]))"
  using assms
proof (induction drv count i devices rule: handle_loop.induct)
  case (1 drv count i devices)
  show ?case
  proof (cases "i < count")
    case True
    have ok: "snd (DeviceGetHandleByIndex drv i) = SUCCESS"
      using True "1.prems" by simp
    have ih: "handle_loop drv count (i + 1) (devices @ [fst (DeviceGetHandleByIndex drv i)]) =
       (map (\<lambda>j. Query (Call_DeviceGetHandleByIndex j)) [i + 1..count - 1],
        Inr ((devices @ [fst (DeviceGetHandleByIndex drv i)]) @
          map (\<lambda>j. fst (DeviceGetHandleByIndex drv j)) [i + 1..count - 1]))"
      using True ok "1.IH" "1.prems" by (cases "DeviceGetHandleByIndex drv i") simp
    have "[i..count - 1] = i # [i + 1..count - 1]"
      using True by (simp add: upto_rec1) 
    then show ?thesis using True ok
      by (simp add: handle_loop_step ih)
  next
    case False
    then show ?thesis by (simp add: handle_loop_done)
  qed
qed

subsection \<open>The shape of the events of a poll\<close>

lemma persis_label: "getPersisModeString x = ''ON'' \<or> getPersisModeString x = ''OFF''"
  by (simp add: getPersisModeString_def)

lemma poll_event_Get_Sys_Info: "list_all (poll_event fl) (fst (Get_Sys_Info drv fl))"
  by (simp add: Get_Sys_Info_def stmt_defs)

lemma poll_event_Get_GPU_Info: "list_all (poll_event fl) (fst (Get_GPU_Info drv fl index d))"
  by (simp add: Get_GPU_Info_def stmt_defs)

lemma poll_event_Get_Fan_Info: "list_all (poll_event fl) (fst (Get_Fan_Info drv fl index d))"
proof (cases "enableNVGPUFan fl")
  case True
  have "list_all (poll_event fl) (fst (for_loop 0 n (fan_body drv index d)))" for n
    using True by (intro events_for_loop) (simp add: fan_body_def stmt_defs)
  then show ?thesis
    using True by (simp add: Get_Fan_Info_def fst_seq_cases query_or_fail_def debug_def)
next
  case False
  then show ?thesis by (simp add: Get_Fan_Info_def)
qed

lemma poll_event_Get_Clock_Info: "list_all (poll_event fl) (fst (Get_Clock_Info drv index d))"
  unfolding Get_Clock_Info_def clock_body_def
  by (intro events_for_loop events_seq)
    (simp_all add: clock_id_body_def query_switch_def MustNewConstMetric_def)

lemma poll_event_Get_Temperature_Info:
  "list_all (poll_event fl) (fst (Get_Temperature_Info drv index d))"
  "list_all (poll_event fl) (fst (Get_Temperature_Info_linux drv index d))"
  unfolding Get_Temperature_Info_def Get_Temperature_Info_linux_def
  by (intro events_for_loop, simp add: temperature_body_def temperature_body_linux_def stmt_defs)+

lemma poll_event_simple_sections:
  "list_all (poll_event fl) (fst (Get_Compute_Mode drv index d))"
  "list_all (poll_event fl) (fst (Get_Performance_State drv index d))"
  "list_all (poll_event fl) (fst (Get_Persistence_Mode drv index d))"
  "list_all (poll_event fl) (fst (Get_GPU_Utilization drv index d))"
  "list_all (poll_event fl) (fst (Get_Memory_Info drv index d))"
  "list_all (poll_event fl) (fst (Get_Power_Usage_linux drv index d))"
  "list_all (poll_event fl) (fst (Get_Power_Info drv index d))"
  using persis_label [of "fst (GetPersistenceMode drv d)"]
  by (auto simp add: Get_Compute_Mode_def Get_Performance_State_def Get_Persistence_Mode_def
      Get_GPU_Utilization_def Get_Memory_Info_def Get_Power_Usage_linux_def Get_Power_Info_def
      stmt_defs)

lemma poll_event_device_body:
  "list_all (poll_event fl) (fst (device_body drv fl index d))"
  "list_all (poll_event fl) (fst (device_body_linux drv fl index d))"
  unfolding device_body_def device_body_linux_def
  by (intro events_run_all_Cons events_run_all_Nil poll_event_Get_GPU_Info
      poll_event_Get_Fan_Info poll_event_Get_Clock_Info poll_event_Get_Temperature_Info
      poll_event_simple_sections)+

lemma device_event_Get_Fan_Info: "list_all (device_event index) (fst (Get_Fan_Info drv fl index d))"
proof -
  have "list_all (device_event index) (fst (for_loop 0 n (fan_body drv index d)))" for n
    by (intro events_for_loop) (simp add: fan_body_def stmt_defs)
  then show ?thesis
    by (simp add: Get_Fan_Info_def fst_seq_cases query_or_fail_def debug_def)
qed

lemma device_event_Get_Clock_Info: "list_all (device_event index) (fst (Get_Clock_Info drv index d))"
  unfolding Get_Clock_Info_def clock_body_def
  by (intro events_for_loop events_seq)
    (simp_all add: clock_id_body_def query_switch_def MustNewConstMetric_def)

lemma device_event_Get_Temperature_Info:
  "list_all (device_event index) (fst (Get_Temperature_Info drv index d))"
  "list_all (device_event index) (fst (Get_Temperature_Info_linux drv index d))"
  unfolding Get_Temperature_Info_def Get_Temperature_Info_linux_def
  by (intro events_for_loop, simp add: temperature_body_def temperature_body_linux_def stmt_defs)+

lemma device_event_simple_sections:
  "list_all (device_event index) (fst (Get_GPU_Info drv fl index d))"
  "list_all (device_event index) (fst (Get_Compute_Mode drv index d))"
  "list_all (device_event index) (fst (Get_Performance_State drv index d))"
  "list_all (device_event index) (fst (Get_Persistence_Mode drv index d))"
  "list_all (device_event index) (fst (Get_GPU_Utilization drv index d))"
  "list_all (device_event index) (fst (Get_Memory_Info drv index d))"
  "list_all (device_event index) (fst (Get_Power_Usage_linux drv index d))"
  "list_all (device_event index) (fst (Get_Power_Info drv index d))"
  by (simp_all add: Get_GPU_Info_def Get_Compute_Mode_def Get_Performance_State_def
      Get_Persistence_Mode_def
      Get_GPU_Utilization_def Get_Memory_Info_def Get_Power_Usage_linux_def Get_Power_Info_def
      stmt_defs)

lemma device_event_device_body:
  "list_all (device_event index) (fst (device_body drv fl index d))"
  "list_all (device_event index) (fst (device_body_linux drv fl index d))"
  unfolding device_body_def device_body_linux_def
  by (intro events_run_all_Cons events_run_all_Nil
      device_event_Get_Fan_Info device_event_Get_Clock_Info device_event_Get_Temperature_Info
      device_event_simple_sections)+

subsection \<open>The whole poll\<close>

lemma enumerate_devices_fail:
  "snd (DeviceGetCount drv) \<noteq> SUCCESS \<Longrightarrow>
   enumerate_devices drv =
     ([Query Call_DeviceGetCount],
      Inl (Errorf ''unable to get device count: '' (snd (DeviceGetCount drv))))"
  by (cases "DeviceGetCount drv") (simp add: enumerate_devices_def)

lemma enumerate_devices_step:
  "snd (DeviceGetCount drv) = SUCCESS \<Longrightarrow>
   enumerate_devices drv =
     (Query Call_DeviceGetCount # fst (handle_loop drv (fst (DeviceGetCount drv)) 0 []),
      snd (handle_loop drv (fst (DeviceGetCount drv)) 0 []))"
  by (cases "DeviceGetCount drv") (simp add: enumerate_devices_def split: prod.splits)

lemma handled_enumerate_devices:
  "handled drv False (fst (enumerate_devices drv)) (failure (snd (enumerate_devices drv)))"
proof (cases "snd (DeviceGetCount drv) = SUCCESS")
  case True
  then show ?thesis
    using handled_handle_loop [of drv "fst (DeviceGetCount drv)" 0 "[]"]
    by (simp add: enumerate_devices_step reaction_def)
next
  case False
  then show ?thesis by (simp add: enumerate_devices_fail reaction_def failure_def)
qed

lemma events_enumerate_devices:
  assumes "P (Query Call_DeviceGetCount)" "\<And>j. P (Query (Call_DeviceGetHandleByIndex j))"
  shows "list_all P (fst (enumerate_devices drv))"
proof (cases "snd (DeviceGetCount drv) = SUCCESS")
  case True
  then show ?thesis
    using events_handle_loop [of P drv "fst (DeviceGetCount drv)" 0 "[]"] assms
    by (simp add: enumerate_devices_step)
next
  case False
  then show ?thesis by (simp add: enumerate_devices_fail assms)
qed

lemma poll_fail:
  "snd (enumerate_devices drv) = Inl e \<Longrightarrow>
   poll body drv fl = (fst (enumerate_devices drv), Some e)"
  by (cases "enumerate_devices drv") (simp add: poll_def)

lemma poll_step:
  "snd (enumerate_devices drv) = Inr devices \<Longrightarrow>
   poll body drv fl =
     (fst (enumerate_devices drv)
        @ fst (seq (Get_Sys_Info drv fl) (range_devices body drv fl 0 devices)),
      snd (seq (Get_Sys_Info drv fl) (range_devices body drv fl 0 devices)))"
  by (cases "enumerate_devices drv") (simp add: poll_def seq_None)

lemma handled_poll:
  assumes "\<And>index d. handled drv False (fst (body drv fl index d)) (snd (body drv fl index d))"
  shows "handled drv False (fst (poll body drv fl)) (snd (poll body drv fl))"
proof (cases "snd (enumerate_devices drv)")
  case (Inl e)
  then show ?thesis
    using handled_enumerate_devices [of drv] by (simp add: poll_fail failure_def)
next
  case (Inr devices)
  have "handled drv False (fst (enumerate_devices drv)) None"
    using handled_enumerate_devices [of drv] Inr by (simp add: failure_def)
  moreover have "handled drv False
      (fst (seq (Get_Sys_Info drv fl) (range_devices body drv fl 0 devices)))
      (snd (seq (Get_Sys_Info drv fl) (range_devices body drv fl 0 devices)))"
    by (intro handled_seq_closed handled_Get_Sys_Info handled_range_devices assms)
  ultimately show ?thesis
    by (simp add: poll_step [OF Inr] handled_append_closed)
qed

lemma events_poll:
  assumes "\<And>index d. list_all (poll_event fl) (fst (body drv fl index d))"
  shows "list_all (poll_event fl) (fst (poll body drv fl))"
proof (cases "snd (enumerate_devices drv)")
  case (Inl e)
  then show ?thesis
    using events_enumerate_devices [of "poll_event fl" drv] by (simp add: poll_fail)
next
  case (Inr devices)
  have "list_all (poll_event fl)
      (fst (seq (Get_Sys_Info drv fl) (range_devices body drv fl 0 devices)))"
    by (intro events_seq poll_event_Get_Sys_Info events_range_devices assms)
  then show ?thesis
    using events_enumerate_devices [of "poll_event fl" drv] by (simp add: poll_step [OF Inr])
qed

lemma Update_with_fail:
  "Init drv \<noteq> SUCCESS \<Longrightarrow>
   Update_with body drv fl =
     ([Query Call_Init], Some (Errorf ''unable to initialize NVML: '' (Init drv)))"
  by (simp add: Update_with_def)

lemma Update_with_step:
  "Init drv = SUCCESS \<Longrightarrow>
   Update_with body drv fl =
     (Query Call_Init # fst (poll body drv fl) @ deferred drv, snd (poll body drv fl))"
  by (simp add: Update_with_def split: prod.splits)

lemma deferred_occurrence:
  "deferred drv = us @ Query c # post \<Longrightarrow> c = Call_Shutdown \<and> us = []"
  by (cases us; cases "tl us") (auto simp: deferred_def split: if_splits)

text \<open>Where a call other than the release can stand in the trace of a whole poll.\<close>

lemma Update_with_occurrence:
  assumes "fst (Update_with body drv fl) = pre @ Query c # post" and "c \<noteq> Call_Shutdown"
  obtains (init) "pre = []" "c = Call_Init"
      "post = (if Init drv = SUCCESS then fst (poll body drv fl) @ deferred drv else [])"
  | (inner) pre' post' where "Init drv = SUCCESS" "pre = Query Call_Init # pre'"
      "fst (poll body drv fl) = pre' @ Query c # post'" "post = post' @ deferred drv"
proof (cases "Init drv = SUCCESS")
  case False
  then have "[Query Call_Init] = pre @ Query c # post"
    using assms by (simp add: Update_with_fail)
  then have "pre = []" "c = Call_Init" "post = []"
    by (auto simp: Cons_eq_append_conv)
  then show ?thesis using False init by simp
next
  case True
  then have eq: "Query Call_Init # fst (poll body drv fl) @ deferred drv = pre @ Query c # post"
    using assms by (simp add: Update_with_step)
  show ?thesis
  proof (cases pre)
    case Nil
    then show ?thesis using eq True init by simp
  next
    case (Cons e pre')
    then have e: "e = Query Call_Init"
      and eq': "fst (poll body drv fl) @ deferred drv = pre' @ Query c # post"
      using eq by simp_all
    from eq' obtain us where
      "(fst (poll body drv fl) = pre' @ us \<and> us @ deferred drv = Query c # post) \<or>
       (fst (poll body drv fl) @ us = pre' \<and> deferred drv = us @ Query c # post)"
      by (auto simp: append_eq_append_conv2)
    then show ?thesis
    proof
      assume a: "fst (poll body drv fl) = pre' @ us \<and> us @ deferred drv = Query c # post"
      show ?thesis
      proof (cases us)
        case Nil
        then have "deferred drv = [] @ Query c # post" using a by simp
        then show ?thesis using deferred_occurrence assms(2) by blast
      next
        case (Cons u us')
        then have "fst (poll body drv fl) = pre' @ Query c # us'" "post = us' @ deferred drv"
          using a by simp_all
        then show ?thesis using inner True \<open>pre = e # pre'\<close> e by simp
      qed
    next
      assume "fst (poll body drv fl) @ us = pre' \<and> deferred drv = us @ Query c # post"
      then show ?thesis using deferred_occurrence assms(2) by blast
    qed
  qed
qed

lemma Update_with_reaction:
  assumes body: "\<And>index d. handled drv False (fst (body drv fl index d)) (snd (body drv fl index d))"
    and occ: "fst (Update_with body drv fl) = pre @ Query c # post" and c: "c \<noteq> Call_Shutdown"
  shows "status drv c = SUCCESS \<and> emitting c \<longrightarrow>
           (\<exists>m rest. post = Emit m # rest \<and> follow_up drv c m)"
    and "soft c \<and> status drv c = ERROR_NOT_SUPPORTED \<longrightarrow>
           (\<exists>msg c' rest. post = LogDebug msg # Query c' # rest \<and> c' \<noteq> Call_Shutdown)"
    and "\<not> accepted drv c \<longrightarrow>
           post = (if pre = [] then [] else deferred drv) \<and>
           (\<exists>msg. snd (Update_with body drv fl) = Some (Errorf msg (status drv c)))"
proof -
  have "(status drv c = SUCCESS \<and> emitting c \<longrightarrow>
           (\<exists>m rest. post = Emit m # rest \<and> follow_up drv c m)) \<and>
        (soft c \<and> status drv c = ERROR_NOT_SUPPORTED \<longrightarrow>
           (\<exists>msg c' rest. post = LogDebug msg # Query c' # rest \<and> c' \<noteq> Call_Shutdown)) \<and>
        (\<not> accepted drv c \<longrightarrow>
           post = (if pre = [] then [] else deferred drv) \<and>
           (\<exists>msg. snd (Update_with body drv fl) = Some (Errorf msg (status drv c))))"
  using occ c
  proof (cases rule: Update_with_occurrence)
    case init
    then show ?thesis
      by (auto simp: accepted_def Update_with_fail)
  next
    case (inner pre' post')
    have "reaction drv False c post' (snd (poll body drv fl))"
      using handled_poll [of drv body fl, OF body] inner(3) by (rule handled_occurrence)
    then show ?thesis
      using inner by (auto simp: reaction_def accepted_def Update_with_step split: if_splits)
  qed
  then show "status drv c = SUCCESS \<and> emitting c \<longrightarrow>
           (\<exists>m rest. post = Emit m # rest \<and> follow_up drv c m)"
    and "soft c \<and> status drv c = ERROR_NOT_SUPPORTED \<longrightarrow>
           (\<exists>msg c' rest. post = LogDebug msg # Query c' # rest \<and> c' \<noteq> Call_Shutdown)"
    and "\<not> accepted drv c \<longrightarrow>
           post = (if pre = [] then [] else deferred drv) \<and>
           (\<exists>msg. snd (Update_with body drv fl) = Some (Errorf msg (status drv c)))"
    by blast+
qed

subsection \<open>Polls against libraries that answer alike\<close>

lemma agree_calls: "list_all (agree_event a b) t \<longleftrightarrow> (\<forall>c\<in>set (calls t). same_answer a b c)"
  by (induction t rule: calls.induct) simp_all

lemma agree_seq:
  assumes "list_all A (fst (seq pa ka))"
    and "list_all A (fst pa) \<Longrightarrow> pb = pa"
    and "list_all A (fst ka) \<Longrightarrow> kb = ka"
  shows "seq pb kb = seq pa ka"
proof (cases "snd pa")
  case None
  then have "list_all A (fst pa)" "list_all A (fst ka)"
    using assms(1) by (simp_all add: fst_seq_cases)
  then show ?thesis using assms by simp
next
  case (Some e)
  then have "list_all A (fst pa)"
    using assms(1) by (simp add: fst_seq_cases)
  then have "pb = pa" by (rule assms(2))
  then show ?thesis using Some by (simp add: seq_Some)
qed

lemma agree_run_all_Cons:
  assumes "list_all A (fst (run_all (pa # psa)))"
    and "list_all A (fst pa) \<Longrightarrow> pb = pa"
    and "list_all A (fst (run_all psa)) \<Longrightarrow> run_all psb = run_all psa"
  shows "run_all (pb # psb) = run_all (pa # psa)"
  using assms unfolding run_all.simps by (rule agree_seq)

lemma agree_for_loop:
  assumes "list_all A (fst (for_loop lo hi fa))"
    and "\<And>i. lo \<le> i \<Longrightarrow> i < hi \<Longrightarrow> list_all A (fst (fa i)) \<Longrightarrow> fb i = fa i"
  shows "for_loop lo hi fb = for_loop lo hi fa"
  using assms
proof (induction lo hi fa rule: for_loop.induct)
  case (1 i hi fa)
  show ?case
  proof (cases "i < hi")
    case True
    have "seq (fb i) (for_loop (i + 1) hi fb) = seq (fa i) (for_loop (i + 1) hi fa)"
    proof (rule agree_seq)
      show "list_all A (fst (seq (fa i) (for_loop (i + 1) hi fa)))"
        using "1.prems"(1) True by (simp add: for_loop_step)
      show "list_all A (fst (fa i)) \<Longrightarrow> fb i = fa i"
        using True by (intro "1.prems"(2)) simp_all
      show "list_all A (fst (for_loop (i + 1) hi fa)) \<Longrightarrow>
          for_loop (i + 1) hi fb = for_loop (i + 1) hi fa"
        by (rule "1.IH" [OF True]) (simp, rule "1.prems"(2), simp_all)
    qed
    then show ?thesis using True by (simp add: for_loop_step)
  next
    case False
    then show ?thesis by (simp add: for_loop_done)
  qed
qed

lemma status_same: "same_answer a b c \<Longrightarrow> status b c = status a c"
  by (cases c) simp_all

lemma agree_query_or_fail:
  "list_all (agree_event a b) (fst (query_or_fail a c msg)) \<Longrightarrow>
   query_or_fail b c msg = query_or_fail a c msg"
  by (simp add: query_or_fail_def status_same)

lemma agree_Get_Sys_Info:
  "list_all (agree_event a b) (fst (Get_Sys_Info a fl)) \<Longrightarrow> Get_Sys_Info b fl = Get_Sys_Info a fl"
  by (auto simp: Get_Sys_Info_def stmt_defs split: if_splits)

lemma agree_Get_GPU_Info:
  "list_all (agree_event a b) (fst (Get_GPU_Info a fl index d)) \<Longrightarrow>
   Get_GPU_Info b fl index d = Get_GPU_Info a fl index d"
  by (auto simp: Get_GPU_Info_def stmt_defs split: if_splits)

lemma agree_fan_body:
  "GetMinMaxFanSpeed a d = GetMinMaxFanSpeed b d \<Longrightarrow>
   list_all (agree_event a b) (fst (fan_body a index d f)) \<Longrightarrow>
   fan_body b index d f = fan_body a index d f"
  by (auto simp: fan_body_def stmt_defs split: if_splits)

lemma agree_Get_Fan_Info:
  assumes "list_all (agree_event a b) (fst (Get_Fan_Info a fl index d))"
  shows "Get_Fan_Info b fl index d = Get_Fan_Info a fl index d"
proof (cases "enableNVGPUFan fl")
  case False
  then show ?thesis by (simp add: Get_Fan_Info_def)
next
  case True
  let ?q = "\<lambda>drv. query_or_fail drv (Call_GetNumFans d) (''unable to get GPU '' @ index @ '' Fan info: '')"
  let ?m = "\<lambda>drv. query_or_fail drv (Call_GetMinMaxFanSpeed d)
      (''unable to get GPU '' @ index @ '' Fan Min/Max Speed: '')"
  let ?rest = "\<lambda>drv. if fst (GetNumFans drv d) > 0 then
             seq (?m drv) (for_loop 0 (fst (GetNumFans drv d)) (fan_body drv index d))
           else debug (''GPU '' @ index @ '' has not Fan'')"
  have A: "list_all (agree_event a b) (fst (seq (?q a) (?rest a)))"
    using assms True by (simp add: Get_Fan_Info_def)
  then have n: "GetNumFans a d = GetNumFans b d"
    by (simp add: fst_seq_cases query_or_fail_def split: if_splits)
  have "seq (?q b) (?rest b) = seq (?q a) (?rest a)"
    using A
  proof (rule agree_seq)
    show "list_all (agree_event a b) (fst (?q a)) \<Longrightarrow> ?q b = ?q a"
      by (rule agree_query_or_fail)
    show "?rest b = ?rest a" if r: "list_all (agree_event a b) (fst (?rest a))"
    proof (cases "fst (GetNumFans a d) > 0")
      case False
      then show ?thesis using n by simp
    next
      case pos: True
      have B: "list_all (agree_event a b)
          (fst (seq (?m a) (for_loop 0 (fst (GetNumFans a d)) (fan_body a index d))))"
        using r pos by simp
      then have mm: "GetMinMaxFanSpeed a d = GetMinMaxFanSpeed b d"
        by (simp add: fst_seq_cases query_or_fail_def split: if_splits)
      have "seq (?m b) (for_loop 0 (fst (GetNumFans a d)) (fan_body b index d))
          = seq (?m a) (for_loop 0 (fst (GetNumFans a d)) (fan_body a index d))"
        using B
      proof (rule agree_seq)
        show "list_all (agree_event a b) (fst (?m a)) \<Longrightarrow> ?m b = ?m a"
          by (rule agree_query_or_fail)
        show "list_all (agree_event a b)
            (fst (for_loop 0 (fst (GetNumFans a d)) (fan_body a index d))) \<Longrightarrow>
          for_loop 0 (fst (GetNumFans a d)) (fan_body b index d) =
          for_loop 0 (fst (GetNumFans a d)) (fan_body a index d)"
          by (erule agree_for_loop) (rule agree_fan_body [OF mm])
      qed
      then show ?thesis using pos n by simp
    qed
  qed
  then show ?thesis using True by (simp add: Get_Fan_Info_def)
qed

lemma agree_clock_id_body:
  "list_all (agree_event a b) (fst (clock_id_body a index d t tt)) \<Longrightarrow>
   clock_id_body b index d t tt = clock_id_body a index d t tt"
  by (auto simp: clock_id_body_def stmt_defs split: if_splits)

lemma agree_query_switch_appclk:
  "list_all (agree_event a b) (fst (query_switch a (Call_GetApplicationsClock d t) s
      (MustNewConstMetric gpuAppClk GaugeValue (fst (GetApplicationsClock a d t)) ls) m)) \<Longrightarrow>
   query_switch b (Call_GetApplicationsClock d t) s
      (MustNewConstMetric gpuAppClk GaugeValue (fst (GetApplicationsClock b d t)) ls) m =
   query_switch a (Call_GetApplicationsClock d t) s
      (MustNewConstMetric gpuAppClk GaugeValue (fst (GetApplicationsClock a d t)) ls) m"
  by (auto simp: stmt_defs split: if_splits)

lemma agree_clock_body:
  "list_all (agree_event a b) (fst (clock_body a index d t)) \<Longrightarrow>
   clock_body b index d t = clock_body a index d t"
  unfolding clock_body_def
  by (erule agree_seq, erule agree_query_switch_appclk, erule agree_for_loop,
      erule agree_clock_id_body)

lemma agree_Get_Clock_Info:
  "list_all (agree_event a b) (fst (Get_Clock_Info a index d)) \<Longrightarrow>
   Get_Clock_Info b index d = Get_Clock_Info a index d"
  unfolding Get_Clock_Info_def
  by (erule agree_for_loop, erule agree_clock_body)

lemma agree_temperature_body:
  "list_all (agree_event a b) (fst (temperature_body a index d t)) \<Longrightarrow>
   temperature_body b index d t = temperature_body a index d t"
  "list_all (agree_event a b) (fst (temperature_body_linux a index d t)) \<Longrightarrow>
   temperature_body_linux b index d t = temperature_body_linux a index d t"
  by (auto simp: temperature_body_def temperature_body_linux_def stmt_defs split: if_splits)

lemma agree_Get_Temperature_Info:
  "list_all (agree_event a b) (fst (Get_Temperature_Info a index d)) \<Longrightarrow>
   Get_Temperature_Info b index d = Get_Temperature_Info a index d"
  "list_all (agree_event a b) (fst (Get_Temperature_Info_linux a index d)) \<Longrightarrow>
   Get_Temperature_Info_linux b index d = Get_Temperature_Info_linux a index d"
  unfolding Get_Temperature_Info_def Get_Temperature_Info_linux_def
  by (erule agree_for_loop, erule agree_temperature_body)+

lemma agree_simple_sections:
  "list_all (agree_event a b) (fst (Get_Compute_Mode a index d)) \<Longrightarrow>
   Get_Compute_Mode b index d = Get_Compute_Mode a index d"
  "list_all (agree_event a b) (fst (Get_Performance_State a index d)) \<Longrightarrow>
   Get_Performance_State b index d = Get_Performance_State a index d"
  "list_all (agree_event a b) (fst (Get_Persistence_Mode a index d)) \<Longrightarrow>
   Get_Persistence_Mode b index d = Get_Persistence_Mode a index d"
  "list_all (agree_event a b) (fst (Get_GPU_Utilization a index d)) \<Longrightarrow>
   Get_GPU_Utilization b index d = Get_GPU_Utilization a index d"
  "list_all (agree_event a b) (fst (Get_Memory_Info a index d)) \<Longrightarrow>
   Get_Memory_Info b index d = Get_Memory_Info a index d"
  "list_all (agree_event a b) (fst (Get_Power_Usage_linux a index d)) \<Longrightarrow>
   Get_Power_Usage_linux b index d = Get_Power_Usage_linux a index d"
  by (auto simp: Get_Compute_Mode_def Get_Performance_State_def Get_Persistence_Mode_def
      Get_GPU_Utilization_def Get_Memory_Info_def Get_Power_Usage_linux_def
      stmt_defs split: if_splits)

lemma agree_Get_Power_Info:
  "list_all (agree_event a b) (fst (Get_Power_Info a index d)) \<Longrightarrow>
   Get_Power_Info b index d = Get_Power_Info a index d"
  by (auto simp: Get_Power_Info_def stmt_defs split: if_splits)

lemma agree_run_all_Nil: "run_all [] = run_all []"
  by simp

lemma agree_device_body:
  "list_all (agree_event a b) (fst (device_body a fl index d)) \<Longrightarrow>
   device_body b fl index d = device_body a fl index d"
  unfolding device_body_def
  apply (erule agree_run_all_Cons, erule agree_Get_GPU_Info)
  apply (erule agree_run_all_Cons, erule agree_Get_Fan_Info)
  apply (erule agree_run_all_Cons, erule agree_Get_Clock_Info)
  apply (erule agree_run_all_Cons, erule agree_simple_sections)
  apply (erule agree_run_all_Cons, erule agree_simple_sections)
  apply (erule agree_run_all_Cons, erule agree_simple_sections)
  apply (erule agree_run_all_Cons, erule agree_simple_sections)
  apply (erule agree_run_all_Cons, erule agree_Get_Temperature_Info)
  apply (erule agree_run_all_Cons, erule agree_Get_Power_Info)
  apply (erule agree_run_all_Cons, erule agree_simple_sections)
  apply (rule refl)
  done

lemma agree_device_body_linux:
  "list_all (agree_event a b) (fst (device_body_linux a fl index d)) \<Longrightarrow>
   device_body_linux b fl index d = device_body_linux a fl index d"
  unfolding device_body_linux_def
  apply (erule agree_run_all_Cons, erule agree_Get_GPU_Info)
  apply (erule agree_run_all_Cons, erule agree_Get_Fan_Info)
  apply (erule agree_run_all_Cons, erule agree_Get_Temperature_Info)
  apply (erule agree_run_all_Cons, erule agree_simple_sections)
  apply (erule agree_run_all_Cons, erule agree_simple_sections)
  apply (rule refl)
  done

lemma agree_range_devices:
  assumes "\<And>index d. list_all (agree_event a b) (fst (body a fl index d)) \<Longrightarrow>
      body b fl index d = body a fl index d"
  shows "list_all (agree_event a b) (fst (range_devices body a fl i ds)) \<Longrightarrow>
    range_devices body b fl i ds = range_devices body a fl i ds"
proof (induction ds arbitrary: i)
  case Nil
  then show ?case by simp
next
  case (Cons d ds)
  show ?case
    unfolding range_devices.simps
    using Cons.prems [unfolded range_devices.simps]
    by (rule agree_seq) (erule assms, erule Cons.IH)
qed

lemma agree_handle_loop:
  "list_all (agree_event a b) (fst (handle_loop a count i devices)) \<Longrightarrow>
   handle_loop b count i devices = handle_loop a count i devices"
proof (induction a count i devices rule: handle_loop.induct)
  case (1 a count i devices)
  show ?case
  proof (cases rule: handle_loop_cases [where i=i and count=count and drv=a])
    case stop
    then show ?thesis by (simp add: handle_loop_done)
  next
    case fail
    then have "DeviceGetHandleByIndex a i = DeviceGetHandleByIndex b i"
      using "1.prems" by (simp add: handle_loop_fail)
    then show ?thesis using fail by (simp add: handle_loop_fail)
  next
    case step
    then have same: "DeviceGetHandleByIndex a i = DeviceGetHandleByIndex b i"
      using "1.prems" by (simp add: handle_loop_step)
    have rest: "list_all (agree_event a b)
        (fst (handle_loop a count (i + 1) (devices @ [fst (DeviceGetHandleByIndex a i)])))"
      using "1.prems" step by (simp add: handle_loop_step same)
    have "handle_loop b count (i + 1) (devices @ [fst (DeviceGetHandleByIndex a i)]) =
        handle_loop a count (i + 1) (devices @ [fst (DeviceGetHandleByIndex a i)])"
      using step "1.IH" rest by (cases "DeviceGetHandleByIndex a i") simp
    then show ?thesis using step same
      by (simp add: handle_loop_step)
  qed
qed

lemma agree_enumerate_devices:
  assumes "list_all (agree_event a b) (fst (enumerate_devices a))"
  shows "enumerate_devices b = enumerate_devices a"
proof (cases "snd (DeviceGetCount a) = SUCCESS")
  case True
  then have same: "DeviceGetCount a = DeviceGetCount b"
    using assms by (simp add: enumerate_devices_step)
  have rest: "list_all (agree_event a b) (fst (handle_loop a (fst (DeviceGetCount a)) 0 []))"
    using assms True by (simp add: enumerate_devices_step same)
  show ?thesis
    using True same agree_handle_loop [OF rest] by (simp add: enumerate_devices_step)
next
  case False
  then have "DeviceGetCount a = DeviceGetCount b"
    using assms by (simp add: enumerate_devices_fail)
  then show ?thesis using False by (simp add: enumerate_devices_fail)
qed

lemma agree_poll:
  assumes body: "\<And>index d. list_all (agree_event a b) (fst (body a fl index d)) \<Longrightarrow>
      body b fl index d = body a fl index d"
    and tr: "list_all (agree_event a b) (fst (poll body a fl))"
  shows "poll body b fl = poll body a fl"
proof (cases "snd (enumerate_devices a)")
  case (Inl e)
  then have "list_all (agree_event a b) (fst (enumerate_devices a))"
    using tr by (simp add: poll_fail)
  then have "enumerate_devices b = enumerate_devices a"
    by (rule agree_enumerate_devices)
  then show ?thesis using Inl by (simp add: poll_fail)
next
  case (Inr devices)
  then have en: "list_all (agree_event a b) (fst (enumerate_devices a))"
    and rest: "list_all (agree_event a b)
      (fst (seq (Get_Sys_Info a fl) (range_devices body a fl 0 devices)))"
    using tr by (simp_all add: poll_step)
  have "enumerate_devices b = enumerate_devices a"
    using en by (rule agree_enumerate_devices)
  moreover have "seq (Get_Sys_Info b fl) (range_devices body b fl 0 devices) =
      seq (Get_Sys_Info a fl) (range_devices body a fl 0 devices)"
    using rest
  proof (rule agree_seq)
    show "list_all (agree_event a b) (fst (Get_Sys_Info a fl)) \<Longrightarrow>
        Get_Sys_Info b fl = Get_Sys_Info a fl"
      by (rule agree_Get_Sys_Info)
    show "list_all (agree_event a b) (fst (range_devices body a fl 0 devices)) \<Longrightarrow>
        range_devices body b fl 0 devices = range_devices body a fl 0 devices"
      by (rule agree_range_devices) (erule body)
  qed
  ultimately show ?thesis using Inr by (simp add: poll_step)
qed

lemma agree_Update_with:
  assumes body: "\<And>index d. list_all (agree_event a b) (fst (body a fl index d)) \<Longrightarrow>
      body b fl index d = body a fl index d"
    and tr: "list_all (agree_event a b) (fst (Update_with body a fl))"
  shows "Update_with body b fl = Update_with body a fl"
proof (cases "Init a = SUCCESS")
  case True
  then have i: "Init a = Init b" and p: "list_all (agree_event a b) (fst (poll body a fl))"
    and s: "Shutdown a = Shutdown b"
    using tr by (simp_all add: Update_with_step deferred_def)
  have "poll body b fl = poll body a fl"
    using body p by (rule agree_poll)
  then show ?thesis using True i s by (simp add: Update_with_step deferred_def)
next
  case False
  then have "Init a = Init b" using tr by (simp add: Update_with_fail)
  then show ?thesis using False by (simp add: Update_with_fail)
qed

subsection \<open>Both loop bodies\<close>

lemma handled_bodies:
  assumes "body = device_body \<or> body = device_body_linux"
  shows "handled drv False (fst (body drv fl index d)) (snd (body drv fl index d))"
  using assms handled_device_body handled_device_body_linux by blast

lemma poll_event_bodies:
  assumes "body = device_body \<or> body = device_body_linux"
  shows "list_all (poll_event fl) (fst (body drv fl index d))"
  using assms poll_event_device_body by blast

lemma poll_event_poll:
  assumes "body = device_body \<or> body = device_body_linux"
  shows "list_all (poll_event fl) (fst (poll body drv fl))"
  by (rule events_poll) (rule poll_event_bodies [OF assms])

lemma Update_cases:
  assumes "U = Update \<or> U = Update_linux"
  obtains body where "U = Update_with body" "body = device_body \<or> body = device_body_linux"
  using assms by (auto simp: Update_def Update_linux_def)

lemma filter_poll_events:
  "list_all (poll_event fl) t \<Longrightarrow> filter (\<lambda>e. e = Query Call_Shutdown) t = []"
  by (induction t) auto

lemma same_answer_Shutdown_update:
  "c \<noteq> Call_Shutdown \<Longrightarrow> same_answer drv (drv\<lparr>Shutdown := r\<rparr>) c"
  by (cases c) simp_all

lemma poll_Shutdown_update:
  assumes "body = device_body \<or> body = device_body_linux"
  shows "poll body (drv\<lparr>Shutdown := r\<rparr>) fl = poll body drv fl"
proof (rule agree_poll)
  show "list_all (agree_event drv (drv\<lparr>Shutdown := r\<rparr>)) (fst (body drv fl index d)) \<Longrightarrow>
      body (drv\<lparr>Shutdown := r\<rparr>) fl index d = body drv fl index d" for index d
    using assms agree_device_body agree_device_body_linux by blast
  have "list_all (poll_event fl) (fst (poll body drv fl))"
    by (rule poll_event_poll [OF assms])
  moreover have "poll_event fl e \<Longrightarrow> agree_event drv (drv\<lparr>Shutdown := r\<rparr>) e" for e
    by (cases e) (simp_all add: same_answer_Shutdown_update)
  ultimately show "list_all (agree_event drv (drv\<lparr>Shutdown := r\<rparr>)) (fst (poll body drv fl))"
    by (auto simp: list_all_iff)
qed

lemma Update_with_Shutdown_count:
  assumes "body = device_body \<or> body = device_body_linux"
  shows "length (filter (\<lambda>e. e = Query Call_Shutdown) (fst (Update_with body drv fl))) =
     (if Init drv = SUCCESS then 1 else 0)"
proof -
  have "filter (\<lambda>e. e = Query Call_Shutdown) (fst (poll body drv fl)) = []"
    by (rule filter_poll_events) (rule poll_event_poll [OF assms(1)])
  then show ?thesis
    by (simp add: Update_with_step Update_with_fail deferred_def)
qed

lemma Update_with_release_last:
  assumes "body = device_body \<or> body = device_body_linux" and "Init drv = SUCCESS"
  shows "\<exists>t. fst (Update_with body drv fl) = t @ deferred drv \<and> Query Call_Shutdown \<notin> set t"
proof -
  have "filter (\<lambda>e. e = Query Call_Shutdown) (fst (poll body drv fl)) = []"
    by (rule filter_poll_events) (rule poll_event_poll [OF assms(1)])
  then have "Query Call_Shutdown \<notin> set (Query Call_Init # fst (poll body drv fl))"
    by (auto simp: filter_empty_conv)
  moreover have "fst (Update_with body drv fl) = (Query Call_Init # fst (poll body drv fl)) @ deferred drv"
    using assms(2) by (simp add: Update_with_step)
  ultimately show ?thesis by blast
qed


lemma Update_with_events:
  assumes b: "body = device_body \<or> body = device_body_linux"
  shows "list_all (\<lambda>e. e = Query Call_Init \<or> e = Query Call_Shutdown \<or>
      (\<exists>msg r. e = LogError msg r) \<or> poll_event fl e) (fst (Update_with body drv fl))"
proof (cases "Init drv = SUCCESS")
  case True
  have "list_all (poll_event fl) (fst (poll body drv fl))"
    by (rule poll_event_poll [OF b])
  then show ?thesis using True
    by (auto simp: Update_with_step deferred_def list_all_iff)
next
  case False
  then show ?thesis by (simp add: Update_with_fail)
qed

lemma in_observations: "m \<in> set (observations t) \<longleftrightarrow> Emit m \<in> set t"
  by (induction t rule: observations.induct) auto

lemma in_calls: "c \<in> set (calls t) \<longleftrightarrow> Query c \<in> set t"
  by (induction t rule: calls.induct) auto

subsection \<open>Errors and temperature observations\<close>

lemma observations_append [simp]: "observations (s @ t) = observations s @ observations t"
  by (induction s rule: observations.induct) simp_all

lemma calls_append [simp]: "calls (s @ t) = calls s @ calls t"
  by (induction s rule: calls.induct) simp_all

lemma tidy_skip: "tidy drv ([], None)"
  by (simp add: tidy_def)

lemma tidy_seq: "tidy drv p \<Longrightarrow> tidy drv k \<Longrightarrow> tidy drv (seq p k)"
  by (cases "snd p") (auto simp: tidy_def seq_None seq_Some)

lemma tidy_run_all_Cons: "tidy drv p \<Longrightarrow> tidy drv (run_all ps) \<Longrightarrow> tidy drv (run_all (p # ps))"
  by (simp add: tidy_seq)

lemma tidy_run_all_Nil: "tidy drv (run_all [])"
  by (simp add: tidy_skip)

lemma tidy_for_loop:
  assumes "\<And>i. lo \<le> i \<Longrightarrow> i < hi \<Longrightarrow> tidy drv (body i)"
  shows "tidy drv (for_loop lo hi body)"
  using assms
proof (induction lo hi body rule: for_loop.induct)
  case (1 i hi body)
  show ?case
  proof (cases "i < hi")
    case True
    have "tidy drv (for_loop (i + 1) hi body)"
      by (rule "1.IH" [OF True]) (rule "1.prems", simp_all)
    moreover have "tidy drv (body i)"
      using True by (intro "1.prems") simp_all
    ultimately show ?thesis
      unfolding for_loop_step [OF True] by (rule tidy_seq [rotated])
  next
    case False
    then show ?thesis by (simp add: for_loop_done tidy_skip)
  qed
qed

lemma tidy_sections:
  "tidy drv (Get_Sys_Info drv fl)"
  "tidy drv (Get_GPU_Info drv fl index d)"
  "tidy drv (Get_Compute_Mode drv index d)"
  "tidy drv (Get_Performance_State drv index d)"
  "tidy drv (Get_Persistence_Mode drv index d)"
  "tidy drv (Get_GPU_Utilization drv index d)"
  "tidy drv (Get_Memory_Info drv index d)"
  "tidy drv (Get_Power_Usage_linux drv index d)"
  "tidy drv (Get_Power_Info drv index d)"
  by (simp_all add: tidy_def Get_Sys_Info_def Get_GPU_Info_def Get_Compute_Mode_def
      Get_Performance_State_def Get_Persistence_Mode_def Get_GPU_Utilization_def
      Get_Memory_Info_def Get_Power_Usage_linux_def Get_Power_Info_def stmt_defs accepted_def)

lemma tidy_Get_Fan_Info: "tidy drv (Get_Fan_Info drv fl index d)"
proof -
  have "tidy drv (for_loop 0 n (fan_body drv index d))" for n
    by (rule tidy_for_loop) (simp add: tidy_def fan_body_def stmt_defs accepted_def)
  moreover have "tidy drv (query_or_fail drv (Call_GetNumFans d) m)"
    "tidy drv (query_or_fail drv (Call_GetMinMaxFanSpeed d) m)" "tidy drv (debug m)" for m
    by (simp_all add: tidy_def stmt_defs accepted_def)
  ultimately show ?thesis
    by (simp add: Get_Fan_Info_def tidy_seq tidy_skip)
qed

lemma tidy_Get_Clock_Info: "tidy drv (Get_Clock_Info drv index d)"
  unfolding Get_Clock_Info_def clock_body_def
  by (intro tidy_for_loop tidy_seq)
    (simp_all add: tidy_def clock_id_body_def stmt_defs accepted_def)

lemma tidy_Get_Temperature_Info:
  "tidy drv (Get_Temperature_Info drv index d)"
  "tidy drv (Get_Temperature_Info_linux drv index d)"
  unfolding Get_Temperature_Info_def Get_Temperature_Info_linux_def
  by (rule tidy_for_loop,
      simp add: tidy_def temperature_body_def temperature_body_linux_def stmt_defs accepted_def)+

lemma tidy_device_body:
  "tidy drv (device_body drv fl index d)"
  "tidy drv (device_body_linux drv fl index d)"
  unfolding device_body_def device_body_linux_def
  by (intro tidy_run_all_Cons tidy_run_all_Nil tidy_sections tidy_Get_Fan_Info
      tidy_Get_Clock_Info tidy_Get_Temperature_Info)+

lemma tidy_range_devices:
  assumes "\<And>index d. tidy drv (body drv fl index d)"
  shows "tidy drv (range_devices body drv fl i ds)"
  by (induction ds arbitrary: i) (simp_all add: tidy_seq tidy_skip assms)

lemma tidy_handle_loop:
  "tidy drv (fst (handle_loop drv count i devices), failure (snd (handle_loop drv count i devices)))"
proof (induction drv count i devices rule: handle_loop.induct)
  case (1 drv count i devices)
  show ?case
  proof (cases rule: handle_loop_cases [where i=i and count=count and drv=drv])
    case stop
    then show ?thesis by (simp add: handle_loop_done tidy_def failure_def)
  next
    case fail
    then show ?thesis by (simp add: handle_loop_fail failure_def tidy_def accepted_def)
  next
    case step
    have "tidy drv
        (fst (handle_loop drv count (i + 1) (devices @ [fst (DeviceGetHandleByIndex drv i)])),
         failure (snd (handle_loop drv count (i + 1)
           (devices @ [fst (DeviceGetHandleByIndex drv i)]))))"
      using step "1.IH" by (cases "DeviceGetHandleByIndex drv i") simp
    then show ?thesis using step
      by (simp add: handle_loop_step tidy_def)
  qed
qed

lemma tidy_enumerate_devices:
  "tidy drv (fst (enumerate_devices drv), failure (snd (enumerate_devices drv)))"
proof (cases "snd (DeviceGetCount drv) = SUCCESS")
  case True
  then show ?thesis
    using tidy_handle_loop [of drv "fst (DeviceGetCount drv)" 0 "[]"]
    by (simp add: enumerate_devices_step tidy_def)
next
  case False
  then show ?thesis by (simp add: enumerate_devices_fail tidy_def failure_def accepted_def)
qed

lemma tidy_poll:
  assumes "\<And>index d. tidy drv (body drv fl index d)"
  shows "tidy drv (poll body drv fl)"
proof (cases "snd (enumerate_devices drv)")
  case (Inl e)
  then show ?thesis
    using tidy_enumerate_devices [of drv] by (simp add: poll_fail failure_def)
next
  case (Inr devices)
  have "tidy drv (fst (enumerate_devices drv), None)"
    using tidy_enumerate_devices [of drv] Inr by (simp add: failure_def)
  moreover have "tidy drv (seq (Get_Sys_Info drv fl) (range_devices body drv fl 0 devices))"
    by (intro tidy_seq tidy_sections tidy_range_devices assms)
  ultimately have "tidy drv (seq (fst (enumerate_devices drv), None)
      (seq (Get_Sys_Info drv fl) (range_devices body drv fl 0 devices)))"
    by (rule tidy_seq)
  then show ?thesis
    by (simp add: poll_step [OF Inr] seq_None)
qed

lemma tidy_poll_bodies:
  assumes "body = device_body \<or> body = device_body_linux"
  shows "tidy drv (poll body drv fl)"
  using assms
proof
  assume "body = device_body"
  then show ?thesis using tidy_poll [of drv device_body fl] tidy_device_body(1) by simp
next
  assume "body = device_body_linux"
  then show ?thesis using tidy_poll [of drv device_body_linux fl] tidy_device_body(2) by simp
qed

text \<open>An error of the poll is the error of the last call before the release.\<close>

lemma Update_with_blame:
  assumes b: "body = device_body \<or> body = device_body_linux"
    and e: "snd (Update_with body drv fl) = Some e"
  shows "\<exists>pre c msg. fst (Update_with body drv fl) =
             pre @ Query c # (if pre = [] then [] else deferred drv) \<and>
           c \<noteq> Call_Shutdown \<and> \<not> accepted drv c \<and> e = Errorf msg (status drv c)"
proof (cases "Init drv = SUCCESS")
  case False
  then have "fst (Update_with body drv fl) = [] @ Query Call_Init # (if [] = ([]::event list) then [] else deferred drv)"
    "e = Errorf ''unable to initialize NVML: '' (status drv Call_Init)" "\<not> accepted drv Call_Init"
    using e by (simp_all add: Update_with_fail accepted_def)
  then show ?thesis by blast
next
  case True
  then have pe: "snd (poll body drv fl) = Some e"
    using e by (simp add: Update_with_step)
  with tidy_poll_bodies [OF b, of drv fl] obtain c msg where
    ne: "fst (poll body drv fl) \<noteq> []" and l: "last (fst (poll body drv fl)) = Query c"
    and m: "e = Errorf msg (status drv c)" and na: "\<not> accepted drv c"
    by (auto simp: tidy_def)
  have "list_all (poll_event fl) (fst (poll body drv fl))"
    by (rule poll_event_poll [OF b])
  then have "poll_event fl (Query c)"
    using ne l by (metis last_in_set list_all_iff)
  then have c: "c \<noteq> Call_Shutdown" by simp
  have "fst (poll body drv fl) = butlast (fst (poll body drv fl)) @ [Query c]"
    using ne l by (metis append_butlast_last_id)
  then have "fst (Update_with body drv fl) =
      (Query Call_Init # butlast (fst (poll body drv fl))) @ Query c #
        (if Query Call_Init # butlast (fst (poll body drv fl)) = [] then [] else deferred drv)"
    using True by (simp add: Update_with_step)
  then show ?thesis using c m na by blast
qed

lemma Update_with_temperature_count:
  assumes b: "body = device_body \<or> body = device_body_linux"
  shows "length (filter (\<lambda>m. desc m = gpuTemp) (observations (fst (Update_with body drv fl)))) =
     length (filter (good_temperature_call drv) (calls (fst (Update_with body drv fl))))"
proof (cases "Init drv = SUCCESS")
  case True
  then show ?thesis
    using tidy_poll_bodies [OF b, of drv fl]
    by (simp add: Update_with_step tidy_def deferred_def)
next
  case False
  then show ?thesis by (simp add: Update_with_fail)
qed

subsection \<open>Enumeration and the order of the devices\<close>

lemma handle_loop_failure:
  "i \<le> j \<Longrightarrow> j < count \<Longrightarrow> snd (DeviceGetHandleByIndex drv j) \<noteq> SUCCESS \<Longrightarrow>
   \<exists>e. snd (handle_loop drv count i devices) = Inl e"
proof (induction drv count i devices rule: handle_loop.induct)
  case (1 drv count i devices)
  show ?case
  proof (cases rule: handle_loop_cases [where i=i and count=count and drv=drv])
    case stop
    then show ?thesis using "1.prems" by simp
  next
    case fail
    then show ?thesis by (simp add: handle_loop_fail)
  next
    case step
    then have "i \<noteq> j" using "1.prems" by auto
    then have "i + 1 \<le> j" using "1.prems" by simp
    then have "\<exists>e. snd (handle_loop drv count (i + 1)
        (devices @ [fst (DeviceGetHandleByIndex drv i)])) = Inl e"
      using step "1.IH" "1.prems" by (cases "DeviceGetHandleByIndex drv i") simp
    then show ?thesis using step by (simp add: handle_loop_step)
  qed
qed

lemma enumerate_devices_success:
  assumes "snd (DeviceGetCount drv) = SUCCESS"
    and "\<And>j. 0 \<le> j \<Longrightarrow> j < fst (DeviceGetCount drv) \<Longrightarrow>
      snd (DeviceGetHandleByIndex drv j) = SUCCESS"
  shows "enumerate_devices drv =
     (Query Call_DeviceGetCount #
        map (\<lambda>j. Query (Call_DeviceGetHandleByIndex j)) [0..fst (DeviceGetCount drv) - 1],
      Inr (map (\<lambda>j. fst (DeviceGetHandleByIndex drv j)) [0..fst (DeviceGetCount drv) - 1]))"
  using assms handle_loop_success [of 0 "fst (DeviceGetCount drv)" drv "[]"]
  by (simp add: enumerate_devices_step)

lemma enumerate_devices_failure:
  assumes "snd (DeviceGetCount drv) \<noteq> SUCCESS \<or>
     (\<exists>j. 0 \<le> j \<and> j < fst (DeviceGetCount drv) \<and> snd (DeviceGetHandleByIndex drv j) \<noteq> SUCCESS)"
  shows "\<exists>e. snd (enumerate_devices drv) = Inl e"
proof (cases "snd (DeviceGetCount drv) = SUCCESS")
  case True
  then obtain j where "0 \<le> j" "j < fst (DeviceGetCount drv)"
    "snd (DeviceGetHandleByIndex drv j) \<noteq> SUCCESS"
    using assms by blast
  then show ?thesis
    using True handle_loop_failure [of 0 j "fst (DeviceGetCount drv)" drv "[]"]
    by (simp add: enumerate_devices_step)
next
  case False
  then show ?thesis by (simp add: enumerate_devices_fail)
qed

lemma observations_no_Emit: "list_all (\<lambda>e. \<forall>m. e \<noteq> Emit m) t \<Longrightarrow> observations t = []"
  by (induction t rule: observations.induct) simp_all

lemma observations_enumerate_devices: "observations (fst (enumerate_devices drv)) = []"
  by (rule observations_no_Emit) (rule events_enumerate_devices, simp_all)

lemma observations_deferred: "observations (deferred drv) = []"
  by (simp add: deferred_def)

lemma observations_concat: "observations (concat ts) = concat (map observations ts)"
  by (induction ts) simp_all

lemma range_devices_prefix:
  "\<exists>k. k \<le> length ds \<and>
     fst (range_devices body drv fl i ds) =
       concat (map (\<lambda>j. fst (body drv fl (Itoa (i + int j)) (ds ! j))) [0..<k]) \<and>
     (snd (range_devices body drv fl i ds) = None \<longrightarrow> k = length ds)"
proof (induction ds arbitrary: i)
  case Nil
  then show ?case by simp
next
  case (Cons d ds)
  show ?case
  proof (cases "snd (body drv fl (Itoa i) d)")
    case (Some e)
    then have "fst (range_devices body drv fl i (d # ds)) =
        concat (map (\<lambda>j. fst (body drv fl (Itoa (i + int j)) ((d # ds) ! j))) [0..<1])"
      "snd (range_devices body drv fl i (d # ds)) \<noteq> None"
      by (simp_all add: seq_Some)
    then show ?thesis by (intro exI [of _ 1]) auto
  next
    case None
    from Cons [of "i + 1"] obtain k where k: "k \<le> length ds"
      "fst (range_devices body drv fl (i + 1) ds) =
         concat (map (\<lambda>j. fst (body drv fl (Itoa (i + 1 + int j)) (ds ! j))) [0..<k])"
      "snd (range_devices body drv fl (i + 1) ds) = None \<longrightarrow> k = length ds"
      by (elim exE conjE)
    have "fst (range_devices body drv fl i (d # ds)) =
        fst (body drv fl (Itoa i) d) @
        concat (map (\<lambda>j. fst (body drv fl (Itoa (i + 1 + int j)) (ds ! j))) [0..<k])"
      using None k(2) by (simp add: seq_None)
    also have "\<dots> = concat (map (\<lambda>j. fst (body drv fl (Itoa (i + int j)) ((d # ds) ! j)))
        [0..<Suc k])"
      by (simp only: map_upt_Suc list.map concat.simps nth_Cons_0 nth_Cons_Suc
          of_nat_0 of_nat_Suc add_0_right add.assoc add.commute [of "int _" 1])
    finally have "fst (range_devices body drv fl i (d # ds)) =
        concat (map (\<lambda>j. fst (body drv fl (Itoa (i + int j)) ((d # ds) ! j))) [0..<Suc k])" .
    moreover have "snd (range_devices body drv fl i (d # ds)) = None \<longrightarrow> Suc k = length (d # ds)"
      using None k(3) by (simp add: seq_None)
    ultimately show ?thesis using k(1) by (intro exI [of _ "Suc k"]) simp
  qed
qed

lemma nth_enumerated:
  "j < nat N \<Longrightarrow> map (\<lambda>j. h j) [0..N - 1] ! j = h (int j)"
  by (simp add: nth_map)

lemma observations_bodies:
  assumes "body = device_body \<or> body = device_body_linux"
    and "m \<in> set (observations (fst (body drv fl index d)))"
  shows "labelValues m \<noteq> [] \<and> hd (labelValues m) = index"
proof -
  have "list_all (device_event index) (fst (body drv fl index d))"
    using assms(1) device_event_device_body by blast
  moreover have "Emit m \<in> set (fst (body drv fl index d))"
    using assms(2) by (simp add: in_observations)
  ultimately show ?thesis by (auto simp: list_all_iff)
qed

subsection \<open>What a poll without error has asked\<close>

lemma reached_seq:
  assumes "snd (seq p k) = None"
  shows "snd p = None" "snd k = None" "set (fst p) \<subseteq> set (fst (seq p k))"
    "set (fst k) \<subseteq> set (fst (seq p k))"
  using assms by (auto simp: fst_seq_cases snd_seq_cases split: if_splits)

lemma reached_run_all:
  "snd (run_all ps) = None \<Longrightarrow> p \<in> set ps \<Longrightarrow>
   snd p = None \<and> set (fst p) \<subseteq> set (fst (run_all ps))"
proof (induction ps)
  case Nil
  then show ?case by simp
next
  case (Cons q ps)
  from Cons.prems(1) have s: "snd (seq q (run_all ps)) = None" by simp
  note r = reached_seq [OF s]
  show ?case
  proof (cases "p = q")
    case True
    then show ?thesis using r(1,3) by simp
  next
    case False
    then have "snd p = None \<and> set (fst p) \<subseteq> set (fst (run_all ps))"
      using Cons r(2) by simp
    then show ?thesis using r(4) by auto
  qed
qed

lemma reached_for_loop:
  "snd (for_loop lo hi body) = None \<Longrightarrow> lo \<le> i \<Longrightarrow> i < hi \<Longrightarrow>
   snd (body i) = None \<and> set (fst (body i)) \<subseteq> set (fst (for_loop lo hi body))"
proof (induction lo hi body rule: for_loop.induct)
  case (1 j hi body)
  have lt: "j < hi" using "1.prems" by simp
  from "1.prems"(1) have s: "snd (seq (body j) (for_loop (j + 1) hi body)) = None"
    by (simp add: for_loop_step [OF lt])
  note r = reached_seq [OF s]
  show ?case
  proof (cases "i = j")
    case True
    then show ?thesis using r(1,3) by (simp add: for_loop_step [OF lt])
  next
    case False
    then have "snd (body i) = None \<and> set (fst (body i)) \<subseteq> set (fst (for_loop (j + 1) hi body))"
      using "1.IH" [OF lt r(2)] "1.prems" by simp
    then show ?thesis using r(4) by (auto simp: for_loop_step [OF lt])
  qed
qed

lemma reached_range_devices:
  "snd (range_devices body drv fl i ds) = None \<Longrightarrow> d \<in> set ds \<Longrightarrow>
   \<exists>index. snd (body drv fl index d) = None \<and>
     set (fst (body drv fl index d)) \<subseteq> set (fst (range_devices body drv fl i ds))"
proof (induction ds arbitrary: i)
  case Nil
  then show ?case by simp
next
  case (Cons x ds)
  from Cons.prems(1)
  have s: "snd (seq (body drv fl (Itoa i) x) (range_devices body drv fl (i + 1) ds)) = None"
    by simp
  note r = reached_seq [OF s]
  show ?case
  proof (cases "d = x")
    case True
    then show ?thesis using r(1,3) by auto
  next
    case False
    then obtain index where "snd (body drv fl index d) = None"
      "set (fst (body drv fl index d)) \<subseteq> set (fst (range_devices body drv fl (i + 1) ds))"
      using Cons.IH [OF r(2)] Cons.prems(2) by auto
    then show ?thesis using r(4) by (intro exI [of _ index]) auto
  qed
qed

text \<open>In a poll without error, the loop body has run to its end for every device.\<close>

lemma reached_Update_with:
  assumes "snd (Update_with body drv fl) = None" and "snd (enumerate_devices drv) = Inr ds"
    and "d \<in> set ds"
  shows "\<exists>index. snd (body drv fl index d) = None \<and>
     set (fst (body drv fl index d)) \<subseteq> set (fst (Update_with body drv fl))"
proof -
  have init: "Init drv = SUCCESS"
    using assms(1) by (cases "Init drv = SUCCESS") (simp_all add: Update_with_fail)
  then have p: "snd (seq (Get_Sys_Info drv fl) (range_devices body drv fl 0 ds)) = None"
    using assms(1,2) by (simp add: Update_with_step poll_step)
  from reached_range_devices [OF reached_seq(2) [OF p] assms(3)]
  obtain index where i: "snd (body drv fl index d) = None"
    "set (fst (body drv fl index d)) \<subseteq> set (fst (range_devices body drv fl 0 ds))"
    by auto
  have "set (fst (range_devices body drv fl 0 ds)) \<subseteq> set (fst (Update_with body drv fl))"
    using reached_seq(4) [OF p] init assms(2) by (auto simp: Update_with_step poll_step)
  then show ?thesis using i by blast
qed

lemma clock_calls_device_body:
  assumes "snd (device_body drv fl index d) = None"
    and "t \<in> known_ClockType" and "tt \<in> known_ClockId"
  shows "Query (Call_GetApplicationsClock d t) \<in> set (fst (device_body drv fl index d))"
    and "Query (Call_GetClock d t tt) \<in> set (fst (device_body drv fl index d))"
    and "Query (Call_GetEnforcedPowerLimit d) \<in> set (fst (device_body drv fl index d))"
proof -
  have t: "0 \<le> t" "t < CLOCK_COUNT" "to_int32 t = t"
    and tt: "0 \<le> tt" "tt < CLOCK_ID_COUNT" "to_int32 tt = tt"
    using assms(2,3) by (auto simp: known_ClockType_def known_ClockId_def nvml_consts to_int32_def)
  have ck: "snd (Get_Clock_Info drv index d) = None \<and>
      set (fst (Get_Clock_Info drv index d)) \<subseteq> set (fst (device_body drv fl index d))"
    and pw: "snd (Get_Power_Info drv index d) = None \<and>
      set (fst (Get_Power_Info drv index d)) \<subseteq> set (fst (device_body drv fl index d))"
    using assms(1) unfolding device_body_def by (intro reached_run_all; simp)+
  have cb: "snd (clock_body drv index d t) = None \<and>
      set (fst (clock_body drv index d t)) \<subseteq> set (fst (Get_Clock_Info drv index d))"
    using ck t unfolding Get_Clock_Info_def by (intro reached_for_loop) simp_all
  then have s: "snd (seq (query_switch drv (Call_GetApplicationsClock d (to_int32 t))
            (''GPU '' @ index @ '' not support App Clock Type '' @ getClockTypeString t)
            (MustNewConstMetric gpuAppClk GaugeValue
               (fst (GetApplicationsClock drv d (to_int32 t)))
               [index, getClockTypeString t])
            (''unable to get GPU '' @ index @ '' Applications Clock Type ''
               @ getClockTypeString t @ '' Info: ''))
       (for_loop 0 CLOCK_ID_COUNT (clock_id_body drv index d t))) = None"
    by (simp add: clock_body_def)
  note r = reached_seq [OF s]
  have "Query (Call_GetApplicationsClock d t) \<in> set (fst (clock_body drv index d t))"
    using r(3) t(3) by (auto simp: clock_body_def query_switch_def split: if_splits)
  then show "Query (Call_GetApplicationsClock d t) \<in> set (fst (device_body drv fl index d))"
    using cb ck by blast
  have ib: "snd (clock_id_body drv index d t tt) = None \<and>
      set (fst (clock_id_body drv index d t tt)) \<subseteq>
        set (fst (for_loop 0 CLOCK_ID_COUNT (clock_id_body drv index d t)))"
    using r(2) tt by (intro reached_for_loop) simp_all
  have "Query (Call_GetClock d t tt) \<in> set (fst (clock_id_body drv index d t tt))"
    using t(3) tt(3) by (simp add: clock_id_body_def query_switch_def)
  then have "Query (Call_GetClock d t tt) \<in> set (fst (clock_body drv index d t))"
    using ib r(4) by (auto simp: clock_body_def)
  then show "Query (Call_GetClock d t tt) \<in> set (fst (device_body drv fl index d))"
    using cb ck by blast
  have "Query (Call_GetEnforcedPowerLimit d) \<in> set (fst (Get_Power_Info drv index d))"
    using pw by (auto simp: Get_Power_Info_def stmt_defs split: if_splits)
  then show "Query (Call_GetEnforcedPowerLimit d) \<in> set (fst (device_body drv fl index d))"
    using pw by blast
qed

lemma temperature_call_bodies:
  assumes "body = device_body \<or> body = device_body_linux"
    and "snd (body drv fl index d) = None" and "t \<in> known_TemperatureSensors"
  shows "Query (Call_GetTemperature d t) \<in> set (fst (body drv fl index d))"
proof -
  have t: "t = 0" "to_int32 0 = 0"
    using assms(3) by (simp_all add: known_TemperatureSensors_def nvml_consts to_int32_def)
  have one: "for_loop 0 TEMPERATURE_COUNT f = f 0" for f
    by (simp add: for_loop_step for_loop_done TEMPERATURE_COUNT_def)
  from assms(1) show ?thesis
  proof
    assume b: "body = device_body"
    then have "snd (Get_Temperature_Info drv index d) = None \<and>
        set (fst (Get_Temperature_Info drv index d)) \<subseteq> set (fst (device_body drv fl index d))"
      using assms(2) unfolding device_body_def by (intro reached_run_all) simp_all
    moreover have "Query (Call_GetTemperature d 0) \<in> set (fst (Get_Temperature_Info drv index d))"
      by (simp add: Get_Temperature_Info_def one temperature_body_def stmt_defs t)
    ultimately show ?thesis using b t by blast
  next
    assume b: "body = device_body_linux"
    then have "snd (Get_Temperature_Info_linux drv index d) = None \<and>
        set (fst (Get_Temperature_Info_linux drv index d))
          \<subseteq> set (fst (device_body_linux drv fl index d))"
      using assms(2) unfolding device_body_linux_def by (intro reached_run_all) simp_all
    moreover have "Query (Call_GetTemperature d 0)
        \<in> set (fst (Get_Temperature_Info_linux drv index d))"
      by (simp add: Get_Temperature_Info_linux_def one temperature_body_linux_def stmt_defs t)
    ultimately show ?thesis using b t by blast
  qed
qed

lemma small_codes:
  "0 \<le> t \<Longrightarrow> t < CLOCK_COUNT \<Longrightarrow> to_int32 t \<in> known_ClockType"
  "0 \<le> t \<Longrightarrow> t < CLOCK_ID_COUNT \<Longrightarrow> to_int32 t \<in> known_ClockId"
  "0 \<le> t \<Longrightarrow> t < TEMPERATURE_COUNT \<Longrightarrow> to_int32 t \<in> known_TemperatureSensors"
  by (auto simp: known_ClockType_def known_ClockId_def known_TemperatureSensors_def
      nvml_consts to_int32_def)

lemma defined_code_Get_Fan_Info: "list_all defined_code (fst (Get_Fan_Info drv fl index d))"
proof -
  have "list_all defined_code (fst (for_loop 0 n (fan_body drv index d)))" for n
    by (intro events_for_loop) (simp add: fan_body_def stmt_defs)
  then show ?thesis
    by (simp add: Get_Fan_Info_def fst_seq_cases query_or_fail_def debug_def)
qed

lemma defined_code_Get_Clock_Info: "list_all defined_code (fst (Get_Clock_Info drv index d))"
  unfolding Get_Clock_Info_def clock_body_def
  by (intro events_for_loop events_seq)
    (simp_all add: clock_id_body_def query_switch_def small_codes)

lemma defined_code_Get_Temperature_Info:
  "list_all defined_code (fst (Get_Temperature_Info drv index d))"
  "list_all defined_code (fst (Get_Temperature_Info_linux drv index d))"
  unfolding Get_Temperature_Info_def Get_Temperature_Info_linux_def
  by (intro events_for_loop,
      simp add: temperature_body_def temperature_body_linux_def stmt_defs small_codes)+

lemma defined_code_simple_sections:
  "list_all defined_code (fst (Get_Sys_Info drv fl))"
  "list_all defined_code (fst (Get_GPU_Info drv fl index d))"
  "list_all defined_code (fst (Get_Compute_Mode drv index d))"
  "list_all defined_code (fst (Get_Performance_State drv index d))"
  "list_all defined_code (fst (Get_Persistence_Mode drv index d))"
  "list_all defined_code (fst (Get_GPU_Utilization drv index d))"
  "list_all defined_code (fst (Get_Memory_Info drv index d))"
  "list_all defined_code (fst (Get_Power_Usage_linux drv index d))"
  "list_all defined_code (fst (Get_Power_Info drv index d))"
  by (simp_all add: Get_Sys_Info_def Get_GPU_Info_def Get_Compute_Mode_def
      Get_Performance_State_def Get_Persistence_Mode_def
      Get_GPU_Utilization_def Get_Memory_Info_def Get_Power_Usage_linux_def Get_Power_Info_def
      stmt_defs)

lemma defined_code_device_body:
  "list_all defined_code (fst (device_body drv fl index d))"
  "list_all defined_code (fst (device_body_linux drv fl index d))"
  unfolding device_body_def device_body_linux_def
  by (intro events_run_all_Cons events_run_all_Nil
      defined_code_Get_Fan_Info defined_code_Get_Clock_Info defined_code_Get_Temperature_Info
      defined_code_simple_sections)+

lemma defined_code_Update_with:
  assumes b: "body = device_body \<or> body = device_body_linux"
  shows "list_all defined_code (fst (Update_with body drv fl))"
proof -
  have body: "list_all defined_code (fst (body drv fl index d))" for index d
    using b defined_code_device_body by blast
  have en: "list_all defined_code (fst (enumerate_devices drv))"
    by (rule events_enumerate_devices) simp_all
  have "list_all defined_code (fst (poll body drv fl))"
  proof (cases "snd (enumerate_devices drv)")
    case (Inl e)
    then show ?thesis using en by (simp add: poll_fail)
  next
    case (Inr devices)
    have "list_all defined_code
        (fst (seq (Get_Sys_Info drv fl) (range_devices body drv fl 0 devices)))"
      by (intro events_seq defined_code_simple_sections events_range_devices body)
    then show ?thesis using en by (simp add: poll_step [OF Inr])
  qed
  then show ?thesis
    by (cases "Init drv = SUCCESS") (simp_all add: Update_with_step Update_with_fail deferred_def)
qed

subsection \<open>Calls with a switch, and the temperature call\<close>

lemma Update_all_accepted:
  assumes ok: "list_all (\<lambda>c'. c' = Call_Shutdown \<or> accepted drv c') (calls (fst (Update drv fl)))"
  shows "snd (Update drv fl) = None"
proof (rule ccontr)
  assume "snd (Update drv fl) \<noteq> None"
  then obtain e where "snd (Update_with device_body drv fl) = Some e"
    by (auto simp: Update_def)
  then obtain pre' c' where "fst (Update_with device_body drv fl) =
      pre' @ Query c' # (if pre' = [] then [] else deferred drv)"
    "c' \<noteq> Call_Shutdown" "\<not> accepted drv c'"
    using Update_with_blame [of device_body drv fl e] by auto
  then have "c' \<in> set (calls (fst (Update drv fl)))" "c' \<noteq> Call_Shutdown" "\<not> accepted drv c'"
    by (simp_all add: Update_def)
  then show False using ok by (auto simp: list_all_iff)
qed

lemma Update_soft_call:
  assumes "fst (Update drv fl) = pre @ Query c # post" and "soft c"
  shows "(status drv c = ERROR_NOT_SUPPORTED \<longrightarrow>
            (\<exists>msg c' rest. post = LogDebug msg # Query c' # rest \<and> c' \<noteq> Call_Shutdown)) \<and>
         (status drv c = SUCCESS \<longrightarrow>
            (\<exists>m rest. post = Emit m # rest \<and> follow_up drv c m)) \<and>
         (status drv c \<noteq> ERROR_NOT_SUPPORTED \<and> status drv c \<noteq> SUCCESS \<longrightarrow>
            post = deferred drv \<and>
            (\<exists>msg. snd (Update drv fl) = Some (Errorf msg (status drv c))))"
proof -
  have c: "c \<noteq> Call_Shutdown" "emitting c" "c \<noteq> Call_Init"
    using assms(2) by (cases c; simp)+
  have occ: "fst (Update_with device_body drv fl) = pre @ Query c # post"
    using assms(1) by (simp add: Update_def)
  have pre: "pre \<noteq> []"
    using occ c(1,3) by (cases rule: Update_with_occurrence) simp_all
  note r = Update_with_reaction [of drv device_body fl pre c post, OF handled_device_body occ c(1)]
  show ?thesis
    using r c(2) assms(2) pre by (auto simp: accepted_def Update_def)
qed

lemma Update_temperature_call:
  assumes "U = Update \<or> U = Update_linux"
    and "fst (U drv fl) = pre @ Query (Call_GetTemperature d t) # post"
  shows "(status drv (Call_GetTemperature d t) \<noteq> SUCCESS \<longrightarrow>
            post = deferred drv \<and>
            (\<exists>msg. snd (U drv fl) = Some (Errorf msg (status drv (Call_GetTemperature d t))))) \<and>
         (status drv (Call_GetTemperature d t) = SUCCESS \<longrightarrow>
            (\<exists>index rest. post =
               Emit (MustNewConstMetric gpuTemp GaugeValue (fst (GetTemperature drv d t))
                 [index, getTemperatureSensorString t]) # rest)) \<and>
         length (filter (\<lambda>m. desc m = gpuTemp) (observations (fst (U drv fl)))) =
           length (filter (good_temperature_call drv) (calls (fst (U drv fl))))"
  using assms(1)
proof (cases rule: Update_cases)
  case (1 body)
  let ?c = "Call_GetTemperature d t"
  have occ: "fst (Update_with body drv fl) = pre @ Query ?c # post"
    using assms(2) 1(1) by simp
  have pre: "pre \<noteq> []"
    using occ by (cases rule: Update_with_occurrence) simp_all
  note r = Update_with_reaction [of drv body fl pre ?c post, OF handled_bodies [OF 1(2)] occ]
  have a: "status drv ?c \<noteq> SUCCESS \<longrightarrow> post = deferred drv \<and>
      (\<exists>msg. snd (Update_with body drv fl) = Some (Errorf msg (status drv ?c)))"
    using r(3) pre by (simp add: accepted_def)
  have b: "status drv ?c = SUCCESS \<longrightarrow> (\<exists>m rest. post = Emit m # rest \<and> follow_up drv ?c m)"
    using r(1) by simp
  have shape: "follow_up drv ?c m \<Longrightarrow> poll_event fl (Emit m) \<Longrightarrow>
      \<exists>index. m = MustNewConstMetric gpuTemp GaugeValue (fst (GetTemperature drv d t))
                 [index, getTemperatureSensorString t]" for m
    by (cases m; cases "labelValues m"; cases "tl (labelValues m)")
      (auto simp: MustNewConstMetric_def)
  have ev: "poll_event fl (Emit m)" if "post = Emit m # rest" for m rest
  proof -
    have "Emit m \<in> set (fst (Update_with body drv fl))"
      using occ that by simp
    then show ?thesis
      using Update_with_events [OF 1(2), of fl drv, unfolded list_all_iff] by auto
  qed
  have b': "status drv ?c = SUCCESS \<longrightarrow> (\<exists>index rest. post =
      Emit (MustNewConstMetric gpuTemp GaugeValue (fst (GetTemperature drv d t))
        [index, getTemperatureSensorString t]) # rest)"
    using b shape ev by blast
  show ?thesis
    unfolding 1(1) using a b' Update_with_temperature_count [OF 1(2), of drv fl] by blast
qed

section \<open>The poll as a whole\<close>

text \<open>
  Claim C2. In both versions of \<^verbatim>\<open>Update\<close>: the trace of a poll holds the call of
  \<^verbatim>\<open>nvml.Shutdown\<close> exactly once when \<^verbatim>\<open>nvml.Init\<close> succeeded (and not at all when it
  failed), as the last call, after everything else. A call other than the release
  whose status is not accepted (not \<^verbatim>\<open>SUCCESS\<close>, and not \<^verbatim>\<open>ERROR_NOT_SUPPORTED\<close> on a
  call handled by a \<^verbatim>\<open>switch\<close>) is followed by nothing but the deferred release, and the
  poll returns an error carrying that status. The status of \<^verbatim>\<open>nvml.Shutdown\<close> never
  changes the result of the poll: a failed release is the last log line and nothing
  else. Conversely an error of the poll is always the error of such a call, the last
  one before the release.
\<close>

theorem release_runs_exactly_once:
  assumes "U = Update \<or> U = Update_linux"
  shows "length (filter (\<lambda>e. e = Query Call_Shutdown) (fst (U drv fl))) =
           (if Init drv = SUCCESS then 1 else 0) \<and>
         (Init drv = SUCCESS \<longrightarrow>
            (\<exists>t. fst (U drv fl) = t @ deferred drv \<and> Query Call_Shutdown \<notin> set t)) \<and>
         (fst (U drv fl) = pre @ Query c # post \<and> c \<noteq> Call_Shutdown \<and> \<not> accepted drv c \<longrightarrow>
            post = (if pre = [] then [] else deferred drv) \<and>
            (\<exists>msg. snd (U drv fl) = Some (Errorf msg (status drv c)))) \<and>
         snd (U (drv\<lparr>Shutdown := r\<rparr>) fl) = snd (U drv fl) \<and>
         (Init drv = SUCCESS \<and> Shutdown drv \<noteq> SUCCESS \<longrightarrow>
            last (fst (U drv fl)) = LogError ''unable to shutdown NVML: '' (Shutdown drv)) \<and>
         (snd (U drv fl) = Some e \<longrightarrow>
            (\<exists>pre' c' msg. fst (U drv fl) =
                 pre' @ Query c' # (if pre' = [] then [] else deferred drv) \<and>
               c' \<noteq> Call_Shutdown \<and> \<not> accepted drv c' \<and> e = Errorf msg (status drv c')))"
  using assms
proof (cases rule: Update_cases)
  case (1 body)
  note b = 1(2)
  have one: "length (filter (\<lambda>e. e = Query Call_Shutdown) (fst (Update_with body drv fl))) =
           (if Init drv = SUCCESS then 1 else 0)"
    by (rule Update_with_Shutdown_count [OF b])
  have two: "Init drv = SUCCESS \<longrightarrow>
      (\<exists>t. fst (Update_with body drv fl) = t @ deferred drv \<and> Query Call_Shutdown \<notin> set t)"
    using Update_with_release_last [OF b] by blast
  have three: "fst (Update_with body drv fl) = pre @ Query c # post \<and> c \<noteq> Call_Shutdown \<and>
      \<not> accepted drv c \<longrightarrow>
        post = (if pre = [] then [] else deferred drv) \<and>
        (\<exists>msg. snd (Update_with body drv fl) = Some (Errorf msg (status drv c)))"
    using Update_with_reaction(3) [of drv body fl pre c post] handled_bodies [OF b] by blast
  have four: "snd (Update_with body (drv\<lparr>Shutdown := r\<rparr>) fl) = snd (Update_with body drv fl)"
    by (simp add: Update_with_def poll_Shutdown_update [OF b] split: prod.splits)
  have five: "Init drv = SUCCESS \<and> Shutdown drv \<noteq> SUCCESS \<longrightarrow>
      last (fst (Update_with body drv fl)) = LogError ''unable to shutdown NVML: '' (Shutdown drv)"
    by (simp add: Update_with_step deferred_def)
  have six: "snd (Update_with body drv fl) = Some e \<longrightarrow>
      (\<exists>pre' c' msg. fst (Update_with body drv fl) =
           pre' @ Query c' # (if pre' = [] then [] else deferred drv) \<and>
         c' \<noteq> Call_Shutdown \<and> \<not> accepted drv c' \<and> e = Errorf msg (status drv c'))"
    using Update_with_blame [OF b, of drv fl e] by (intro impI)
  show ?thesis
    unfolding 1(1) by (intro conjI one two three four five six)
qed

theorem release_runs_exactly_once_witness:
  "fst (Update (fake\<lparr>DeviceGetCount := (0, 1)\<rparr>) all_off) =
     [Query Call_Init] @ Query Call_DeviceGetCount # [Query Call_Shutdown] \<and>
   Call_DeviceGetCount \<noteq> Call_Shutdown \<and>
   \<not> accepted (fake\<lparr>DeviceGetCount := (0, 1)\<rparr>) Call_DeviceGetCount \<and>
   Init (fake\<lparr>DeviceGetCount := (0, 1)\<rparr>) = SUCCESS \<and>
   [Query Call_Shutdown] = deferred (fake\<lparr>DeviceGetCount := (0, 1)\<rparr>) \<and>
   (\<exists>msg. snd (Update (fake\<lparr>DeviceGetCount := (0, 1)\<rparr>) all_off) = Some (Errorf msg 1)) \<and>
   length (filter (\<lambda>e. e = Query Call_Shutdown)
     (fst (Update (fake\<lparr>DeviceGetCount := (0, 1)\<rparr>) all_off))) = 1"
proof -
  let ?d = "fake\<lparr>DeviceGetCount := (0, 1)\<rparr>"
  have tr: "fst (Update ?d all_off) =
      [Query Call_Init] @ Query Call_DeviceGetCount # [Query Call_Shutdown]"
    by code_simp
  have na: "\<not> accepted ?d Call_DeviceGetCount"
    by code_simp
  have init: "Init ?d = SUCCESS"
    by code_simp
  have st: "status ?d Call_DeviceGetCount = 1"
    by code_simp
  note t = release_runs_exactly_once [OF disjI1 [OF refl], where drv = "?d" and fl = all_off
      and pre = "[Query Call_Init]" and c = Call_DeviceGetCount and post = "[Query Call_Shutdown]"]
  have c: "Call_DeviceGetCount \<noteq> Call_Shutdown" by simp
  from t have one: "length (filter (\<lambda>e. e = Query Call_Shutdown) (fst (Update ?d all_off))) =
      (if Init ?d = SUCCESS then 1 else 0)"
    by (rule conjunct1)
  note three = t [THEN conjunct2, THEN conjunct2, THEN conjunct1]
  from three tr na c have r: "[Query Call_Shutdown] = (if [Query Call_Init] = [] then [] else deferred ?d)"
    "\<exists>msg. snd (Update ?d all_off) = Some (Errorf msg (status ?d Call_DeviceGetCount))"
    by blast+
  from r(1) have d: "[Query Call_Shutdown] = deferred ?d" by simp
  from r(2) have e: "\<exists>msg. snd (Update ?d all_off) = Some (Errorf msg 1)"
    by (simp only: st)
  from one init have cnt:
    "length (filter (\<lambda>e. e = Query Call_Shutdown) (fst (Update ?d all_off))) = 1"
    by simp
  show ?thesis
    by (intro conjI tr c na init d e cnt)
qed

text \<open>
  Claim C3. Wherever a poll calls \<^verbatim>\<open>GetApplicationsClock\<close>, \<^verbatim>\<open>GetClock\<close> or
  \<^verbatim>\<open>GetEnforcedPowerLimit\<close> (the calls \<open>soft\<close> holds of): on \<^verbatim>\<open>ERROR_NOT_SUPPORTED\<close> the
  next event is a debug line, not an observation, and the poll goes on with another
  query; on \<^verbatim>\<open>SUCCESS\<close> the next event is the observation of that value, labelled with
  the clock type (and clock id); on any other status only the deferred release
  follows and the poll returns an error with that status. A poll all of whose calls
  were accepted returns no error. A poll that returns no error has made these calls for
  every enumerated device, every clock type of the binding and every clock id of the
  binding; and a poll never asks for a clock type or clock id the binding does not name.
\<close>

theorem unsupported_is_skipped:
  "(fst (Update drv fl) = pre @ Query c # post \<and> soft c \<longrightarrow>
      (status drv c = ERROR_NOT_SUPPORTED \<longrightarrow>
         (\<exists>msg c' rest. post = LogDebug msg # Query c' # rest \<and> c' \<noteq> Call_Shutdown)) \<and>
      (status drv c = SUCCESS \<longrightarrow>
         (\<exists>m rest. post = Emit m # rest \<and> follow_up drv c m)) \<and>
      (status drv c \<noteq> ERROR_NOT_SUPPORTED \<and> status drv c \<noteq> SUCCESS \<longrightarrow>
         post = deferred drv \<and>
         (\<exists>msg. snd (Update drv fl) = Some (Errorf msg (status drv c))))) \<and>
   (list_all (\<lambda>c'. c' = Call_Shutdown \<or> accepted drv c') (calls (fst (Update drv fl))) \<longrightarrow>
      snd (Update drv fl) = None) \<and>
   (snd (Update drv fl) = None \<and> snd (enumerate_devices drv) = Inr ds \<and> d \<in> set ds \<and>
    t \<in> known_ClockType \<and> tt \<in> known_ClockId \<longrightarrow>
      Call_GetApplicationsClock d t \<in> set (calls (fst (Update drv fl))) \<and>
      Call_GetClock d t tt \<in> set (calls (fst (Update drv fl))) \<and>
      Call_GetEnforcedPowerLimit d \<in> set (calls (fst (Update drv fl)))) \<and>
   (Call_GetApplicationsClock d' t' \<in> set (calls (fst (Update drv fl))) \<longrightarrow>
      t' \<in> known_ClockType) \<and>
   (Call_GetClock d' t' tt' \<in> set (calls (fst (Update drv fl))) \<longrightarrow>
      t' \<in> known_ClockType \<and> tt' \<in> known_ClockId)"
proof (intro conjI impI)
  assume a: "fst (Update drv fl) = pre @ Query c # post \<and> soft c"
  note m = Update_soft_call [OF conjunct1 [OF a] conjunct2 [OF a]]
  show "status drv c = ERROR_NOT_SUPPORTED \<Longrightarrow>
      \<exists>msg c' rest. post = LogDebug msg # Query c' # rest \<and> c' \<noteq> Call_Shutdown"
    using m [THEN conjunct1] by (rule mp)
  show "status drv c = SUCCESS \<Longrightarrow> \<exists>m rest. post = Emit m # rest \<and> follow_up drv c m"
    using m [THEN conjunct2, THEN conjunct1] by (rule mp)
  assume h: "status drv c \<noteq> ERROR_NOT_SUPPORTED \<and> status drv c \<noteq> SUCCESS"
  note f = m [THEN conjunct2, THEN conjunct2, THEN mp, OF h]
  show "post = deferred drv"
    using f by (rule conjunct1)
  show "\<exists>msg. snd (Update drv fl) = Some (Errorf msg (status drv c))"
    using f by (rule conjunct2)
next
  assume "list_all (\<lambda>c'. c' = Call_Shutdown \<or> accepted drv c') (calls (fst (Update drv fl)))"
  then show "snd (Update drv fl) = None"
    by (rule Update_all_accepted)
next
  assume a: "snd (Update drv fl) = None \<and> snd (enumerate_devices drv) = Inr ds \<and> d \<in> set ds \<and>
    t \<in> known_ClockType \<and> tt \<in> known_ClockId"
  then have "\<exists>index. snd (device_body drv fl index d) = None \<and>
      set (fst (device_body drv fl index d)) \<subseteq> set (fst (Update_with device_body drv fl))"
    by (intro reached_Update_with [where ds = ds]) (simp_all add: Update_def)
  then obtain index where i: "snd (device_body drv fl index d) = None"
    "set (fst (device_body drv fl index d)) \<subseteq> set (fst (Update drv fl))"
    by (auto simp: Update_def)
  have t: "t \<in> known_ClockType" "tt \<in> known_ClockId"
    using a by simp_all
  show "Call_GetApplicationsClock d t \<in> set (calls (fst (Update drv fl)))"
    "Call_GetClock d t tt \<in> set (calls (fst (Update drv fl)))"
    "Call_GetEnforcedPowerLimit d \<in> set (calls (fst (Update drv fl)))"
    using clock_calls_device_body [OF i(1) t] i(2) by (auto simp: in_calls)
next
  note dc = defined_code_Update_with [OF disjI1 [OF refl], of drv fl, unfolded list_all_iff]
  {
    assume "Call_GetApplicationsClock d' t' \<in> set (calls (fst (Update drv fl)))"
    then have "defined_code (Query (Call_GetApplicationsClock d' t'))"
      using dc by (auto simp: in_calls Update_def)
    then show "t' \<in> known_ClockType" by simp
  }
  assume "Call_GetClock d' t' tt' \<in> set (calls (fst (Update drv fl)))"
  then have "defined_code (Query (Call_GetClock d' t' tt'))"
    using dc by (auto simp: in_calls Update_def)
  then show "t' \<in> known_ClockType" "tt' \<in> known_ClockId" by simp_all
qed

theorem unsupported_is_skipped_witness:
  "soft (Call_GetApplicationsClock (Handle 0) 0) \<and>
   status (fake\<lparr>GetApplicationsClock := \<lambda>d t. (0, ERROR_NOT_SUPPORTED)\<rparr>)
     (Call_GetApplicationsClock (Handle 0) 0) = ERROR_NOT_SUPPORTED \<and>
   (\<exists>msg c' rest.
      drop 4 (fst (Update (fake\<lparr>GetApplicationsClock := \<lambda>d t. (0, ERROR_NOT_SUPPORTED)\<rparr>)
        all_off)) = LogDebug msg # Query c' # rest \<and> c' \<noteq> Call_Shutdown) \<and>
   status fake (Call_GetApplicationsClock (Handle 0) 0) = SUCCESS \<and>
   (\<exists>m rest. drop 4 (fst (Update fake all_off)) = Emit m # rest \<and>
      follow_up fake (Call_GetApplicationsClock (Handle 0) 0) m) \<and>
   status (fake\<lparr>GetApplicationsClock := \<lambda>d t. (0, 1)\<rparr>)
     (Call_GetApplicationsClock (Handle 0) 0) = 1 \<and>
   drop 4 (fst (Update (fake\<lparr>GetApplicationsClock := \<lambda>d t. (0, 1)\<rparr>) all_off)) =
     deferred (fake\<lparr>GetApplicationsClock := \<lambda>d t. (0, 1)\<rparr>) \<and>
   (\<exists>msg. snd (Update (fake\<lparr>GetApplicationsClock := \<lambda>d t. (0, 1)\<rparr>) all_off) =
      Some (Errorf msg 1)) \<and>
   snd (Update fake all_off) = None \<and>
   snd (enumerate_devices fake) = Inr [Handle 0] \<and>
   Call_GetClock (Handle 0) 3 2 \<in> set (calls (fst (Update fake all_off))) \<and>
   Call_GetEnforcedPowerLimit (Handle 0) \<in> set (calls (fst (Update fake all_off)))"
proof -
  let ?c = "Call_GetApplicationsClock (Handle 0) 0"
  let ?pre = "[Query Call_Init, Query Call_DeviceGetCount, Query (Call_DeviceGetHandleByIndex 0)]"
  let ?d1 = "fake\<lparr>GetApplicationsClock := \<lambda>d t. (0, ERROR_NOT_SUPPORTED)\<rparr>"
  let ?d2 = "fake\<lparr>GetApplicationsClock := \<lambda>d t. (0, 1)\<rparr>"
  have s: "soft ?c" by simp
  have tr1: "fst (Update ?d1 all_off) = ?pre @ Query ?c # drop 4 (fst (Update ?d1 all_off))"
    by code_simp
  have st1: "status ?d1 ?c = ERROR_NOT_SUPPORTED"
    by code_simp
  have tr0: "fst (Update fake all_off) = ?pre @ Query ?c # drop 4 (fst (Update fake all_off))"
    by code_simp
  have st0: "status fake ?c = SUCCESS"
    by code_simp
  have tr2: "fst (Update ?d2 all_off) = ?pre @ Query ?c # drop 4 (fst (Update ?d2 all_off))"
    by code_simp
  have st2: "status ?d2 ?c = 1" "status ?d2 ?c \<noteq> ERROR_NOT_SUPPORTED" "status ?d2 ?c \<noteq> SUCCESS"
    by code_simp+
  have ok: "list_all (\<lambda>c'. c' = Call_Shutdown \<or> accepted fake c') (calls (fst (Update fake all_off)))"
    by code_simp
  have en: "snd (enumerate_devices fake) = Inr [Handle 0]"
    by code_simp
  have codes: "3 \<in> known_ClockType" "2 \<in> known_ClockId"
    by (simp_all add: known_ClockType_def known_ClockId_def nvml_consts)
  note t1 = unsupported_is_skipped [THEN conjunct1, THEN mp, OF conjI [OF tr1 s]]
  note t0 = unsupported_is_skipped [THEN conjunct1, THEN mp, OF conjI [OF tr0 s]]
  note t2 = unsupported_is_skipped [THEN conjunct1, THEN mp, OF conjI [OF tr2 s]]
  have a: "\<exists>msg c' rest. drop 4 (fst (Update ?d1 all_off)) = LogDebug msg # Query c' # rest \<and>
      c' \<noteq> Call_Shutdown"
    using t1 [THEN conjunct1] st1 by (rule mp)
  have b: "\<exists>m rest. drop 4 (fst (Update fake all_off)) = Emit m # rest \<and> follow_up fake ?c m"
    using t0 [THEN conjunct2, THEN conjunct1] st0 by (rule mp)
  note c = t2 [THEN conjunct2, THEN conjunct2, THEN mp, OF conjI [OF st2(2,3)]]
  have c2: "\<exists>msg. snd (Update ?d2 all_off) = Some (Errorf msg 1)"
    using c [THEN conjunct2] by (simp only: st2(1))
  have d: "snd (Update fake all_off) = None"
    using unsupported_is_skipped [where drv = fake and fl = all_off,
        THEN conjunct2, THEN conjunct1] ok
    by (rule mp)
  have "Handle 0 \<in> set [Handle 0]" by simp
  note e = unsupported_is_skipped [where drv = fake and fl = all_off and d = "Handle 0"
      and t = 3 and tt = 2, THEN conjunct2, THEN conjunct2, THEN conjunct1, THEN mp,
      OF conjI [OF d conjI [OF en conjI [OF this conjI [OF codes]]]]]
  show ?thesis
    by (intro conjI s st1 a st0 b st2(1) conjunct1 [OF c] c2 d en
        e [THEN conjunct2, THEN conjunct1] e [THEN conjunct2, THEN conjunct2])
qed

text \<open>
  Claim C4 against the code. With the fan family on and two fans, all calls
  succeeding, both versions of \<^verbatim>\<open>Update\<close> send the minimum and the maximum fan speed
  once for each fan, so twice for the device, each time with the same label; the
  claim expects each once. Two \<^verbatim>\<open>fan_speed\<close> observations are sent, one per fan, and
  with no fan there is no fan observation and no error, as the claim says.
\<close>

theorem min_max_fan_speed_sent_per_fan:
  "fst (GetNumFans fake (Handle 0)) = 2 \<and>
   snd (Update fake
      \<lparr>enableNVGPUSysInfo = False, enableNVGPUInfo = False, enableNVGPUFan = True\<rparr>) = None \<and>
   take 6 (observations (fst (Update fake
      \<lparr>enableNVGPUSysInfo = False, enableNVGPUInfo = False, enableNVGPUFan = True\<rparr>))) =
     [MustNewConstMetric gpuMinFanSpeed GaugeValue 30 [''0''],
      MustNewConstMetric gpuMaxFanSpeed GaugeValue 100 [''0''],
      MustNewConstMetric gpuFanSpeed GaugeValue 40 [''0'', ''0''],
      MustNewConstMetric gpuMinFanSpeed GaugeValue 30 [''0''],
      MustNewConstMetric gpuMaxFanSpeed GaugeValue 100 [''0''],
      MustNewConstMetric gpuFanSpeed GaugeValue 41 [''0'', ''1'']] \<and>
   length (filter (\<lambda>m. desc m = gpuMinFanSpeed) (observations (fst (Update fake
      \<lparr>enableNVGPUSysInfo = False, enableNVGPUInfo = False, enableNVGPUFan = True\<rparr>)))) = 2 \<and>
   length (filter (\<lambda>m. desc m = gpuMaxFanSpeed) (observations (fst (Update fake
      \<lparr>enableNVGPUSysInfo = False, enableNVGPUInfo = False, enableNVGPUFan = True\<rparr>)))) = 2 \<and>
   length (filter (\<lambda>m. desc m = gpuFanSpeed) (observations (fst (Update fake
      \<lparr>enableNVGPUSysInfo = False, enableNVGPUInfo = False, enableNVGPUFan = True\<rparr>)))) = 2 \<and>
   length (filter (\<lambda>m. desc m = gpuMinFanSpeed) (observations (fst (Update_linux fake
      \<lparr>enableNVGPUSysInfo = False, enableNVGPUInfo = False, enableNVGPUFan = True\<rparr>)))) = 2 \<and>
   length (filter (\<lambda>m. desc m = gpuMaxFanSpeed) (observations (fst (Update_linux fake
      \<lparr>enableNVGPUSysInfo = False, enableNVGPUInfo = False, enableNVGPUFan = True\<rparr>)))) = 2 \<and>
   snd (Update (fake\<lparr>GetNumFans := \<lambda>d. (0, SUCCESS)\<rparr>)
      \<lparr>enableNVGPUSysInfo = False, enableNVGPUInfo = False, enableNVGPUFan = True\<rparr>) = None \<and>
   filter (\<lambda>m. desc_family (desc m) = Some Fan)
     (observations (fst (Update (fake\<lparr>GetNumFans := \<lambda>d. (0, SUCCESS)\<rparr>)
        \<lparr>enableNVGPUSysInfo = False, enableNVGPUInfo = False, enableNVGPUFan = True\<rparr>))) = []"
proof -
  let ?fl = "\<lparr>enableNVGPUSysInfo = False, enableNVGPUInfo = False, enableNVGPUFan = True\<rparr>"
  have a: "fst (GetNumFans fake (Handle 0)) = 2"
    by code_simp
  have b: "snd (Update fake ?fl) = None"
    by code_simp
  have c: "take 6 (observations (fst (Update fake ?fl))) =
     [MustNewConstMetric gpuMinFanSpeed GaugeValue 30 [''0''],
      MustNewConstMetric gpuMaxFanSpeed GaugeValue 100 [''0''],
      MustNewConstMetric gpuFanSpeed GaugeValue 40 [''0'', ''0''],
      MustNewConstMetric gpuMinFanSpeed GaugeValue 30 [''0''],
      MustNewConstMetric gpuMaxFanSpeed GaugeValue 100 [''0''],
      MustNewConstMetric gpuFanSpeed GaugeValue 41 [''0'', ''1'']]"
    by code_simp
  have d: "length (filter (\<lambda>m. desc m = gpuMinFanSpeed) (observations (fst (Update fake ?fl)))) = 2"
    by code_simp
  have e: "length (filter (\<lambda>m. desc m = gpuMaxFanSpeed) (observations (fst (Update fake ?fl)))) = 2"
    by code_simp
  have f: "length (filter (\<lambda>m. desc m = gpuFanSpeed) (observations (fst (Update fake ?fl)))) = 2"
    by code_simp
  have g: "length (filter (\<lambda>m. desc m = gpuMinFanSpeed)
      (observations (fst (Update_linux fake ?fl)))) = 2"
    by code_simp
  have h: "length (filter (\<lambda>m. desc m = gpuMaxFanSpeed)
      (observations (fst (Update_linux fake ?fl)))) = 2"
    by code_simp
  have i: "snd (Update (fake\<lparr>GetNumFans := \<lambda>d. (0, SUCCESS)\<rparr>) ?fl) = None"
    by code_simp
  have j: "filter (\<lambda>m. desc_family (desc m) = Some Fan)
      (observations (fst (Update (fake\<lparr>GetNumFans := \<lambda>d. (0, SUCCESS)\<rparr>) ?fl))) = []"
    by code_simp
  show ?thesis
    by (intro conjI a b c d e f g h i j)
qed

theorem min_max_fan_speed_sent_per_fan_witness:
  "length (filter (\<lambda>m. desc m = gpuMinFanSpeed) (observations (fst (Update fake
      \<lparr>enableNVGPUSysInfo = False, enableNVGPUInfo = False, enableNVGPUFan = True\<rparr>)))) \<noteq> 1"
proof -
  have "length (filter (\<lambda>m. desc m = gpuMinFanSpeed) (observations (fst (Update fake
      \<lparr>enableNVGPUSysInfo = False, enableNVGPUInfo = False, enableNVGPUFan = True\<rparr>)))) = 2"
    using min_max_fan_speed_sent_per_fan by (elim conjE)
  then show ?thesis by simp
qed

text \<open>
  Claim C5. The version label is the decimal of \<open>raw / 1000\<close>, a dot, and the decimal of
  \<open>(raw % 1000) / 10\<close>, with Go's truncating operators (\<open>sdiv\<close>, \<open>smod\<close>), which on
  a packed version (never negative) are \<open>div\<close> and \<open>mod\<close>; it recovers major and minor
  from \<open>1000 * major + 10 * minor\<close>; 11070 gives \<open>''11.7''\<close> and 12020 gives \<open>''12.2''\<close>.
  It is the second label of the one observation of the system family.
\<close>

theorem cuda_version_string:
  "cudaV raw = Itoa (raw sdiv 1000) @ ''.'' @ Itoa ((raw smod 1000) sdiv 10) \<and>
   (0 \<le> raw \<longrightarrow> cudaV raw = Itoa (raw div 1000) @ ''.'' @ Itoa (raw mod 1000 div 10)) \<and>
   (0 \<le> major \<and> 0 \<le> minor \<and> minor < 100 \<longrightarrow>
      cudaV (1000 * major + 10 * minor) = Itoa major @ ''.'' @ Itoa minor) \<and>
   cudaV 11070 = ''11.7'' \<and> cudaV 12020 = ''12.2'' \<and>
   (enableNVGPUSysInfo fl \<and> snd (SystemGetDriverVersion drv) = SUCCESS \<and>
    SystemGetCudaDriverVersion_v2 drv = (raw, SUCCESS) \<and>
    snd (SystemGetNVMLVersion drv) = SUCCESS \<longrightarrow>
      observations (fst (Get_Sys_Info drv fl)) =
        [MustNewConstMetric gpuSysInfo GaugeValue 1
           [fst (SystemGetDriverVersion drv),
            Itoa (raw sdiv 1000) @ ''.'' @ Itoa ((raw smod 1000) sdiv 10),
            fst (SystemGetNVMLVersion drv)]])"
proof -
  have a: "cudaV r = Itoa (r sdiv 1000) @ ''.'' @ Itoa ((r smod 1000) sdiv 10)" for r
    by (simp add: cudaV_def go_quo_sdiv go_rem_smod)
  have b: "cudaV r = Itoa (r div 1000) @ ''.'' @ Itoa (r mod 1000 div 10)" if "0 \<le> r" for r
    using that by (simp add: cudaV_def go_quo_nonneg go_rem_nonneg)
  have c: "cudaV (1000 * major + 10 * minor) = Itoa major @ ''.'' @ Itoa minor"
    if "0 \<le> major" "0 \<le> minor" "minor < 100"
  proof -
    have "(1000 * major + 10 * minor) div 1000 = major"
      using that by (simp add: div_pos_pos_trivial)
    moreover have "(1000 * major + 10 * minor) mod 1000 = 10 * minor"
      using that by (simp add: mod_pos_pos_trivial)
    ultimately show ?thesis
      using that by (simp add: b)
  qed
  have d: "cudaV 11070 = ''11.7''" "cudaV 12020 = ''12.2''"
    by (simp_all add: b Itoa_def decimal.simps digit_def)
  have e: "observations (fst (Get_Sys_Info drv fl)) =
        [MustNewConstMetric gpuSysInfo GaugeValue 1
           [fst (SystemGetDriverVersion drv),
            Itoa (raw sdiv 1000) @ ''.'' @ Itoa ((raw smod 1000) sdiv 10),
            fst (SystemGetNVMLVersion drv)]]"
    if "enableNVGPUSysInfo fl" "snd (SystemGetDriverVersion drv) = SUCCESS"
      "SystemGetCudaDriverVersion_v2 drv = (raw, SUCCESS)" "snd (SystemGetNVMLVersion drv) = SUCCESS"
    using that by (simp add: Get_Sys_Info_def seq_def query_or_fail_def emit_def a)
  from a [of raw] b [of raw] c d e show ?thesis by blast
qed

theorem cuda_version_string_witness:
  "(0::int) \<le> 11070 \<and> cudaV 11070 = Itoa 11 @ ''.'' @ Itoa 7 \<and>
   (0::int) \<le> 12 \<and> (0::int) \<le> 2 \<and> (2::int) < 100 \<and> cudaV (1000 * 12 + 10 * 2) = ''12.2'' \<and>
   enableNVGPUSysInfo all_on \<and> snd (SystemGetDriverVersion fake) = SUCCESS \<and>
   SystemGetCudaDriverVersion_v2 fake = (12020, SUCCESS) \<and>
   snd (SystemGetNVMLVersion fake) = SUCCESS \<and>
   observations (fst (Get_Sys_Info fake all_on)) =
     [MustNewConstMetric gpuSysInfo GaugeValue 1 [''535.54.03'', ''12.2'', ''12.535.54.03'']]"
proof -
  note t = cuda_version_string [where raw = 11070 and major = 12 and minor = 2]
  have a: "cudaV 11070 = Itoa 11 @ ''.'' @ Itoa 7"
    using t [THEN conjunct2, THEN conjunct1] by simp
  have b: "cudaV (1000 * 12 + 10 * 2) = ''12.2''"
    using t [THEN conjunct2, THEN conjunct2, THEN conjunct1]
    by (simp add: Itoa_def decimal.simps digit_def)
  have h: "enableNVGPUSysInfo all_on" "snd (SystemGetDriverVersion fake) = SUCCESS"
    "SystemGetCudaDriverVersion_v2 fake = (12020, SUCCESS)"
    "snd (SystemGetNVMLVersion fake) = SUCCESS"
    by (simp_all add: all_on_def fake_def)
  have v: "fst (SystemGetDriverVersion fake) = ''535.54.03''"
    "fst (SystemGetNVMLVersion fake) = ''12.535.54.03''"
    "Itoa (12020 sdiv 1000) @ ''.'' @ Itoa ((12020 smod 1000) sdiv 10) = ''12.2''"
    by (simp_all add: fake_def Itoa_def decimal.simps digit_def signed_divide_int_def
        signed_modulo_int_def)
  have c: "observations (fst (Get_Sys_Info fake all_on)) =
     [MustNewConstMetric gpuSysInfo GaugeValue 1 [''535.54.03'', ''12.2'', ''12.535.54.03'']]"
    using cuda_version_string [where raw = 12020 and drv = fake and fl = all_on,
        THEN conjunct2, THEN conjunct2, THEN conjunct2, THEN conjunct2, THEN conjunct2,
        THEN mp, OF conjI [OF h(1) conjI [OF h(2) conjI [OF h(3) h(4)]]]]
    by (simp only: v)
  show ?thesis
    using a b h c by simp
qed

text \<open>
  Claim C6. When the count query answers \<open>N\<close> and the handle of every index below
  \<open>N\<close> resolves, enumeration returns exactly \<open>N\<close> devices, the \<open>j\<close>-th being the handle
  of index \<open>j\<close>. The observations of the poll are then those of the system family
  followed by those of the loop body for device 0, 1, ... in this order, the body of
  device \<open>j\<close> run with the label \<^verbatim>\<open>strconv.Itoa(j)\<close> (all \<open>N\<close> of them when the poll
  returns no error), and every observation of a loop body carries that label first.
  When the count query or a handle resolution fails, the poll returns an error and
  has sent no observation.
\<close>

theorem enumeration_indices:
  assumes "U = Update \<and> body = device_body \<or> U = Update_linux \<and> body = device_body_linux"
    and "N = fst (DeviceGetCount drv)"
  shows "(snd (DeviceGetCount drv) = SUCCESS \<and>
          (\<forall>j. 0 \<le> j \<and> j < N \<longrightarrow> snd (DeviceGetHandleByIndex drv j) = SUCCESS) \<longrightarrow>
            (\<exists>ds. snd (enumerate_devices drv) = Inr ds \<and> length ds = nat N \<and>
               (\<forall>j<nat N. ds ! j = fst (DeviceGetHandleByIndex drv (int j)))) \<and>
            (Init drv = SUCCESS \<longrightarrow>
               (\<exists>k\<le>nat N.
                  observations (fst (U drv fl)) =
                    observations (fst (Get_Sys_Info drv fl)) @
                    concat (map (\<lambda>j. observations (fst (body drv fl (Itoa (int j))
                      (fst (DeviceGetHandleByIndex drv (int j)))))) [0..<k]) \<and>
                  (snd (U drv fl) = None \<longrightarrow> k = nat N)))) \<and>
         (\<forall>m\<in>set (observations (fst (body drv fl index d))).
            labelValues m \<noteq> [] \<and> hd (labelValues m) = index) \<and>
         (snd (DeviceGetCount drv) \<noteq> SUCCESS \<or>
          (\<exists>j. 0 \<le> j \<and> j < N \<and> snd (DeviceGetHandleByIndex drv j) \<noteq> SUCCESS) \<longrightarrow>
            snd (U drv fl) \<noteq> None \<and> observations (fst (U drv fl)) = [])"
proof -
  have b: "body = device_body \<or> body = device_body_linux" and U: "U = Update_with body"
    using assms(1) by (auto simp: Update_def Update_linux_def)
  let ?h = "\<lambda>j. fst (DeviceGetHandleByIndex drv j)"
  let ?ds = "map ?h [0..N - 1]"
  have one: "(\<exists>ds. snd (enumerate_devices drv) = Inr ds \<and> length ds = nat N \<and>
               (\<forall>j<nat N. ds ! j = ?h (int j))) \<and>
            (Init drv = SUCCESS \<longrightarrow>
               (\<exists>k\<le>nat N.
                  observations (fst (U drv fl)) =
                    observations (fst (Get_Sys_Info drv fl)) @
                    concat (map (\<lambda>j. observations (fst (body drv fl (Itoa (int j))
                      (?h (int j))))) [0..<k]) \<and>
                  (snd (U drv fl) = None \<longrightarrow> k = nat N)))"
    if ok: "snd (DeviceGetCount drv) = SUCCESS"
      "\<forall>j. 0 \<le> j \<and> j < N \<longrightarrow> snd (DeviceGetHandleByIndex drv j) = SUCCESS"
  proof
    have en: "snd (enumerate_devices drv) = Inr ?ds"
      using enumerate_devices_success [of drv] ok assms(2) by simp
    have len: "length ?ds = nat N" by simp
    have nth: "?ds ! j = ?h (int j)" if "j < nat N" for j
      using that by (rule nth_enumerated)
    show "\<exists>ds. snd (enumerate_devices drv) = Inr ds \<and> length ds = nat N \<and>
        (\<forall>j<nat N. ds ! j = ?h (int j))"
      using en len nth by blast
    show "Init drv = SUCCESS \<longrightarrow>
       (\<exists>k\<le>nat N.
          observations (fst (U drv fl)) =
            observations (fst (Get_Sys_Info drv fl)) @
            concat (map (\<lambda>j. observations (fst (body drv fl (Itoa (int j)) (?h (int j)))))
              [0..<k]) \<and>
          (snd (U drv fl) = None \<longrightarrow> k = nat N))"
    proof
      assume init: "Init drv = SUCCESS"
      from range_devices_prefix [of ?ds body drv fl 0] obtain k where k: "k \<le> length ?ds"
        "fst (range_devices body drv fl 0 ?ds) =
           concat (map (\<lambda>j. fst (body drv fl (Itoa (0 + int j)) (?ds ! j))) [0..<k])"
        "snd (range_devices body drv fl 0 ?ds) = None \<longrightarrow> k = length ?ds"
        by (elim exE conjE)
      have eqmap: "map (\<lambda>j. observations (fst (body drv fl (Itoa (int j)) (?ds ! j)))) [0..<k] =
          map (\<lambda>j. observations (fst (body drv fl (Itoa (int j)) (?h (int j))))) [0..<k]"
        using k(1) nth by (intro map_cong) simp_all
      have "observations (fst (range_devices body drv fl 0 ?ds)) =
          concat (map observations
            (map (\<lambda>j. fst (body drv fl (Itoa (0 + int j)) (?ds ! j))) [0..<k]))"
        by (simp only: k(2) observations_concat)
      also have "\<dots> =
          concat (map (\<lambda>j. observations (fst (body drv fl (Itoa (int j)) (?ds ! j)))) [0..<k])"
        by (simp add: comp_def)
      finally have dev: "observations (fst (range_devices body drv fl 0 ?ds)) =
          concat (map (\<lambda>j. observations (fst (body drv fl (Itoa (int j)) (?h (int j)))))
            [0..<k])"
        by (simp only: eqmap)
      show "\<exists>k\<le>nat N.
          observations (fst (U drv fl)) =
            observations (fst (Get_Sys_Info drv fl)) @
            concat (map (\<lambda>j. observations (fst (body drv fl (Itoa (int j)) (?h (int j)))))
              [0..<k]) \<and>
          (snd (U drv fl) = None \<longrightarrow> k = nat N)"
      proof (cases "snd (Get_Sys_Info drv fl)")
        case None
        then have "observations (fst (U drv fl)) =
            observations (fst (Get_Sys_Info drv fl)) @
            concat (map (\<lambda>j. observations (fst (body drv fl (Itoa (int j)) (?h (int j)))))
              [0..<k])"
          "snd (U drv fl) = snd (range_devices body drv fl 0 ?ds)"
          using init dev
          by (simp_all add: U Update_with_step poll_step [OF en] seq_None
              observations_enumerate_devices observations_deferred)
        then show ?thesis using k(1,3) len by auto
      next
        case (Some e)
        then have "observations (fst (U drv fl)) =
            observations (fst (Get_Sys_Info drv fl)) @
            concat (map (\<lambda>j. observations (fst (body drv fl (Itoa (int j)) (?h (int j)))))
              [0..<0])"
          "snd (U drv fl) \<noteq> None"
          using init
          by (simp_all add: U Update_with_step poll_step [OF en] seq_Some
              observations_enumerate_devices observations_deferred)
        then show ?thesis by (intro exI [of _ 0]) auto
      qed
    qed
  qed
  have two: "\<forall>m\<in>set (observations (fst (body drv fl index d))).
      labelValues m \<noteq> [] \<and> hd (labelValues m) = index"
    by (intro ballI) (rule observations_bodies [OF b])
  have three: "snd (U drv fl) \<noteq> None \<and> observations (fst (U drv fl)) = []"
    if "snd (DeviceGetCount drv) \<noteq> SUCCESS \<or>
      (\<exists>j. 0 \<le> j \<and> j < N \<and> snd (DeviceGetHandleByIndex drv j) \<noteq> SUCCESS)"
  proof -
    have "\<exists>e. snd (enumerate_devices drv) = Inl e"
      by (rule enumerate_devices_failure) (use that assms(2) in simp)
    then obtain e where e: "snd (enumerate_devices drv) = Inl e"
      by (elim exE)
    show ?thesis
      by (cases "Init drv = SUCCESS")
        (simp_all add: U Update_with_step Update_with_fail poll_fail [OF e]
          observations_enumerate_devices observations_deferred)
  qed
  show ?thesis
  proof (intro conjI impI)
    assume "snd (DeviceGetCount drv) = SUCCESS \<and>
      (\<forall>j. 0 \<le> j \<and> j < N \<longrightarrow> snd (DeviceGetHandleByIndex drv j) = SUCCESS)"
    then have ok: "snd (DeviceGetCount drv) = SUCCESS"
      "\<forall>j. 0 \<le> j \<and> j < N \<longrightarrow> snd (DeviceGetHandleByIndex drv j) = SUCCESS"
      by (rule conjunct1, rule conjunct2)
    show "\<exists>ds. snd (enumerate_devices drv) = Inr ds \<and> length ds = nat N \<and>
        (\<forall>j<nat N. ds ! j = ?h (int j))"
      using one [OF ok] by (rule conjunct1)
    show "Init drv = SUCCESS \<Longrightarrow>
       \<exists>k\<le>nat N.
          observations (fst (U drv fl)) =
            observations (fst (Get_Sys_Info drv fl)) @
            concat (map (\<lambda>j. observations (fst (body drv fl (Itoa (int j)) (?h (int j)))))
              [0..<k]) \<and>
          (snd (U drv fl) = None \<longrightarrow> k = nat N)"
      using one [OF ok] by (elim conjE impE)
  next
    show "\<forall>m\<in>set (observations (fst (body drv fl index d))).
        labelValues m \<noteq> [] \<and> hd (labelValues m) = index"
      by (rule two)
  next
    assume f: "snd (DeviceGetCount drv) \<noteq> SUCCESS \<or>
      (\<exists>j. 0 \<le> j \<and> j < N \<and> snd (DeviceGetHandleByIndex drv j) \<noteq> SUCCESS)"
    show "snd (U drv fl) \<noteq> None" "observations (fst (U drv fl)) = []"
      using three [OF f] by (rule conjunct1, rule conjunct2)
  qed
qed

theorem enumeration_indices_witness:
  "snd (DeviceGetCount fake) = SUCCESS \<and>
   snd (DeviceGetHandleByIndex fake 0) = SUCCESS \<and>
   (\<exists>ds. snd (enumerate_devices fake) = Inr ds \<and> length ds = 1 \<and>
      ds ! 0 = fst (DeviceGetHandleByIndex fake 0)) \<and>
   observations (fst (Update fake all_off)) =
     observations (fst (device_body fake all_off ''0'' (Handle 0))) \<and>
   snd (DeviceGetHandleByIndex (fake\<lparr>DeviceGetHandleByIndex := \<lambda>i. (Handle 0, 1)\<rparr>) 0) \<noteq> SUCCESS \<and>
   snd (Update (fake\<lparr>DeviceGetHandleByIndex := \<lambda>i. (Handle 0, 1)\<rparr>) all_off) \<noteq> None \<and>
   observations (fst (Update (fake\<lparr>DeviceGetHandleByIndex := \<lambda>i. (Handle 0, 1)\<rparr>) all_off)) = []"
proof -
  let ?d = "fake\<lparr>DeviceGetHandleByIndex := \<lambda>i. (Handle 0, 1)\<rparr>"
  have n: "1 = fst (DeviceGetCount fake)" "1 = fst (DeviceGetCount ?d)"
    by (simp_all add: fake_def)
  have cnt: "snd (DeviceGetCount fake) = SUCCESS"
    by (simp add: fake_def)
  have h: "\<forall>j. 0 \<le> j \<and> j < 1 \<longrightarrow> snd (DeviceGetHandleByIndex fake j) = SUCCESS"
    by (simp add: fake_def)
  have h0: "snd (DeviceGetHandleByIndex fake 0) = SUCCESS"
    by (simp add: fake_def)
  have init: "Init fake = SUCCESS"
    by (simp add: fake_def)
  have res: "snd (Update fake all_off) = None"
    by code_simp
  have sys: "observations (fst (Get_Sys_Info fake all_off)) = []"
    by code_simp
  have bad: "snd (DeviceGetHandleByIndex ?d 0) \<noteq> SUCCESS"
    by (simp add: SUCCESS_def)
  note t = enumeration_indices [OF disjI1 [OF conjI [OF refl refl]], where fl = all_off]
  note ta = t [OF n(1), THEN conjunct1, THEN mp, OF conjI [OF cnt h]]
  from ta [THEN conjunct1] have a: "\<exists>ds. snd (enumerate_devices fake) = Inr ds \<and> length ds = 1 \<and>
      ds ! 0 = fst (DeviceGetHandleByIndex fake 0)"
    by auto
  from ta [THEN conjunct2, THEN mp, OF init] res sys
  have b: "observations (fst (Update fake all_off)) =
      observations (fst (device_body fake all_off ''0'' (Handle 0)))"
    by (auto simp: fake_def Itoa_def decimal.simps digit_def)
  have "snd (DeviceGetCount ?d) \<noteq> SUCCESS \<or>
      (\<exists>j. 0 \<le> j \<and> j < 1 \<and> snd (DeviceGetHandleByIndex ?d j) \<noteq> SUCCESS)"
    using bad by (intro disjI2 exI [of _ 0]) simp
  with t [OF n(2), THEN conjunct2, THEN conjunct2]
  have c: "snd (Update ?d all_off) \<noteq> None \<and> observations (fst (Update ?d all_off)) = []"
    by (rule mp)
  show ?thesis
    by (intro conjI cnt h0 a b bad conjunct1 [OF c] conjunct2 [OF c])
qed

text \<open>
  Claim C7. For each of the three families behind a flag: when the flag is off, a
  poll makes none of the family's calls and sends no observation of the family's
  descriptors, and a library that differs only in its answers to the family's calls
  (failing ones included) gives the very same poll: same events, same result.
\<close>

theorem disabled_family_is_silent:
  assumes "U = Update \<or> U = Update_linux" and "\<not> enabled fl F"
  shows "(\<forall>c\<in>set (calls (fst (U drv fl))). call_family c \<noteq> Some F) \<and>
         (\<forall>m\<in>set (observations (fst (U drv fl))). desc_family (desc m) \<noteq> Some F) \<and>
         ((\<forall>c. call_family c \<noteq> Some F \<longrightarrow> same_answer drv drv' c) \<longrightarrow> U drv' fl = U drv fl)"
  using assms(1)
proof (cases rule: Update_cases)
  case (1 body)
  note ev = Update_with_events [OF 1(2), of fl drv, unfolded list_all_iff]
  have calls: "call_family c \<noteq> Some F" if "c \<in> set (calls (fst (Update_with body drv fl)))" for c
  proof -
    have "Query c \<in> set (fst (Update_with body drv fl))"
      using that by (simp add: in_calls)
    with ev have "c = Call_Init \<or> c = Call_Shutdown \<or> switched_on fl (call_family c)"
      by auto
    then show ?thesis using assms(2) by auto
  qed
  have obs: "desc_family (desc m) \<noteq> Some F"
    if "m \<in> set (observations (fst (Update_with body drv fl)))" for m
  proof -
    have "Emit m \<in> set (fst (Update_with body drv fl))"
      using that by (simp add: in_observations)
    with ev have "switched_on fl (desc_family (desc m))"
      by auto
    then show ?thesis using assms(2) by auto
  qed
  have same: "Update_with body drv' fl = Update_with body drv fl"
    if "\<forall>c. call_family c \<noteq> Some F \<longrightarrow> same_answer drv drv' c"
  proof (rule agree_Update_with)
    show "list_all (agree_event drv drv') (fst (body drv fl index d)) \<Longrightarrow>
        body drv' fl index d = body drv fl index d" for index d
      using 1(2) agree_device_body agree_device_body_linux by blast
    show "list_all (agree_event drv drv') (fst (Update_with body drv fl))"
      using that calls by (simp add: agree_calls)
  qed
  show ?thesis
    unfolding 1(1) using calls obs same by blast
qed

theorem disabled_family_is_silent_witness:
  "\<not> enabled all_off Fan \<and>
   status (fake\<lparr>GetNumFans := \<lambda>d. (0, 1)\<rparr>) (Call_GetNumFans (Handle 0)) \<noteq> SUCCESS \<and>
   Update (fake\<lparr>GetNumFans := \<lambda>d. (0, 1)\<rparr>) all_off = Update fake all_off \<and>
   snd (Update fake all_off) = None \<and>
   list_all (\<lambda>c. call_family c \<noteq> Some Fan) (calls (fst (Update fake all_off))) \<and>
   list_all (\<lambda>m. desc_family (desc m) \<noteq> Some Fan) (observations (fst (Update fake all_off)))"
proof -
  let ?d = "fake\<lparr>GetNumFans := \<lambda>d. (0, 1)\<rparr>"
  have off: "\<not> enabled all_off Fan"
    by (simp add: all_off_def)
  have bad: "status ?d (Call_GetNumFans (Handle 0)) \<noteq> SUCCESS"
    by (simp add: SUCCESS_def)
  have same: "\<forall>c. call_family c \<noteq> Some Fan \<longrightarrow> same_answer fake ?d c"
  proof (intro allI impI)
    fix c assume "call_family c \<noteq> Some Fan"
    then show "same_answer fake ?d c" by (cases c) simp_all
  qed
  have res: "snd (Update fake all_off) = None"
    by code_simp
  note t = disabled_family_is_silent [OF disjI1 [OF refl] off, where drv = fake and drv' = "?d"]
  have a: "Update ?d all_off = Update fake all_off"
    using t [THEN conjunct2, THEN conjunct2] same by (rule mp)
  have b: "list_all (\<lambda>c. call_family c \<noteq> Some Fan) (calls (fst (Update fake all_off)))"
    using t [THEN conjunct1] by (simp only: list_all_iff)
  have c: "list_all (\<lambda>m. desc_family (desc m) \<noteq> Some Fan)
      (observations (fst (Update fake all_off)))"
    using t [THEN conjunct2, THEN conjunct1] by (simp only: list_all_iff)
  show ?thesis
    by (intro conjI off bad a res b c)
qed

text \<open>
  Claim C8. Wherever a poll (of either version) calls \<^verbatim>\<open>GetTemperature\<close>: on any
  status but \<^verbatim>\<open>SUCCESS\<close>, \<^verbatim>\<open>ERROR_NOT_SUPPORTED\<close> included, only the deferred release
  follows and the poll returns an error with that status; on \<^verbatim>\<open>SUCCESS\<close> the next event
  is the temperature observation, labelled with the name of the sensor. The poll sends
  as many temperature observations as it made successful temperature calls. A poll
  that returns no error has made the call for every enumerated device and every sensor
  of the binding, and a poll never asks for a sensor the binding does not name.
\<close>

theorem temperature_failure_aborts:
  assumes "U = Update \<or> U = Update_linux"
  shows "(fst (U drv fl) = pre @ Query (Call_GetTemperature d t) # post \<longrightarrow>
            (status drv (Call_GetTemperature d t) \<noteq> SUCCESS \<longrightarrow>
               post = deferred drv \<and>
               (\<exists>msg. snd (U drv fl) =
                  Some (Errorf msg (status drv (Call_GetTemperature d t))))) \<and>
            (status drv (Call_GetTemperature d t) = SUCCESS \<longrightarrow>
               (\<exists>index rest. post =
                  Emit (MustNewConstMetric gpuTemp GaugeValue (fst (GetTemperature drv d t))
                    [index, getTemperatureSensorString t]) # rest))) \<and>
         length (filter (\<lambda>m. desc m = gpuTemp) (observations (fst (U drv fl)))) =
           length (filter (good_temperature_call drv) (calls (fst (U drv fl)))) \<and>
         (snd (U drv fl) = None \<and> snd (enumerate_devices drv) = Inr ds \<and> d' \<in> set ds \<and>
          t' \<in> known_TemperatureSensors \<longrightarrow>
            Call_GetTemperature d' t' \<in> set (calls (fst (U drv fl)))) \<and>
         (Call_GetTemperature d'' t'' \<in> set (calls (fst (U drv fl))) \<longrightarrow>
            t'' \<in> known_TemperatureSensors)"
  using assms
proof (cases rule: Update_cases)
  case (1 body)
  have one: "fst (U drv fl) = pre @ Query (Call_GetTemperature d t) # post \<longrightarrow>
            (status drv (Call_GetTemperature d t) \<noteq> SUCCESS \<longrightarrow>
               post = deferred drv \<and>
               (\<exists>msg. snd (U drv fl) =
                  Some (Errorf msg (status drv (Call_GetTemperature d t))))) \<and>
            (status drv (Call_GetTemperature d t) = SUCCESS \<longrightarrow>
               (\<exists>index rest. post =
                  Emit (MustNewConstMetric gpuTemp GaugeValue (fst (GetTemperature drv d t))
                    [index, getTemperatureSensorString t]) # rest))"
  proof
    assume occ: "fst (U drv fl) = pre @ Query (Call_GetTemperature d t) # post"
    note m = Update_temperature_call [OF assms occ]
    show "(status drv (Call_GetTemperature d t) \<noteq> SUCCESS \<longrightarrow>
               post = deferred drv \<and>
               (\<exists>msg. snd (U drv fl) =
                  Some (Errorf msg (status drv (Call_GetTemperature d t))))) \<and>
            (status drv (Call_GetTemperature d t) = SUCCESS \<longrightarrow>
               (\<exists>index rest. post =
                  Emit (MustNewConstMetric gpuTemp GaugeValue (fst (GetTemperature drv d t))
                    [index, getTemperatureSensorString t]) # rest))"
      by (intro conjI m [THEN conjunct1] m [THEN conjunct2, THEN conjunct1])
  qed
  have two: "length (filter (\<lambda>m. desc m = gpuTemp) (observations (fst (U drv fl)))) =
      length (filter (good_temperature_call drv) (calls (fst (U drv fl))))"
    unfolding 1(1) by (rule Update_with_temperature_count [OF 1(2)])
  have three: "snd (U drv fl) = None \<and> snd (enumerate_devices drv) = Inr ds \<and> d' \<in> set ds \<and>
      t' \<in> known_TemperatureSensors \<longrightarrow>
        Call_GetTemperature d' t' \<in> set (calls (fst (U drv fl)))"
  proof
    assume a: "snd (U drv fl) = None \<and> snd (enumerate_devices drv) = Inr ds \<and> d' \<in> set ds \<and>
      t' \<in> known_TemperatureSensors"
    then have "\<exists>index. snd (body drv fl index d') = None \<and>
        set (fst (body drv fl index d')) \<subseteq> set (fst (Update_with body drv fl))"
      by (intro reached_Update_with [where ds = ds]) (simp_all add: 1(1))
    then obtain index where i: "snd (body drv fl index d') = None"
      "set (fst (body drv fl index d')) \<subseteq> set (fst (U drv fl))"
      by (auto simp: 1(1))
    have "t' \<in> known_TemperatureSensors" using a by simp
    from temperature_call_bodies [OF 1(2) i(1) this] i(2)
    show "Call_GetTemperature d' t' \<in> set (calls (fst (U drv fl)))"
      by (auto simp: in_calls)
  qed
  have four: "Call_GetTemperature d'' t'' \<in> set (calls (fst (U drv fl))) \<longrightarrow>
      t'' \<in> known_TemperatureSensors"
  proof
    assume "Call_GetTemperature d'' t'' \<in> set (calls (fst (U drv fl)))"
    then have "defined_code (Query (Call_GetTemperature d'' t''))"
      using defined_code_Update_with [OF 1(2), of drv fl, unfolded list_all_iff]
      by (auto simp: in_calls 1(1))
    then show "t'' \<in> known_TemperatureSensors" by simp
  qed
  show ?thesis
    by (intro conjI one two three four)
qed

theorem temperature_failure_aborts_witness:
  "status fake (Call_GetTemperature (Handle 0) 0) = SUCCESS \<and>
   (\<exists>index rest. drop 4 (fst (Update_linux fake all_off)) =
      Emit (MustNewConstMetric gpuTemp GaugeValue 55 [index, ''GPU'']) # rest) \<and>
   length (filter (\<lambda>m. desc m = gpuTemp) (observations (fst (Update_linux fake all_off)))) = 1 \<and>
   status (fake\<lparr>GetTemperature := \<lambda>d t. (0, ERROR_NOT_SUPPORTED)\<rparr>)
     (Call_GetTemperature (Handle 0) 0) = ERROR_NOT_SUPPORTED \<and>
   drop 4 (fst (Update_linux (fake\<lparr>GetTemperature := \<lambda>d t. (0, ERROR_NOT_SUPPORTED)\<rparr>)
     all_off)) = deferred (fake\<lparr>GetTemperature := \<lambda>d t. (0, ERROR_NOT_SUPPORTED)\<rparr>) \<and>
   (\<exists>msg. snd (Update_linux (fake\<lparr>GetTemperature := \<lambda>d t. (0, ERROR_NOT_SUPPORTED)\<rparr>)
      all_off) = Some (Errorf msg ERROR_NOT_SUPPORTED)) \<and>
   snd (Update_linux fake all_off) = None \<and>
   snd (enumerate_devices fake) = Inr [Handle 0] \<and>
   Call_GetTemperature (Handle 0) 0 \<in> set (calls (fst (Update_linux fake all_off)))"
proof -
  let ?c = "Call_GetTemperature (Handle 0) 0"
  let ?pre = "[Query Call_Init, Query Call_DeviceGetCount, Query (Call_DeviceGetHandleByIndex 0)]"
  let ?d = "fake\<lparr>GetTemperature := \<lambda>d t. (0, ERROR_NOT_SUPPORTED)\<rparr>"
  have tr0: "fst (Update_linux fake all_off) =
      ?pre @ Query ?c # drop 4 (fst (Update_linux fake all_off))"
    by code_simp
  have st0: "status fake ?c = SUCCESS"
    by code_simp
  have v: "fst (GetTemperature fake (Handle 0) 0) = 55" "getTemperatureSensorString 0 = ''GPU''"
    by code_simp+
  have n: "length (filter (good_temperature_call fake) (calls (fst (Update_linux fake all_off)))) = 1"
    by code_simp
  have tr1: "fst (Update_linux ?d all_off) =
      ?pre @ Query ?c # drop 4 (fst (Update_linux ?d all_off))"
    by code_simp
  have st1: "status ?d ?c = ERROR_NOT_SUPPORTED" "status ?d ?c \<noteq> SUCCESS"
    by code_simp+
  have res: "snd (Update_linux fake all_off) = None"
    by code_simp
  have en: "snd (enumerate_devices fake) = Inr [Handle 0]"
    by code_simp
  have code: "0 \<in> known_TemperatureSensors"
    by (simp add: known_TemperatureSensors_def nvml_consts)
  note t = temperature_failure_aborts [OF disjI2 [OF refl]]
  note t0 = t [THEN conjunct1, THEN mp, OF tr0]
  note t1 = t [THEN conjunct1, THEN mp, OF tr1]
  have a: "\<exists>index rest. drop 4 (fst (Update_linux fake all_off)) =
      Emit (MustNewConstMetric gpuTemp GaugeValue 55 [index, ''GPU'']) # rest"
    using t0 [THEN conjunct2, THEN mp, OF st0] by (simp only: v)
  have b: "length (filter (\<lambda>m. desc m = gpuTemp) (observations (fst (Update_linux fake all_off)))) = 1"
    using t [where drv = fake and fl = all_off, THEN conjunct2, THEN conjunct1] by (simp only: n)
  note c = t1 [THEN conjunct1, THEN mp, OF st1(2)]
  have c2: "\<exists>msg. snd (Update_linux ?d all_off) = Some (Errorf msg ERROR_NOT_SUPPORTED)"
    using c [THEN conjunct2] by (simp only: st1(1))
  have "Handle 0 \<in> set [Handle 0]" by simp
  note e = t [where drv = fake and fl = all_off and d' = "Handle 0" and t' = 0,
      THEN conjunct2, THEN conjunct2, THEN conjunct1, THEN mp,
      OF conjI [OF res conjI [OF en conjI [OF this code]]]]
  show ?thesis
    by (intro conjI st0 a b st1(1) conjunct1 [OF c] c2 res en e)
qed

text \<open>
  Claim C9. Two polls with the same flags, against libraries that give the same
  answer to every call the first poll makes, send the same observations in the same
  order; they even have the same events and the same result.
\<close>

theorem same_answers_same_observations:
  assumes "U = Update \<or> U = Update_linux"
    and "\<forall>c\<in>set (calls (fst (U a fl))). same_answer a b c"
  shows "observations (fst (U b fl)) = observations (fst (U a fl)) \<and> U b fl = U a fl"
  using assms(1)
proof (cases rule: Update_cases)
  case (1 body)
  have "list_all (agree_event a b) (fst (Update_with body a fl))"
    using assms(2) 1(1) by (simp add: agree_calls)
  moreover have "list_all (agree_event a b) (fst (body a fl index d)) \<Longrightarrow>
      body b fl index d = body a fl index d" for index d
    using 1(2) agree_device_body agree_device_body_linux by blast
  ultimately have "Update_with body b fl = Update_with body a fl"
    by (intro agree_Update_with)
  then show ?thesis using 1(1) by simp
qed

theorem same_answers_same_observations_witness:
  "list_all (same_answer fake (fake\<lparr>GetUUID := \<lambda>d. (''other'', 1)\<rparr>))
     (calls (fst (Update fake all_off))) \<and>
   GetUUID (fake\<lparr>GetUUID := \<lambda>d. (''other'', 1)\<rparr>) (Handle 0) \<noteq> GetUUID fake (Handle 0) \<and>
   observations (fst (Update (fake\<lparr>GetUUID := \<lambda>d. (''other'', 1)\<rparr>) all_off)) =
     observations (fst (Update fake all_off))"
proof -
  let ?b = "fake\<lparr>GetUUID := \<lambda>d. (''other'', 1)\<rparr>"
  have h: "list_all (same_answer fake ?b) (calls (fst (Update fake all_off)))"
    by code_simp
  then have h': "\<forall>c\<in>set (calls (fst (Update fake all_off))). same_answer fake ?b c"
    by (simp only: list_all_iff)
  have d: "GetUUID ?b (Handle 0) \<noteq> GetUUID fake (Handle 0)"
    by (simp add: fake_def)
  note t = same_answers_same_observations [OF disjI1 [OF refl] h']
  show ?thesis
    by (intro conjI h d conjunct1 [OF t])
qed

text \<open>
  Claim C10. The persistence-mode function returns \<open>''ON''\<close> for every code that is
  not \<^verbatim>\<open>FEATURE_DISABLED\<close> (as an \<^verbatim>\<open>nvml.EnableState\<close>, and so for every 32-bit code
  other than 0) and \<open>''OFF''\<close> for \<^verbatim>\<open>FEATURE_DISABLED\<close>; every \<^verbatim>\<open>persis_mode\<close>
  observation of a poll has two labels, the second being \<open>''ON''\<close> or \<open>''OFF''\<close> and
  never \<open>''UNKNOWN''\<close>.
\<close>

theorem persistence_label_on_or_off:
  "(to_int32 stateN \<noteq> FEATURE_DISABLED \<longrightarrow> getPersisModeString stateN = ''ON'') \<and>
   (to_int32 stateN = FEATURE_DISABLED \<longrightarrow> getPersisModeString stateN = ''OFF'') \<and>
   (- (2 ^ 31) \<le> stateN \<and> stateN < 2 ^ 31 \<and> stateN \<noteq> FEATURE_DISABLED \<longrightarrow>
      getPersisModeString stateN = ''ON'') \<and>
   (\<forall>m\<in>set (observations (fst (Update drv fl))). desc m = gpuPersisMode \<longrightarrow>
      length (labelValues m) = 2 \<and>
      (labelValues m ! 1 = ''ON'' \<or> labelValues m ! 1 = ''OFF'') \<and>
      labelValues m ! 1 \<noteq> ''UNKNOWN'')"
proof -
  have a: "to_int32 stateN \<noteq> FEATURE_DISABLED \<longrightarrow> getPersisModeString stateN = ''ON''"
    "to_int32 stateN = FEATURE_DISABLED \<longrightarrow> getPersisModeString stateN = ''OFF''"
    by (simp_all add: getPersisModeString_def)
  have b: "- (2 ^ 31) \<le> stateN \<and> stateN < 2 ^ 31 \<and> stateN \<noteq> FEATURE_DISABLED \<longrightarrow>
      getPersisModeString stateN = ''ON''"
    by (simp add: getPersisModeString_def to_int32_id)
  have c: "length (labelValues m) = 2 \<and>
      (labelValues m ! 1 = ''ON'' \<or> labelValues m ! 1 = ''OFF'') \<and>
      labelValues m ! 1 \<noteq> ''UNKNOWN''"
    if "m \<in> set (observations (fst (Update drv fl)))" "desc m = gpuPersisMode" for m
  proof -
    have "Emit m \<in> set (fst (Update_with device_body drv fl))"
      using that(1) by (simp add: in_observations Update_def)
    then have "poll_event fl (Emit m)"
      using Update_with_events [of device_body fl drv, unfolded list_all_iff] by auto
    then show ?thesis using that(2) by auto
  qed
  show ?thesis using a b c by blast
qed

theorem persistence_label_on_or_off_witness:
  "to_int32 7 \<noteq> FEATURE_DISABLED \<and> getPersisModeString 7 = ''ON'' \<and>
   to_int32 0 = FEATURE_DISABLED \<and> getPersisModeString 0 = ''OFF'' \<and>
   MustNewConstMetric gpuPersisMode GaugeValue 1 [''0'', ''ON'']
     \<in> set (observations (fst (Update fake all_off))) \<and>
   labelValues (MustNewConstMetric gpuPersisMode GaugeValue 1 [''0'', ''ON'']) ! 1 \<noteq> ''UNKNOWN''"
proof -
  let ?m = "MustNewConstMetric gpuPersisMode GaugeValue 1 [''0'', ''ON'']"
  have a: "to_int32 7 \<noteq> FEATURE_DISABLED" "to_int32 0 = FEATURE_DISABLED"
    by (simp_all add: to_int32_def FEATURE_DISABLED_def)
  have m: "?m \<in> set (observations (fst (Update fake all_off)))"
    by code_simp
  have dm: "desc ?m = gpuPersisMode"
    by (simp add: MustNewConstMetric_def)
  note t7 = persistence_label_on_or_off [where stateN = 7 and drv = fake and fl = all_off]
  note t0 = persistence_label_on_or_off [where stateN = 0 and drv = fake and fl = all_off]
  have on: "getPersisModeString 7 = ''ON''"
    using t7 [THEN conjunct1] a(1) by (rule mp)
  have off: "getPersisModeString 0 = ''OFF''"
    using t0 [THEN conjunct2, THEN conjunct1] a(2) by (rule mp)
  have "length (labelValues ?m) = 2 \<and>
      (labelValues ?m ! 1 = ''ON'' \<or> labelValues ?m ! 1 = ''OFF'') \<and>
      labelValues ?m ! 1 \<noteq> ''UNKNOWN''"
    using t7 [THEN conjunct2, THEN conjunct2, THEN conjunct2, THEN bspec, OF m] dm by (rule mp)
  then have l: "labelValues ?m ! 1 \<noteq> ''UNKNOWN''"
    by (elim conjE)
  show ?thesis
    by (intro conjI a on off m l)
qed

end
